(* ===== verification/Prelude.thy ===== *)
theory Prelude
  imports Main "HOL-Library.AList" "HOL-Library.Sublist"
begin

text \<open>
  Shared vocabulary of the development: the Python runtime errors the program can
  raise, the error monad \<open>py_error + 'a\<close> in which every statement of
  \<^verbatim>\<open>src/app.py\<close> that may raise is sequenced, Python dictionaries as
  insertion-ordered association lists (\<open>AList.update\<close> is exactly
  \<^verbatim>\<open>d[k] = v\<close>: an existing key keeps its position, a new key is appended),
  \<^verbatim>\<open>str.endswith\<close>, and the generic lemmas on these that the component
  theories use through the collection \<open>py_simps\<close>.
\<close>

named_theorems py_simps "simplification rules of the Python runtime model"

subsection \<open>Python exceptions\<close>

text \<open>
  \<open>AttributeError tag attr\<close>: an attribute \<open>attr\<close> (\<open>find\<close> or \<open>text\<close>) was
  read from \<open>None\<close>, where \<open>None\<close> is the result of looking up the child element
  \<open>tag\<close> that does not exist. \<open>TypeError\<close>: \<open>+\<close> on \<open>None\<close> and a string.
  \<open>ParseError\<close>: the bytes given to \<^verbatim>\<open>ET.parse\<close> are not well-formed XML.
  \<open>FileNotFoundError\<close>, \<open>IsADirectoryError\<close>, \<open>BadZipFile\<close>: raised by the
  file system and the \<^verbatim>\<open>zipfile\<close> module in the request handlers, with the path
  concerned.
\<close>

datatype py_error =
    AttributeError string string
  | TypeError
  | ParseError
  | FileNotFoundError string
  | IsADirectoryError string
  | BadZipFile

type_synonym 'a result = "py_error + 'a"

text \<open>A Python dictionary: keys in insertion order, each at most once.\<close>

type_synonym ('k, 'v) pydict = "('k \<times> 'v) list"

definition dict_keys :: "('k, 'v) pydict \<Rightarrow> 'k list" where
  "dict_keys d = map fst d"

definition dict_ok :: "('k, 'v) pydict \<Rightarrow> bool" where
  "dict_ok d \<longleftrightarrow> distinct (dict_keys d)"

subsection \<open>Sequencing statements that may raise\<close>

definition bind_res :: "'a result \<Rightarrow> ('a \<Rightarrow> 'b result) \<Rightarrow> 'b result" where
  "bind_res m f = (case m of Inl e \<Rightarrow> Inl e | Inr a \<Rightarrow> f a)"

text \<open>A Python \<^verbatim>\<open>for\<close> loop that appends one value per element to a list and
  stops at the first exception.\<close>

fun map_res :: "('a \<Rightarrow> 'b result) \<Rightarrow> 'a list \<Rightarrow> 'b list result" where
  "map_res f [] = Inr []"
| "map_res f (x # xs) = bind_res (f x) (\<lambda>y. bind_res (map_res f xs) (\<lambda>ys. Inr (y # ys)))"

text \<open>The distinct elements of a list in the order they are first met, appended to
  \<open>seen\<close>: how pandas orders the union of the keys of a list of dictionaries.\<close>

fun first_seen :: "'a list \<Rightarrow> 'a list \<Rightarrow> 'a list" where
  "first_seen seen [] = seen"
| "first_seen seen (x # xs) = first_seen (if x \<in> set seen then seen else seen @ [x]) xs"

subsection \<open>Python string methods\<close>

text \<open>\<^verbatim>\<open>s.endswith(suf)\<close>.\<close>

definition py_endswith :: "string \<Rightarrow> string \<Rightarrow> bool" where
  "py_endswith s suf \<longleftrightarrow> length suf \<le> length s \<and> drop (length s - length suf) s = suf"

subsection \<open>Lemmas on the error monad\<close>

lemma bind_res_Inl [simp, py_simps]: "bind_res (Inl e) f = Inl e"
  by (simp add: bind_res_def)

lemma bind_res_Inr [simp, py_simps]: "bind_res (Inr a) f = f a"
  by (simp add: bind_res_def)

lemma bind_res_return [simp, py_simps]: "bind_res m Inr = m"
  by (cases m) auto

lemma bind_res_cong [fundef_cong]:
  "m = m' \<Longrightarrow> (\<And>a. m' = Inr a \<Longrightarrow> f a = g a) \<Longrightarrow> bind_res m f = bind_res m' g"
  by (cases m) auto

lemma bind_res_eq_Inr [py_simps]:
  "bind_res m f = Inr b \<longleftrightarrow> (\<exists>a. m = Inr a \<and> f a = Inr b)"
  by (cases m) auto

lemma bind_res_eq_Inl [py_simps]:
  "bind_res m f = Inl e \<longleftrightarrow> m = Inl e \<or> (\<exists>a. m = Inr a \<and> f a = Inl e)"
  by (cases m) auto

lemma bind_res_assoc [py_simps]:
  "bind_res (bind_res m f) g = bind_res m (\<lambda>a. bind_res (f a) g)"
  by (cases m) auto

lemma map_res_Inr_iff [py_simps]:
  "map_res f xs = Inr ys \<longleftrightarrow> list_all2 (\<lambda>x y. f x = Inr y) xs ys"
proof (induction xs arbitrary: ys)
  case Nil
  then show ?case by auto
next
  case (Cons x xs)
  then show ?case
    by (cases ys) (auto simp: bind_res_eq_Inr)
qed

lemma map_res_length:
  "map_res f xs = Inr ys \<Longrightarrow> length ys = length xs"
  by (simp add: map_res_Inr_iff list_all2_lengthD)

lemma map_res_append [py_simps]:
  "map_res f (xs @ ys) =
     bind_res (map_res f xs) (\<lambda>as. bind_res (map_res f ys) (\<lambda>bs. Inr (as @ bs)))"
  by (induction xs) (simp_all add: bind_res_assoc)

lemma map_res_Inl_ex:
  "(\<exists>e. map_res f xs = Inl e) \<longleftrightarrow> (\<exists>x\<in>set xs. \<exists>e. f x = Inl e)"
proof (induction xs)
  case Nil
  then show ?case by simp
next
  case (Cons x xs)
  then show ?case
    by (cases "f x"; cases "map_res f xs") auto
qed

lemma list_all2_in_set2:
  assumes "list_all2 P xs ys" and "y \<in> set ys"
  shows "\<exists>x\<in>set xs. P x y"
proof -
  from assms(2) obtain i where i: "i < length ys" "ys ! i = y"
    by (auto simp: in_set_conv_nth)
  with assms(1) have "P (xs ! i) y" and "xs ! i \<in> set xs"
    by (auto simp: list_all2_conv_all_nth)
  then show ?thesis by blast
qed

subsection \<open>Lemmas on dictionaries\<close>

lemma dict_keys_update [py_simps]:
  "dict_keys (AList.update k v d) =
     (if k \<in> set (dict_keys d) then dict_keys d else dict_keys d @ [k])"
  by (simp add: dict_keys_def AList.update_keys)

lemma dict_keys_update_ex:
  "\<exists>ks. dict_keys (AList.update k v d) = dict_keys d @ ks \<and> set ks \<subseteq> {k}"
  by (cases "k \<in> set (dict_keys d)") (auto simp: dict_keys_update)

lemma dict_ok_update [simp, py_simps]: "dict_ok d \<Longrightarrow> dict_ok (AList.update k v d)"
  by (simp add: dict_ok_def dict_keys_def AList.distinct_update)

lemma dict_ok_delete [simp, py_simps]: "dict_ok d \<Longrightarrow> dict_ok (AList.delete k d)"
  by (simp add: dict_ok_def dict_keys_def AList.distinct_delete)

lemma dict_ok_Nil [simp, py_simps]: "dict_ok []"
  by (simp add: dict_ok_def dict_keys_def)

lemma map_of_update [simp, py_simps]: "map_of (AList.update k v d) = (map_of d)(k \<mapsto> v)"
  by (rule AList.update_conv')

lemma set_update_subset [py_simps]: "set (AList.update k v d) \<subseteq> insert (k, v) (set d)"
  by (induction d) auto

lemma filter_endswith_update:
  "\<not> py_endswith k suf \<Longrightarrow>
     filter (\<lambda>f. py_endswith (fst f) suf) (AList.update k v d) = filter (\<lambda>f. py_endswith (fst f) suf) d"
  by (induction d) auto

lemma fold_update_keys:
  "set (dict_keys d) \<subseteq> set (dict_keys (fold (\<lambda>(p, c) d. AList.update p c d) ms d)) \<and>
   (dict_ok d \<longrightarrow> dict_ok (fold (\<lambda>(p, c) d. AList.update p c d) ms d))"
proof (induction ms arbitrary: d)
  case Nil
  then show ?case by simp
next
  case (Cons m ms)
  obtain p c where m: "m = (p, c)" by (cases m)
  have "set (dict_keys d) \<subseteq> set (dict_keys (AList.update p c d))"
    by (auto simp: dict_keys_update)
  with Cons.IH [of "AList.update p c d"] show ?case by (auto simp: m)
qed

lemma update_same: "map_of d k = Some v \<Longrightarrow> AList.update k v d = d"
  by (induction d) auto

lemma map_of_fold_update:
  "map_of (fold (\<lambda>(k, v) d. AList.update k v d) xs d) = map_of d ++ map_of (rev xs)"
  by (induction xs arbitrary: d) (auto simp: map_add_upd_left map_of_append)

lemma set_dict_keys_fold_update:
  "set (dict_keys (fold (\<lambda>(k, v) d. AList.update k v d) xs d)) = set (dict_keys d) \<union> fst ` set xs"
  by (induction xs arbitrary: d) (auto simp: dict_keys_update split: if_splits)

lemma dict_keys_fold_update_same:
  "fst ` set xs \<subseteq> set (dict_keys d) \<Longrightarrow> dict_keys (fold (\<lambda>(k, v) d. AList.update k v d) xs d) = dict_keys d"
  by (induction xs arbitrary: d) (auto simp: dict_keys_update)

text \<open>Two dictionaries with the same distinct keys in the same order and the same
  lookups are equal.\<close>

lemma dict_ext:
  "distinct (dict_keys a) \<Longrightarrow> dict_keys a = dict_keys b \<Longrightarrow> map_of a = map_of b \<Longrightarrow> a = b"
proof (induction a arbitrary: b)
  case Nil
  then show ?case by (simp add: dict_keys_def)
next
  case (Cons p a)
  obtain k v where p: "p = (k, v)" by (cases p)
  obtain b' v' where b: "b = (k, v') # b'" and ka: "dict_keys a = dict_keys b'"
    using Cons.prems(2) p by (cases b) (auto simp: dict_keys_def)
  have kn: "k \<notin> set (dict_keys a)" using Cons.prems(1) p by (simp add: dict_keys_def)
  have "v = v'" using Cons.prems(3) p b fun_cong [OF Cons.prems(3), of k] by simp
  moreover have "map_of a = map_of b'"
  proof
    fix x
    show "map_of a x = map_of b' x"
    proof (cases "x = k")
      case True
      with kn ka show ?thesis by (metis dict_keys_def map_of_eq_None_iff set_map)
    next
      case False
      with fun_cong [OF Cons.prems(3), of x] p b show ?thesis by simp
    qed
  qed
  ultimately show ?case using Cons.IH [of b'] Cons.prems(1) ka p b by (simp add: dict_keys_def)
qed

lemma fold_update_idem:
  assumes "dict_ok d"
  shows "fold (\<lambda>(k, v) d. AList.update k v d) xs (fold (\<lambda>(k, v) d. AList.update k v d) xs d) =
         fold (\<lambda>(k, v) d. AList.update k v d) xs d"
proof (rule dict_ext)
  let ?F = "fold (\<lambda>(k, v) d. AList.update k v d) xs"
  have ok: "dict_ok (?F d)" using fold_update_keys [of d xs] assms by simp
  have sub: "fst ` set xs \<subseteq> set (dict_keys (?F d))" by (simp add: set_dict_keys_fold_update)
  show "distinct (dict_keys (?F (?F d)))" using fold_update_keys [of "?F d" xs] ok by (simp add: dict_ok_def)
  show "dict_keys (?F (?F d)) = dict_keys (?F d)" using sub by (rule dict_keys_fold_update_same)
  show "map_of (?F (?F d)) = map_of (?F d)" by (rule ext) (simp add: map_of_fold_update map_add_def split: option.split)
qed

lemma set_dict_keys [py_simps]: "set (dict_keys d) = fst ` set d"
  by (simp add: dict_keys_def)

subsection \<open>Lemmas on first_seen\<close>

lemma set_first_seen [py_simps]: "set (first_seen seen xs) = set seen \<union> set xs"
  by (induction xs arbitrary: seen) auto

lemma distinct_first_seen: "distinct seen \<Longrightarrow> distinct (first_seen seen xs)"
  by (induction xs arbitrary: seen) auto

lemma first_seen_prefix: "\<exists>ys. first_seen seen xs = seen @ ys"
proof (induction xs arbitrary: seen)
  case Nil
  then show ?case by simp
next
  case (Cons x xs)
  let ?seen = "if x \<in> set seen then seen else seen @ [x]"
  obtain ys where "first_seen ?seen xs = ?seen @ ys"
    using Cons.IH by blast
  then show ?case by (cases "x \<in> set seen") auto
qed

lemma first_seen_distinct_id: "distinct xs \<Longrightarrow> set xs \<inter> set seen = {} \<Longrightarrow> first_seen seen xs = seen @ xs"
  by (induction xs arbitrary: seen) auto

lemma first_seen_append: "first_seen seen (xs @ ys) = first_seen (first_seen seen xs) ys"
  by (induction xs arbitrary: seen) auto

lemma py_endswith_suffix: "py_endswith s suf \<longleftrightarrow> suffix suf s"
proof
  assume "py_endswith s suf"
  then have "s = take (length s - length suf) s @ suf"
    by (metis append_take_drop_id py_endswith_def)
  then show "suffix suf s" by (metis suffix_def)
next
  assume "suffix suf s"
  then obtain p where "s = p @ suf" by (auto simp: suffix_def)
  then show "py_endswith s suf" by (simp add: py_endswith_def)
qed

end
