(* ===== verification/XmlTree.thy ===== *)
theory XmlTree
  imports Prelude
begin

text \<open>
  The part of Python's \<^verbatim>\<open>xml.etree.ElementTree\<close> that \<^verbatim>\<open>src/app.py\<close>
  uses: an element has a tag, an optional text (\<^verbatim>\<open>elem.text\<close> is \<open>None\<close> when the
  element has no character data before its first child) and its children in document
  order; attributes and tails are never read by the program and are left out.
  \<^verbatim>\<open>elem.find(tag)\<close> and \<^verbatim>\<open>elem.findall(tag)\<close> with a plain tag as path look at
  the direct children only (ElementPath's child selector). The library is not part of the
  repository; it is modelled from its documented behaviour. The last group models the
  Python expressions of the program that read an attribute of a value that may be
  \<open>None\<close>, and the \<open>AttributeError\<close> they raise when it is.
\<close>

datatype element = Element (el_tag: string) (el_text: "string option") (el_children: "element list")

definition elem_findall :: "element \<Rightarrow> string \<Rightarrow> element list" where
  "elem_findall e t = filter (\<lambda>c. el_tag c = t) (el_children e)"

definition elem_find :: "element \<Rightarrow> string \<Rightarrow> element option" where
  "elem_find e t = List.find (\<lambda>c. el_tag c = t) (el_children e)"

text \<open>\<^verbatim>\<open>x.find(t)\<close> where \<open>x\<close> is the result of looking up the child \<open>n\<close>
  and may be \<open>None\<close>.\<close>

definition attr_find :: "string \<Rightarrow> element option \<Rightarrow> string \<Rightarrow> element option result" where
  "attr_find n x t = (case x of None \<Rightarrow> Inl (AttributeError n ''find'') | Some e \<Rightarrow> Inr (elem_find e t))"

text \<open>\<^verbatim>\<open>x.text\<close> where \<open>x\<close> is the result of looking up the child \<open>n\<close>.\<close>

definition attr_text :: "string \<Rightarrow> element option \<Rightarrow> string option result" where
  "attr_text n x = (case x of None \<Rightarrow> Inl (AttributeError n ''text'') | Some e \<Rightarrow> Inr (el_text e))"

text \<open>The idiom \<^verbatim>\<open>x.find(t).text if x.find(t) is not None else None\<close>: the
  condition is evaluated first, so \<open>x = None\<close> raises from the first
  \<^verbatim>\<open>find\<close>; an absent leaf gives \<open>None\<close>.\<close>

definition leaf_text :: "string \<Rightarrow> element option \<Rightarrow> string \<Rightarrow> string option result" where
  "leaf_text n x t =
     bind_res (attr_find n x t) (\<lambda>c. if c \<noteq> None then attr_text t c else Inr None)"

text \<open>The text of the child \<open>t\<close> of \<open>e\<close>, \<open>None\<close> when there is no such
  child or it has no text: what the idiom above returns when \<open>x\<close> is present.\<close>

definition leaf_value :: "element \<Rightarrow> string \<Rightarrow> string option" where
  "leaf_value e t = Option.bind (elem_find e t) el_text"

subsection \<open>Characteristic equations\<close>

lemma find_conv_filter: "List.find P xs = (case filter P xs of [] \<Rightarrow> None | c # _ \<Rightarrow> Some c)"
  by (induction xs) auto

lemma elem_find_findall:
  "elem_find e t = (case elem_findall e t of [] \<Rightarrow> None | c # _ \<Rightarrow> Some c)"
  by (simp add: elem_find_def elem_findall_def find_conv_filter)

lemma elem_findall_tag: "c \<in> set (elem_findall e t) \<Longrightarrow> el_tag c = t"
  by (simp add: elem_findall_def)

lemma elem_find_Some: "elem_find e t = Some c \<Longrightarrow> el_tag c = t \<and> c \<in> set (el_children e)"
  by (auto simp: elem_find_def find_Some_iff)

lemma elem_find_None: "elem_find e t = None \<longleftrightarrow> (\<forall>c\<in>set (el_children e). el_tag c \<noteq> t)"
  by (auto simp: elem_find_def find_None_iff)

lemma attr_find_simps [simp, py_simps]:
  "attr_find n None t = Inl (AttributeError n ''find'')"
  "attr_find n (Some e) t = Inr (elem_find e t)"
  by (simp_all add: attr_find_def)

lemma attr_text_simps [simp, py_simps]:
  "attr_text n None = Inl (AttributeError n ''text'')"
  "attr_text n (Some e) = Inr (el_text e)"
  by (simp_all add: attr_text_def)

lemma leaf_text_simps [simp, py_simps]:
  "leaf_text n None t = Inl (AttributeError n ''find'')"
  "leaf_text n (Some e) t = Inr (leaf_value e t)"
  by (auto simp: leaf_text_def leaf_value_def split: option.split)

end
