(* ===== verification/Invoice.thy ===== *)
theory Invoice
  imports XmlTree
begin

text \<open>
  The record extractor, \<^verbatim>\<open>extract_all_info_from_xml\<close> of \<^verbatim>\<open>src/app.py\<close>
  (lines 63--95). One row per \<^verbatim>\<open>DLHDon\<close> child of the document root, built as a
  Python dictionary whose keys are the nine column names of the output sheet (the
  datatype \<open>field\<close>, one constructor per key literal of the source). The body of the
  loop is split at the source's three blocks: the general information \<^verbatim>\<open>TTChung\<close>
  (lines 69--75), its optional side list \<^verbatim>\<open>TTKhac\<close> of bank details (lines 77--85)
  and the detail subtree \<^verbatim>\<open>NDHDon\<close> (lines 87--93). Every expression that can raise
  is sequenced with \<open>bind_res\<close>, in the source's evaluation order, so that the first
  exception is the result. The second part is the specification's record of an
  invoice: its reader \<open>read_src\<close>, its column mapping \<open>row_spec\<close> and its encoder
  \<open>render_src\<close>. The extractor is proved against these.
\<close>

datatype field =
    Loai_Hoa_Don \<comment> \<open>invoice type, from \<^verbatim>\<open>TTChung/THDon\<close>\<close>
  | So_Hoa_Don \<comment> \<open>invoice / customs declaration number, \<^verbatim>\<open>KHHDon + SHDon\<close>\<close>
  | Ngay_Hoa_Don \<comment> \<open>invoice date, \<^verbatim>\<open>TTChung/NLap\<close>\<close>
  | Ma_So_Thue \<comment> \<open>tax code, \<^verbatim>\<open>TTChung/MSTTCGP\<close> then \<^verbatim>\<open>NDHDon/NBan/MST\<close>\<close>
  | So_Tai_Khoan \<comment> \<open>bank account, side-list entry \<^verbatim>\<open>BankAccount\<close>\<close>
  | Tai_Ngan_Hang \<comment> \<open>bank name, side-list entry \<^verbatim>\<open>BankName\<close>\<close>
  | Nguoi_Thu_Huong \<comment> \<open>beneficiary, \<^verbatim>\<open>NDHDon/NBan/Ten\<close>\<close>
  | Gia_Tri_Hoa_Don \<comment> \<open>settlement value, \<^verbatim>\<open>NDHDon/TToan/TgTTTBSo\<close>\<close>
  | So_Tien_Giai_Ngan \<comment> \<open>disbursed amount, \<^verbatim>\<open>NDHDon/TToan/TgTTTBSo\<close>\<close>

text \<open>The columns form a finite enumeration; the instance gives the library's facts
  on finite types (\<open>card UNIV\<close>, \<open>Ball UNIV\<close>) for the bounds on rows and tables.\<close>

instantiation field :: enum
begin

definition enum_field :: "field list" where
  "enum_field = [Loai_Hoa_Don, So_Hoa_Don, Ngay_Hoa_Don, Ma_So_Thue, So_Tai_Khoan, Tai_Ngan_Hang,
                 Nguoi_Thu_Huong, Gia_Tri_Hoa_Don, So_Tien_Giai_Ngan]"

definition enum_all_field :: "(field \<Rightarrow> bool) \<Rightarrow> bool" where
  "enum_all_field P \<longleftrightarrow>
     list_all P [Loai_Hoa_Don, So_Hoa_Don, Ngay_Hoa_Don, Ma_So_Thue, So_Tai_Khoan, Tai_Ngan_Hang,
                 Nguoi_Thu_Huong, Gia_Tri_Hoa_Don, So_Tien_Giai_Ngan]"

definition enum_ex_field :: "(field \<Rightarrow> bool) \<Rightarrow> bool" where
  "enum_ex_field P \<longleftrightarrow>
     list_ex P [Loai_Hoa_Don, So_Hoa_Don, Ngay_Hoa_Don, Ma_So_Thue, So_Tai_Khoan, Tai_Ngan_Hang,
                Nguoi_Thu_Huong, Gia_Tri_Hoa_Don, So_Tien_Giai_Ngan]"

instance
proof
  show "(UNIV :: field set) = set enum_class.enum"
  proof (rule set_eqI)
    fix x :: field
    show "x \<in> UNIV \<longleftrightarrow> x \<in> set enum_class.enum" by (cases x) (simp_all add: enum_field_def)
  qed
next
  show "distinct (enum_class.enum :: field list)" by (simp add: enum_field_def)
next
  fix P :: "field \<Rightarrow> bool"
  show "enum_class.enum_all P \<longleftrightarrow> Ball UNIV P"
    by (simp add: enum_all_field_def) (metis field.exhaust)
  show "enum_class.enum_ex P \<longleftrightarrow> Bex UNIV P"
    by (simp add: enum_ex_field_def) (metis field.exhaust)
qed

end

type_synonym invoice_row = "(field, string option) pydict"

text \<open>Python's \<^verbatim>\<open>a + b\<close> on two values of type \<^verbatim>\<open>Optional[str]\<close>: string
  concatenation, and a \<open>TypeError\<close> when either operand is \<open>None\<close>.\<close>

definition py_add :: "string option \<Rightarrow> string option \<Rightarrow> string result" where
  "py_add a b = (case (a, b) of (Some x, Some y) \<Rightarrow> Inr (x @ y) | _ \<Rightarrow> Inl TypeError)"

text \<open>Lines 69--75, from \<^verbatim>\<open>record = {}\<close>; \<open>ttchung\<close> is
  \<^verbatim>\<open>hdon.find('TTChung')\<close>.\<close>

definition read_ttchung :: "element option \<Rightarrow> invoice_row result" where
  "read_ttchung ttchung =
     bind_res (leaf_text ''TTChung'' ttchung ''THDon'') (\<lambda>thdon.
     let record = AList.update Loai_Hoa_Don thdon [] in
     bind_res (leaf_text ''TTChung'' ttchung ''KHHDon'') (\<lambda>khhdon.
     bind_res (leaf_text ''TTChung'' ttchung ''SHDon'') (\<lambda>shdon.
     bind_res (py_add khhdon shdon) (\<lambda>so.
     let record = AList.update So_Hoa_Don (Some so) record in
     bind_res (leaf_text ''TTChung'' ttchung ''NLap'') (\<lambda>nlap.
     let record = AList.update Ngay_Hoa_Don nlap record in
     bind_res (leaf_text ''TTChung'' ttchung ''MSTTCGP'') (\<lambda>msttcgp.
     Inr (AList.update Ma_So_Thue msttcgp record)))))))"

text \<open>Lines 79--85: the loop over the \<^verbatim>\<open>TTin\<close> entries. Both children of an
  entry are dereferenced before its name is compared, so an entry without
  \<^verbatim>\<open>TTruong\<close> or \<^verbatim>\<open>DLieu\<close> raises whatever its name.\<close>

fun scan_ttin :: "element list \<Rightarrow> invoice_row \<Rightarrow> invoice_row result" where
  "scan_ttin [] record = Inr record"
| "scan_ttin (ttin # ttins) record =
     bind_res (attr_text ''TTruong'' (elem_find ttin ''TTruong'')) (\<lambda>ttruong.
     bind_res (attr_text ''DLieu'' (elem_find ttin ''DLieu'')) (\<lambda>dlieu.
     let record = (if ttruong = Some ''BankAccount'' then AList.update So_Tai_Khoan dlieu record
                   else record);
         record = (if ttruong = Some ''BankName'' then AList.update Tai_Ngan_Hang dlieu record
                   else record)
     in scan_ttin ttins record))"

text \<open>Lines 77--85.\<close>

definition read_ttkhac :: "element option \<Rightarrow> invoice_row \<Rightarrow> invoice_row result" where
  "read_ttkhac ttchung record =
     bind_res (attr_find ''TTChung'' ttchung ''TTKhac'') (\<lambda>ttkhac.
     case ttkhac of
       None \<Rightarrow> Inr record
     | Some t \<Rightarrow> scan_ttin (elem_findall t ''TTin'') record)"

text \<open>Lines 87--93; \<open>ndh_don\<close> is \<^verbatim>\<open>hdon.find('NDHDon')\<close>.\<close>

definition read_ndhdon :: "element option \<Rightarrow> invoice_row \<Rightarrow> invoice_row result" where
  "read_ndhdon ndh_don record =
     bind_res (attr_find ''NDHDon'' ndh_don ''NBan'') (\<lambda>nban.
     bind_res (leaf_text ''NBan'' nban ''Ten'') (\<lambda>ten.
     let record = AList.update Nguoi_Thu_Huong ten record in
     bind_res (leaf_text ''NBan'' nban ''MST'') (\<lambda>mst.
     let record = AList.update Ma_So_Thue mst record in
     bind_res (attr_find ''NDHDon'' ndh_don ''TToan'') (\<lambda>ttoan.
     bind_res (leaf_text ''TToan'' ttoan ''TgTTTBSo'') (\<lambda>gia_tri.
     let record = AList.update Gia_Tri_Hoa_Don gia_tri record in
     bind_res (leaf_text ''TToan'' ttoan ''TgTTTBSo'') (\<lambda>so_tien.
     Inr (AList.update So_Tien_Giai_Ngan so_tien record)))))))"

text \<open>Lines 68--93: the body of the loop for one \<^verbatim>\<open>DLHDon\<close> element.\<close>

definition extract_hdon :: "element \<Rightarrow> invoice_row result" where
  "extract_hdon hdon =
     (let ttchung = elem_find hdon ''TTChung'' in
      bind_res (read_ttchung ttchung) (\<lambda>record.
      bind_res (read_ttkhac ttchung record) (\<lambda>record.
      read_ndhdon (elem_find hdon ''NDHDon'') record)))"

text \<open>Lines 66--95: the loop, appending each record to \<^verbatim>\<open>data\<close>.\<close>

fun extract_loop :: "element list \<Rightarrow> invoice_row list \<Rightarrow> invoice_row list result" where
  "extract_loop [] data = Inr data"
| "extract_loop (hdon # hdons) data =
     bind_res (extract_hdon hdon) (\<lambda>record. extract_loop hdons (data @ [record]))"

text \<open>Lines 63--95. \<open>parse\<close> is \<^verbatim>\<open>ET.parse(file_path).getroot()\<close> on the bytes
  of the file; \<open>None\<close> stands for the \<^verbatim>\<open>ParseError\<close> it raises on input that is
  not well-formed.\<close>

definition extract_all_info_from_xml ::
  "('b \<Rightarrow> element option) \<Rightarrow> 'b \<Rightarrow> invoice_row list result" where
  "extract_all_info_from_xml parse content =
     (case parse content of
        None \<Rightarrow> Inl ParseError
      | Some root \<Rightarrow> extract_loop (elem_findall root ''DLHDon'') [])"

subsection \<open>The specification of one row\<close>

text \<open>
  The abstract invoice record of the specification (its data model, section 3): the
  values the extractor reads from the tree, before they are mapped to columns.
  \<open>read_src\<close> navigates the tree as section 4.1 of the specification says: the
  structural subtrees \<^verbatim>\<open>TTChung\<close>, \<^verbatim>\<open>NDHDon\<close>, \<^verbatim>\<open>NBan\<close> and \<^verbatim>\<open>TToan\<close>
  must be present (\<open>None\<close> is the structure error), leaves may be absent, and the
  side list \<^verbatim>\<open>TTKhac\<close> is optional; an entry of the side list is the pair of the
  texts of its \<^verbatim>\<open>TTruong\<close> and \<^verbatim>\<open>DLieu\<close> children, both of which must exist.
  \<open>row_spec\<close> is the mapping from the record to the columns of section 3.
\<close>

record invoice_src =
  inv_type :: "string option"
  series :: "string option"
  seq_no :: "string option"
  issue_date :: "string option"
  summary_tax :: "string option"
  side_list :: "(string option \<times> string option) list option"
  beneficiary :: "string option"
  seller_tax :: "string option"
  settlement :: "string option"

definition ttin_ok :: "element \<Rightarrow> bool" where
  "ttin_ok ttin \<longleftrightarrow> elem_find ttin ''TTruong'' \<noteq> None \<and> elem_find ttin ''DLieu'' \<noteq> None"

definition ttin_entry :: "element \<Rightarrow> string option \<times> string option" where
  "ttin_entry ttin = (leaf_value ttin ''TTruong'', leaf_value ttin ''DLieu'')"

definition read_side :: "element \<Rightarrow> (string option \<times> string option) list option option" where
  "read_side t =
     (case elem_find t ''TTKhac'' of
        None \<Rightarrow> Some None
      | Some k \<Rightarrow>
          (if list_all ttin_ok (elem_findall k ''TTin'')
           then Some (Some (map ttin_entry (elem_findall k ''TTin''))) else None))"

definition read_src :: "element \<Rightarrow> invoice_src option" where
  "read_src hdon =
     (case (elem_find hdon ''TTChung'', elem_find hdon ''NDHDon'') of
        (Some t, Some d) \<Rightarrow>
          (case (elem_find d ''NBan'', elem_find d ''TToan'', read_side t) of
             (Some nb, Some tt, Some side) \<Rightarrow>
               Some \<lparr>inv_type = leaf_value t ''THDon'', series = leaf_value t ''KHHDon'',
                     seq_no = leaf_value t ''SHDon'', issue_date = leaf_value t ''NLap'',
                     summary_tax = leaf_value t ''MSTTCGP'', side_list = side,
                     beneficiary = leaf_value nb ''Ten'', seller_tax = leaf_value nb ''MST'',
                     settlement = leaf_value tt ''TgTTTBSo''\<rparr>
           | _ \<Rightarrow> None)
      | _ \<Rightarrow> None)"

text \<open>The bank columns: the value of the last side-list entry with the recognised
  name, no column when there is none.\<close>

definition bank_map :: "(string option \<times> string option) list \<Rightarrow> field \<rightharpoonup> string option" where
  "bank_map es f =
     (case f of
        So_Tai_Khoan \<Rightarrow> map_of (rev es) (Some ''BankAccount'')
      | Tai_Ngan_Hang \<Rightarrow> map_of (rev es) (Some ''BankName'')
      | _ \<Rightarrow> None)"

definition row_spec :: "invoice_src \<Rightarrow> field \<rightharpoonup> string option" where
  "row_spec v =
     [Loai_Hoa_Don \<mapsto> inv_type v,
      So_Hoa_Don \<mapsto> (case (series v, seq_no v) of (Some a, Some b) \<Rightarrow> Some (a @ b) | _ \<Rightarrow> None),
      Ngay_Hoa_Don \<mapsto> issue_date v,
      Ma_So_Thue \<mapsto> seller_tax v,
      Nguoi_Thu_Huong \<mapsto> beneficiary v,
      Gia_Tri_Hoa_Don \<mapsto> settlement v,
      So_Tien_Giai_Ngan \<mapsto> settlement v]
     ++ bank_map (case side_list v of None \<Rightarrow> [] | Some es \<Rightarrow> es)"

text \<open>The encoder of the specification's record: the invoice element that section 4.1
  reads back into it. An absent value is a leaf element without text, which
  \<^verbatim>\<open>ElementTree\<close> reads as \<open>None\<close> like an absent leaf.\<close>

definition render_leaf :: "string \<Rightarrow> string option \<Rightarrow> element" where
  "render_leaf t x = Element t x []"

definition render_ttin :: "string option \<times> string option \<Rightarrow> element" where
  "render_ttin e = Element ''TTin'' None [render_leaf ''TTruong'' (fst e), render_leaf ''DLieu'' (snd e)]"

definition render_src :: "invoice_src \<Rightarrow> element" where
  "render_src v = Element ''DLHDon'' None
     [Element ''TTChung'' None
        ([render_leaf ''THDon'' (inv_type v), render_leaf ''KHHDon'' (series v),
          render_leaf ''SHDon'' (seq_no v), render_leaf ''NLap'' (issue_date v),
          render_leaf ''MSTTCGP'' (summary_tax v)] @
         (case side_list v of None \<Rightarrow> [] | Some es \<Rightarrow> [Element ''TTKhac'' None (map render_ttin es)])),
      Element ''NDHDon'' None
        [Element ''NBan'' None [render_leaf ''Ten'' (beneficiary v), render_leaf ''MST'' (seller_tax v)],
         Element ''TToan'' None [render_leaf ''TgTTTBSo'' (settlement v)]]]"

subsection \<open>Sample documents\<close>

text \<open>Concrete inputs at which the theorems below are evaluated: the invoice of the
  specification's examples (series \<^verbatim>\<open>AA/20E\<close>, number \<^verbatim>\<open>00000123\<close>, bank
  entries and one unrecognised entry), and variants of it.\<close>

definition ex_leaf :: "string \<Rightarrow> string \<Rightarrow> element" where
  "ex_leaf t v = Element t (Some v) []"

definition ex_ttin :: "string \<Rightarrow> string \<Rightarrow> element" where
  "ex_ttin n v = Element ''TTin'' None [ex_leaf ''TTruong'' n, ex_leaf ''DLieu'' v]"

definition ex_ttchung :: "element list \<Rightarrow> element" where
  "ex_ttchung side =
     Element ''TTChung'' None
       ([ex_leaf ''THDon'' ''01GTKT'', ex_leaf ''KHHDon'' ''AA/20E'', ex_leaf ''SHDon'' ''00000123'',
         ex_leaf ''NLap'' ''2024-01-02'', ex_leaf ''MSTTCGP'' ''9999999999''] @ side)"

definition ex_ndhdon :: "element list \<Rightarrow> element" where
  "ex_ndhdon seller =
     Element ''NDHDon'' None
       [Element ''NBan'' None (ex_leaf ''Ten'' ''ACME'' # seller),
        Element ''TToan'' None [ex_leaf ''TgTTTBSo'' ''1000'']]"

definition ex_side :: element where
  "ex_side = Element ''TTKhac'' None
     [ex_ttin ''BankAccount'' ''0123456789'', ex_ttin ''BankName'' ''Example Bank'', ex_ttin ''Other'' ''x'']"

definition ex_invoice :: element where
  "ex_invoice = Element ''DLHDon'' None
     [ex_ttchung [ex_side], ex_ndhdon [ex_leaf ''MST'' ''0101234567'']]"

definition ex_plain_invoice :: element where
  "ex_plain_invoice = Element ''DLHDon'' None [ex_ttchung [], ex_ndhdon [ex_leaf ''MST'' ''0101234567'']]"

definition ex_no_detail :: element where
  "ex_no_detail = Element ''DLHDon'' None [ex_ttchung []]"

definition ex_no_series :: element where
  "ex_no_series = Element ''DLHDon'' None
     [Element ''TTChung'' None [ex_leaf ''SHDon'' ''00000123''], ex_ndhdon []]"

definition ex_bad_entry :: element where
  "ex_bad_entry = Element ''DLHDon'' None
     [ex_ttchung [Element ''TTKhac'' None [Element ''TTin'' None [ex_leaf ''TTruong'' ''Other'']]],
      ex_ndhdon []]"

text \<open>A document with two invoices under the root and one nested one level deeper,
  which the flat search does not find.\<close>

definition ex_document :: element where
  "ex_document = Element ''HDon'' None
     [ex_invoice, Element ''DSHDon'' None [ex_no_detail], ex_plain_invoice]"

text \<open>A specification record with a one-entry side list.\<close>

definition ex_src :: invoice_src where
  "ex_src = \<lparr>inv_type = Some ''01GTKT'', series = Some ''AA/20E'', seq_no = Some ''00000123'',
     issue_date = None, summary_tax = Some ''9999999999'',
     side_list = Some [(Some ''BankName'', Some ''Example Bank'')],
     beneficiary = Some ''ACME'', seller_tax = None, settlement = Some ''1000''\<rparr>"

lemmas ex_defs = ex_leaf_def ex_ttin_def ex_ttchung_def ex_ndhdon_def ex_side_def ex_invoice_def
  ex_plain_invoice_def ex_no_detail_def ex_no_series_def ex_bad_entry_def
  ex_document_def

lemmas extract_defs = extract_hdon_def read_ttchung_def read_ttkhac_def read_ndhdon_def
  elem_find_def elem_findall_def py_add_def leaf_value_def

subsection \<open>The stages of one row\<close>

lemma read_ttchung_Some:
  "read_ttchung (Some t) =
     (case (leaf_value t ''KHHDon'', leaf_value t ''SHDon'') of
        (Some a, Some b) \<Rightarrow>
          Inr [(Loai_Hoa_Don, leaf_value t ''THDon''), (So_Hoa_Don, Some (a @ b)),
               (Ngay_Hoa_Don, leaf_value t ''NLap''), (Ma_So_Thue, leaf_value t ''MSTTCGP'')]
      | _ \<Rightarrow> Inl TypeError)"
  by (simp add: read_ttchung_def py_add_def split: option.split)

lemma read_ndhdon_Some:
  "read_ndhdon (Some d) r =
     (case (elem_find d ''NBan'', elem_find d ''TToan'') of
        (None, _) \<Rightarrow> Inl (AttributeError ''NBan'' ''find'')
      | (Some nb, None) \<Rightarrow> Inl (AttributeError ''TToan'' ''find'')
      | (Some nb, Some tt) \<Rightarrow>
          Inr (AList.update So_Tien_Giai_Ngan (leaf_value tt ''TgTTTBSo'')
                (AList.update Gia_Tri_Hoa_Don (leaf_value tt ''TgTTTBSo'')
                  (AList.update Ma_So_Thue (leaf_value nb ''MST'')
                    (AList.update Nguoi_Thu_Huong (leaf_value nb ''Ten'') r)))))"
  by (simp add: read_ndhdon_def split: option.split)

lemma scan_ttin_ok: "(\<exists>r'. scan_ttin ts r = Inr r') \<longleftrightarrow> list_all ttin_ok ts"
proof (induction ts arbitrary: r)
  case Nil
  then show ?case by simp
next
  case (Cons ttin ts)
  then show ?case
    by (cases "elem_find ttin ''TTruong''"; cases "elem_find ttin ''DLieu''")
       (simp_all add: ttin_ok_def Let_def)
qed

lemma bank_map_Cons: "bank_map (e # es) = bank_map [e] ++ bank_map es"
  by (auto simp: bank_map_def map_add_def fun_eq_iff split: field.split option.split)

lemma scan_ttin_map_of:
  "scan_ttin ts r = Inr r' \<Longrightarrow> map_of r' = map_of r ++ bank_map (map ttin_entry ts)"
proof (induction ts arbitrary: r)
  case Nil
  then show ?case by (simp add: bank_map_def map_add_def fun_eq_iff split: field.split)
next
  case (Cons ttin ts)
  obtain n v where n: "elem_find ttin ''TTruong'' = Some n" and v: "elem_find ttin ''DLieu'' = Some v"
    using Cons.prems by (auto simp: bind_res_eq_Inr attr_text_def split: option.splits)
  let ?r = "(let record = (if el_text n = Some ''BankAccount'' then AList.update So_Tai_Khoan (el_text v) r else r)
             in if el_text n = Some ''BankName'' then AList.update Tai_Ngan_Hang (el_text v) record else record)"
  have "scan_ttin ts ?r = Inr r'"
    using Cons.prems n v by (simp add: Let_def)
  then have "map_of r' = map_of ?r ++ bank_map (map ttin_entry ts)"
    by (rule Cons.IH)
  moreover have "map_of ?r = map_of r ++ bank_map [ttin_entry ttin]"
  proof
    fix f
    have e: "ttin_entry ttin = (el_text n, el_text v)"
      using n v by (simp add: ttin_entry_def leaf_value_def)
    show "map_of ?r f = (map_of r ++ bank_map [ttin_entry ttin]) f"
      unfolding e by (cases f) (simp_all add: Let_def bank_map_def map_add_def)
  qed
  moreover have "bank_map (map ttin_entry (ttin # ts)) =
      bank_map [ttin_entry ttin] ++ bank_map (map ttin_entry ts)"
    by (simp only: list.map bank_map_Cons [of _ "map ttin_entry ts"])
  ultimately show ?case
    by (simp add: map_add_assoc)
qed

lemma read_ttkhac_Some:
  "read_ttkhac (Some t) r =
     (case elem_find t ''TTKhac'' of None \<Rightarrow> Inr r | Some k \<Rightarrow> scan_ttin (elem_findall k ''TTin'') r)"
  by (simp add: read_ttkhac_def)

lemma read_ttkhac_spec:
  assumes "read_ttkhac (Some t) r = Inr r'"
  shows "\<exists>side. read_side t = Some side \<and>
           map_of r' = map_of r ++ bank_map (case side of None \<Rightarrow> [] | Some es \<Rightarrow> es)"
proof (cases "elem_find t ''TTKhac''")
  case None
  with assms show ?thesis by (simp add: read_ttkhac_Some read_side_def bank_map_def map_add_def fun_eq_iff split: field.split)
next
  case (Some k)
  with assms have scan: "scan_ttin (elem_findall k ''TTin'') r = Inr r'"
    by (simp add: read_ttkhac_Some)
  then have "list_all ttin_ok (elem_findall k ''TTin'')"
    using scan_ttin_ok by blast
  with Some scan show ?thesis
    by (simp add: read_side_def scan_ttin_map_of)
qed

lemma read_ttkhac_total:
  "read_side t = Some side \<Longrightarrow> \<exists>r'. read_ttkhac (Some t) r = Inr r'"
  using scan_ttin_ok [of _ r]
  by (auto simp: read_ttkhac_Some read_side_def split: option.splits if_splits)

lemma scan_ttin_keys:
  "scan_ttin ts r = Inr r' \<Longrightarrow>
     \<exists>ks. dict_keys r' = dict_keys r @ ks \<and> set ks \<subseteq> {So_Tai_Khoan, Tai_Ngan_Hang}"
proof (induction ts arbitrary: r)
  case Nil
  then show ?case by simp
next
  case (Cons ttin ts)
  obtain n v where n: "elem_find ttin ''TTruong'' = Some n" and v: "elem_find ttin ''DLieu'' = Some v"
    using Cons.prems by (auto simp: bind_res_eq_Inr attr_text_def split: option.splits)
  let ?r1 = "if el_text n = Some ''BankAccount'' then AList.update So_Tai_Khoan (el_text v) r else r"
  let ?r2 = "if el_text n = Some ''BankName'' then AList.update Tai_Ngan_Hang (el_text v) ?r1 else ?r1"
  have "scan_ttin ts ?r2 = Inr r'"
    using Cons.prems n v by (simp add: Let_def)
  then obtain ks where ks: "dict_keys r' = dict_keys ?r2 @ ks" "set ks \<subseteq> {So_Tai_Khoan, Tai_Ngan_Hang}"
    using Cons.IH by blast
  obtain ks1 where "dict_keys ?r1 = dict_keys r @ ks1" "set ks1 \<subseteq> {So_Tai_Khoan}"
    using dict_keys_update_ex [of So_Tai_Khoan "el_text v" r] by (cases "el_text n = Some ''BankAccount''") auto
  moreover obtain ks2 where "dict_keys ?r2 = dict_keys ?r1 @ ks2" "set ks2 \<subseteq> {Tai_Ngan_Hang}"
    using dict_keys_update_ex [of Tai_Ngan_Hang "el_text v" ?r1] by (cases "el_text n = Some ''BankName''") auto
  ultimately show ?case using ks
    by (intro exI [of _ "ks1 @ ks2 @ ks"]) auto
qed

lemma scan_ttin_dict_ok: "scan_ttin ts r = Inr r' \<Longrightarrow> dict_ok r \<Longrightarrow> dict_ok r'"
proof (induction ts arbitrary: r)
  case Nil
  then show ?case by simp
next
  case (Cons ttin ts)
  then show ?case
    by (auto simp: bind_res_eq_Inr attr_text_def Let_def split: option.splits if_splits)
qed

lemma read_ttkhac_keys:
  assumes "read_ttkhac (Some t) r = Inr r'"
  shows "\<exists>ks. dict_keys r' = dict_keys r @ ks \<and> set ks \<subseteq> {So_Tai_Khoan, Tai_Ngan_Hang} \<and>
           (elem_find t ''TTKhac'' = None \<longrightarrow> ks = [])"
  using assms scan_ttin_keys
  by (cases "elem_find t ''TTKhac''") (auto simp: read_ttkhac_Some)

lemma read_ttkhac_dict_ok: "read_ttkhac (Some t) r = Inr r' \<Longrightarrow> dict_ok r \<Longrightarrow> dict_ok r'"
  using scan_ttin_dict_ok by (cases "elem_find t ''TTKhac''") (auto simp: read_ttkhac_Some)

text \<open>A successful run of the loop body, taken apart at its three stages.\<close>

lemma extract_hdon_InrE:
  assumes "extract_hdon h = Inr r"
  obtains t a b r1 d nb tt where
    "elem_find h ''TTChung'' = Some t"
    "leaf_value t ''KHHDon'' = Some a" "leaf_value t ''SHDon'' = Some b"
    "read_ttkhac (Some t)
       [(Loai_Hoa_Don, leaf_value t ''THDon''), (So_Hoa_Don, Some (a @ b)),
        (Ngay_Hoa_Don, leaf_value t ''NLap''), (Ma_So_Thue, leaf_value t ''MSTTCGP'')] = Inr r1"
    "elem_find h ''NDHDon'' = Some d" "elem_find d ''NBan'' = Some nb" "elem_find d ''TToan'' = Some tt"
    "r = AList.update So_Tien_Giai_Ngan (leaf_value tt ''TgTTTBSo'')
           (AList.update Gia_Tri_Hoa_Don (leaf_value tt ''TgTTTBSo'')
             (AList.update Ma_So_Thue (leaf_value nb ''MST'')
               (AList.update Nguoi_Thu_Huong (leaf_value nb ''Ten'') r1)))"
proof -
  obtain t where t: "elem_find h ''TTChung'' = Some t"
    using assms by (cases "elem_find h ''TTChung''") (auto simp: extract_hdon_def read_ttchung_def)
  obtain a b where a: "leaf_value t ''KHHDon'' = Some a" and b: "leaf_value t ''SHDon'' = Some b"
    using assms t by (auto simp: extract_hdon_def read_ttchung_Some split: option.splits)
  obtain r1 where r1: "read_ttkhac (Some t)
       [(Loai_Hoa_Don, leaf_value t ''THDon''), (So_Hoa_Don, Some (a @ b)),
        (Ngay_Hoa_Don, leaf_value t ''NLap''), (Ma_So_Thue, leaf_value t ''MSTTCGP'')] = Inr r1"
    and r2: "read_ndhdon (elem_find h ''NDHDon'') r1 = Inr r"
    using assms t a b by (auto simp: extract_hdon_def read_ttchung_Some bind_res_eq_Inr)
  obtain d where d: "elem_find h ''NDHDon'' = Some d"
    using r2 by (cases "elem_find h ''NDHDon''") (auto simp: read_ndhdon_def)
  with r2 show ?thesis
    using that [OF t a b r1 d] by (auto simp: read_ndhdon_Some split: option.splits)
qed

lemma extract_hdon_refines:
  assumes "extract_hdon h = Inr r"
  shows "\<exists>v. read_src h = Some v \<and> series v \<noteq> None \<and> seq_no v \<noteq> None \<and> map_of r = row_spec v"
proof -
  from assms obtain t a b r1 d nb tt where t: "elem_find h ''TTChung'' = Some t"
    and a: "leaf_value t ''KHHDon'' = Some a" and b: "leaf_value t ''SHDon'' = Some b"
    and r1: "read_ttkhac (Some t)
       [(Loai_Hoa_Don, leaf_value t ''THDon''), (So_Hoa_Don, Some (a @ b)),
        (Ngay_Hoa_Don, leaf_value t ''NLap''), (Ma_So_Thue, leaf_value t ''MSTTCGP'')] = Inr r1"
    and d: "elem_find h ''NDHDon'' = Some d" and nb: "elem_find d ''NBan'' = Some nb"
    and tt: "elem_find d ''TToan'' = Some tt"
    and r: "r = AList.update So_Tien_Giai_Ngan (leaf_value tt ''TgTTTBSo'')
           (AList.update Gia_Tri_Hoa_Don (leaf_value tt ''TgTTTBSo'')
             (AList.update Ma_So_Thue (leaf_value nb ''MST'')
               (AList.update Nguoi_Thu_Huong (leaf_value nb ''Ten'') r1)))"
    by (rule extract_hdon_InrE)
  obtain side where side: "read_side t = Some side"
    and m1: "map_of r1 = map_of [(Loai_Hoa_Don, leaf_value t ''THDon''), (So_Hoa_Don, Some (a @ b)),
        (Ngay_Hoa_Don, leaf_value t ''NLap''), (Ma_So_Thue, leaf_value t ''MSTTCGP'')]
        ++ bank_map (case side of None \<Rightarrow> [] | Some es \<Rightarrow> es)"
    using read_ttkhac_spec [OF r1] by blast
  let ?v = "\<lparr>inv_type = leaf_value t ''THDon'', series = leaf_value t ''KHHDon'',
            seq_no = leaf_value t ''SHDon'', issue_date = leaf_value t ''NLap'',
            summary_tax = leaf_value t ''MSTTCGP'', side_list = side,
            beneficiary = leaf_value nb ''Ten'', seller_tax = leaf_value nb ''MST'',
            settlement = leaf_value tt ''TgTTTBSo''\<rparr>"
  have "read_src h = Some ?v"
    using t d nb tt side by (simp add: read_src_def)
  moreover have "map_of r = row_spec ?v"
  proof
    fix f
    show "map_of r f = row_spec ?v f"
      using r m1 a b
      by (cases f) (simp_all add: row_spec_def bank_map_def map_add_def split: option.split)
  qed
  ultimately show ?thesis using a b by auto
qed

lemma extract_hdon_keys:
  assumes "extract_hdon h = Inr r"
  shows "dict_ok r \<and>
    (\<exists>bks. dict_keys r = [Loai_Hoa_Don, So_Hoa_Don, Ngay_Hoa_Don, Ma_So_Thue] @ bks @
                         [Nguoi_Thu_Huong, Gia_Tri_Hoa_Don, So_Tien_Giai_Ngan] \<and>
           set bks \<subseteq> {So_Tai_Khoan, Tai_Ngan_Hang} \<and>
           (\<forall>t. elem_find h ''TTChung'' = Some t \<and> elem_find t ''TTKhac'' = None \<longrightarrow> bks = []))"
proof -
  from assms obtain t a b r1 d nb tt where t: "elem_find h ''TTChung'' = Some t"
    and r1: "read_ttkhac (Some t)
       [(Loai_Hoa_Don, leaf_value t ''THDon''), (So_Hoa_Don, Some (a @ b)),
        (Ngay_Hoa_Don, leaf_value t ''NLap''), (Ma_So_Thue, leaf_value t ''MSTTCGP'')] = Inr r1"
    and r: "r = AList.update So_Tien_Giai_Ngan (leaf_value tt ''TgTTTBSo'')
           (AList.update Gia_Tri_Hoa_Don (leaf_value tt ''TgTTTBSo'')
             (AList.update Ma_So_Thue (leaf_value nb ''MST'')
               (AList.update Nguoi_Thu_Huong (leaf_value nb ''Ten'') r1)))"
    by (rule extract_hdon_InrE)
  obtain ks where ks: "dict_keys r1 = [Loai_Hoa_Don, So_Hoa_Don, Ngay_Hoa_Don, Ma_So_Thue] @ ks"
    and ks_bank: "set ks \<subseteq> {So_Tai_Khoan, Tai_Ngan_Hang}"
    and ks_nil: "elem_find t ''TTKhac'' = None \<longrightarrow> ks = []"
    using read_ttkhac_keys [OF r1] by (auto simp: dict_keys_def)
  have "dict_ok r1"
    using read_ttkhac_dict_ok [OF r1] by (simp add: dict_ok_def dict_keys_def)
  then have "dict_ok r" by (simp add: r)
  moreover have "Nguoi_Thu_Huong \<notin> set ks" "Gia_Tri_Hoa_Don \<notin> set ks" "So_Tien_Giai_Ngan \<notin> set ks"
    using ks_bank by auto
  then have "dict_keys r = [Loai_Hoa_Don, So_Hoa_Don, Ngay_Hoa_Don, Ma_So_Thue] @ ks @
                         [Nguoi_Thu_Huong, Gia_Tri_Hoa_Don, So_Tien_Giai_Ngan]"
    by (simp add: r ks dict_keys_update)
  ultimately show ?thesis using ks_bank ks_nil t by auto
qed

lemma extract_loop_map_res:
  "extract_loop hs data = bind_res (map_res extract_hdon hs) (\<lambda>rs. Inr (data @ rs))"
  by (induction hs arbitrary: data) (simp_all add: bind_res_assoc)

lemma extract_all_row_origin:
  assumes "extract_all_info_from_xml parse c = Inr rs" and "r \<in> set rs"
  shows "\<exists>root h. parse c = Some root \<and> h \<in> set (elem_findall root ''DLHDon'') \<and> extract_hdon h = Inr r"
proof -
  obtain root where root: "parse c = Some root"
    using assms(1) by (cases "parse c") (simp_all add: extract_all_info_from_xml_def)
  then have "list_all2 (\<lambda>h r. extract_hdon h = Inr r) (elem_findall root ''DLHDon'') rs"
    using assms(1) by (simp add: extract_all_info_from_xml_def extract_loop_map_res bind_res_eq_Inr
        map_res_Inr_iff)
  from list_all2_in_set2 [OF this assms(2)]
  obtain h where "h \<in> set (elem_findall root ''DLHDon'')" and "extract_hdon h = Inr r"
    by blast
  with root show ?thesis by blast
qed

lemma extract_hdon_total:
  assumes "read_src h = Some v" and "series v \<noteq> None" and "seq_no v \<noteq> None"
  shows "\<exists>r. extract_hdon h = Inr r"
proof -
  obtain t d nb tt side where t: "elem_find h ''TTChung'' = Some t" and d: "elem_find h ''NDHDon'' = Some d"
    and nb: "elem_find d ''NBan'' = Some nb" and tt: "elem_find d ''TToan'' = Some tt"
    and side: "read_side t = Some side" and v: "series v = leaf_value t ''KHHDon''" "seq_no v = leaf_value t ''SHDon''"
    using assms(1) by (auto simp: read_src_def split: option.splits)
  obtain a b where "leaf_value t ''KHHDon'' = Some a" and "leaf_value t ''SHDon'' = Some b"
    using assms(2,3) v by auto
  then obtain r0 where r0: "read_ttchung (Some t) = Inr r0"
    by (simp add: read_ttchung_Some)
  obtain r1 where "read_ttkhac (Some t) r0 = Inr r1"
    using read_ttkhac_total [OF side] by blast
  with t d nb tt r0 show ?thesis
    by (simp add: extract_hdon_def read_ndhdon_Some)
qed

lemma card_UNIV_field: "card (UNIV :: field set) = 9"
  by (simp add: card_UNIV_length_enum enum_field_def)

lemma distinct_fields_length: "distinct (xs :: field list) \<Longrightarrow> length xs \<le> 9"
  using card_mono [of "UNIV :: field set" "set xs"] distinct_card [of xs] by (simp add: card_UNIV_field)

lemma read_side_render:
  "read_side (Element ''TTChung'' None
        ([render_leaf ''THDon'' a, render_leaf ''KHHDon'' b, render_leaf ''SHDon'' c,
          render_leaf ''NLap'' d, render_leaf ''MSTTCGP'' e] @
         (case side of None \<Rightarrow> [] | Some es \<Rightarrow> [Element ''TTKhac'' None (map render_ttin es)]))) = Some side"
proof (cases side)
  case None
  then show ?thesis by (simp add: read_side_def elem_find_def render_leaf_def)
next
  case (Some es)
  have "filter (\<lambda>c. el_tag c = ''TTin'') (map render_ttin es) = map render_ttin es"
    by (simp add: render_ttin_def)
  moreover have "list_all ttin_ok (map render_ttin es)"
    by (simp add: list_all_iff ttin_ok_def render_ttin_def render_leaf_def elem_find_def)
  moreover have "map ttin_entry (map render_ttin es) = es"
    by (induction es) (auto simp: ttin_entry_def render_ttin_def render_leaf_def leaf_value_def elem_find_def)
  ultimately show ?thesis using Some
    by (simp add: read_side_def elem_find_def elem_findall_def render_leaf_def)
qed

lemma read_src_render: "read_src (render_src v) = Some v"
  using read_side_render [of "inv_type v" "series v" "seq_no v" "issue_date v" "summary_tax v" "side_list v"]
  by (simp add: read_src_def render_src_def elem_find_def leaf_value_def render_leaf_def)


subsection \<open>Properties of the extractor\<close>

lemma ex_invoice_row:
  "extract_hdon ex_invoice = Inr
     [(Loai_Hoa_Don, Some ''01GTKT''), (So_Hoa_Don, Some ''AA/20E00000123''),
      (Ngay_Hoa_Don, Some ''2024-01-02''), (Ma_So_Thue, Some ''0101234567''),
      (So_Tai_Khoan, Some ''0123456789''), (Tai_Ngan_Hang, Some ''Example Bank''),
      (Nguoi_Thu_Huong, Some ''ACME''), (Gia_Tri_Hoa_Don, Some ''1000''),
      (So_Tien_Giai_Ngan, Some ''1000'')]"
  by (simp add: extract_defs ex_defs)

lemma ex_invoice_src:
  "read_src ex_invoice = Some
     \<lparr>inv_type = Some ''01GTKT'', series = Some ''AA/20E'', seq_no = Some ''00000123'',
      issue_date = Some ''2024-01-02'', summary_tax = Some ''9999999999'',
      side_list = Some [(Some ''BankAccount'', Some ''0123456789''),
                        (Some ''BankName'', Some ''Example Bank''), (Some ''Other'', Some ''x'')],
      beneficiary = Some ''ACME'', seller_tax = Some ''0101234567'', settlement = Some ''1000''\<rparr>"
  by (simp add: read_src_def read_side_def ttin_ok_def ttin_entry_def leaf_value_def
      elem_find_def elem_findall_def ex_defs)

lemma ex_plain_invoice_row:
  "extract_hdon ex_plain_invoice = Inr
     [(Loai_Hoa_Don, Some ''01GTKT''), (So_Hoa_Don, Some ''AA/20E00000123''),
      (Ngay_Hoa_Don, Some ''2024-01-02''), (Ma_So_Thue, Some ''0101234567''),
      (Nguoi_Thu_Huong, Some ''ACME''), (Gia_Tri_Hoa_Don, Some ''1000''),
      (So_Tien_Giai_Ngan, Some ''1000'')]"
  by (simp add: extract_defs ex_defs)

text \<open>C1 (refinement): whenever the loop body succeeds on an invoice element, the dictionary it builds maps every column to exactly the value the specification's field mapping row_spec assigns to the record read from the tree (read_src): the code refines the abstract row.\<close>

theorem extract_hdon_refines_spec:
  assumes "extract_hdon h = Inr r" and "read_src h = Some v"
  shows "map_of r = row_spec v"
  using extract_hdon_refines [OF assms(1)] assms(2) by auto

theorem extract_hdon_refines_spec_witness:
  "\<exists>r v. extract_hdon ex_invoice = Inr r \<and> read_src ex_invoice = Some v \<and> map_of r = row_spec v"
  using extract_hdon_refines_spec [OF ex_invoice_row ex_invoice_src] ex_invoice_row ex_invoice_src
  by blast

text \<open>C2 (errors): the loop body succeeds on an invoice element exactly when the structural subtrees TTChung, NDHDon, NBan, TToan are present, every side-list entry has TTruong and DLieu children, and both parts of the invoice number have text; every other input raises.\<close>

theorem extract_hdon_succeeds_iff:
  "(\<exists>r. extract_hdon h = Inr r) \<longleftrightarrow>
     (\<exists>v. read_src h = Some v \<and> series v \<noteq> None \<and> seq_no v \<noteq> None)"
  using extract_hdon_refines extract_hdon_total by blast

text \<open>C4 (invariant): in every row produced, the settlement value and the disbursed amount columns are present and equal.\<close>

theorem settlement_equals_disbursed:
  assumes "extract_hdon h = Inr r"
  shows "map_of r Gia_Tri_Hoa_Don = map_of r So_Tien_Giai_Ngan \<and> map_of r So_Tien_Giai_Ngan \<noteq> None"
  using extract_hdon_refines [OF assms] by (auto simp: row_spec_def bank_map_def map_add_def)

theorem settlement_equals_disbursed_witness:
  "map_of (projr (extract_hdon ex_invoice)) Gia_Tri_Hoa_Don = Some (Some ''1000'') \<and>
   map_of (projr (extract_hdon ex_invoice)) Gia_Tri_Hoa_Don =
   map_of (projr (extract_hdon ex_invoice)) So_Tien_Giai_Ngan"
  using settlement_equals_disbursed [OF ex_invoice_row] ex_invoice_row by simp

text \<open>C5 (functional): the invoice number column is the plain concatenation of the KHHDon text and the SHDon text, in this order and without separator.\<close>

theorem invoice_number_concat:
  assumes "extract_hdon h = Inr r" and "elem_find h ''TTChung'' = Some t"
    and "leaf_value t ''KHHDon'' = Some a" and "leaf_value t ''SHDon'' = Some b"
  shows "map_of r So_Hoa_Don = Some (Some (a @ b))"
  using extract_hdon_refines [OF assms(1)] assms(2-4)
  by (auto simp: read_src_def row_spec_def bank_map_def map_add_def split: option.splits)

theorem invoice_number_concat_witness:
  "map_of (projr (extract_hdon ex_invoice)) So_Hoa_Don = Some (Some ''AA/20E00000123'')"
proof -
  have "elem_find ex_invoice ''TTChung'' = Some (ex_ttchung [ex_side])"
    and "leaf_value (ex_ttchung [ex_side]) ''KHHDon'' = Some ''AA/20E''"
    and "leaf_value (ex_ttchung [ex_side]) ''SHDon'' = Some ''00000123''"
    by (simp_all add: ex_invoice_def ex_ttchung_def ex_leaf_def ex_ndhdon_def elem_find_def leaf_value_def)
  from invoice_number_concat [OF ex_invoice_row this] ex_invoice_row show ?thesis by simp
qed

text \<open>C6 (functional): the tax code column is the text of the seller party's MST leaf, overwriting the summary tax code (MSTTCGP) whatever that is.\<close>

theorem seller_tax_code_overwrites:
  assumes "extract_hdon h = Inr r" and "elem_find h ''NDHDon'' = Some d"
    and "elem_find d ''NBan'' = Some nb"
  shows "map_of r Ma_So_Thue = Some (leaf_value nb ''MST'')"
  using extract_hdon_refines [OF assms(1)] assms(2,3)
  by (auto simp: read_src_def row_spec_def bank_map_def map_add_def split: option.splits)

theorem seller_tax_code_overwrites_witness:
  "map_of (projr (extract_hdon ex_invoice)) Ma_So_Thue = Some (Some ''0101234567'')"
proof -
  have "elem_find ex_invoice ''NDHDon'' = Some (ex_ndhdon [ex_leaf ''MST'' ''0101234567''])"
    and "elem_find (ex_ndhdon [ex_leaf ''MST'' ''0101234567'']) ''NBan'' =
           Some (Element ''NBan'' None [ex_leaf ''Ten'' ''ACME'', ex_leaf ''MST'' ''0101234567''])"
    by (simp_all add: ex_invoice_def ex_ttchung_def ex_leaf_def ex_ndhdon_def elem_find_def)
  from seller_tax_code_overwrites [OF ex_invoice_row this] ex_invoice_row show ?thesis
    by (simp add: leaf_value_def elem_find_def ex_leaf_def)
qed

text \<open>C7 (functional): the bank account and bank name columns hold the value of the last side-list entry named BankAccount, respectively BankName, and are absent when there is no such entry.\<close>

theorem bank_fields_last_entry:
  assumes "extract_hdon h = Inr r" and "read_src h = Some v" and "side_list v = Some es"
  shows "map_of r So_Tai_Khoan = map_of (rev es) (Some ''BankAccount'') \<and>
         map_of r Tai_Ngan_Hang = map_of (rev es) (Some ''BankName'')"
  using extract_hdon_refines [OF assms(1)] assms(2,3)
  by (auto simp: row_spec_def bank_map_def map_add_def split: option.splits)

theorem bank_fields_last_entry_witness:
  "map_of (projr (extract_hdon ex_invoice)) So_Tai_Khoan = Some (Some ''0123456789'') \<and>
   map_of (projr (extract_hdon ex_invoice)) Tai_Ngan_Hang = Some (Some ''Example Bank'')"
  using bank_fields_last_entry [OF ex_invoice_row ex_invoice_src] ex_invoice_row by simp

text \<open>C8 (invariant): every row is a dictionary with distinct keys whose column order is the four general-information columns, then the bank columns in the order first met, then beneficiary, settlement value and disbursed amount; without a side list there are no bank columns at all.\<close>

theorem row_key_order:
  assumes "extract_hdon h = Inr r"
  shows "dict_ok r \<and>
    (\<exists>bks. dict_keys r = [Loai_Hoa_Don, So_Hoa_Don, Ngay_Hoa_Don, Ma_So_Thue] @ bks @
                         [Nguoi_Thu_Huong, Gia_Tri_Hoa_Don, So_Tien_Giai_Ngan] \<and>
           set bks \<subseteq> {So_Tai_Khoan, Tai_Ngan_Hang} \<and>
           (\<forall>t. elem_find h ''TTChung'' = Some t \<and> elem_find t ''TTKhac'' = None \<longrightarrow> bks = []))"
  using assms by (rule extract_hdon_keys)

theorem row_key_order_witness:
  "dict_keys (projr (extract_hdon ex_plain_invoice)) =
     [Loai_Hoa_Don, So_Hoa_Don, Ngay_Hoa_Don, Ma_So_Thue,
      Nguoi_Thu_Huong, Gia_Tri_Hoa_Don, So_Tien_Giai_Ngan] \<and>
   dict_ok (projr (extract_hdon ex_plain_invoice))"
proof -
  have "elem_find ex_plain_invoice ''TTChung'' = Some (ex_ttchung [])"
    and "elem_find (ex_ttchung []) ''TTKhac'' = None"
    by (simp_all add: ex_plain_invoice_def ex_ttchung_def ex_leaf_def ex_ndhdon_def elem_find_def)
  with row_key_order [OF ex_plain_invoice_row] ex_plain_invoice_row show ?thesis
    by auto
qed

text \<open>C9 (errors): an invoice element without the detail subtree NDHDon is a structure error of the specification and makes the extractor raise, never a row of nulls.\<close>

theorem missing_detail_fails:
  assumes "elem_find h ''NDHDon'' = None"
  shows "read_src h = None \<and> (\<exists>e. extract_hdon h = Inl e)"
proof -
  have "read_src h = None" using assms by (simp add: read_src_def split: option.split)
  moreover have "\<not> (\<exists>r. extract_hdon h = Inr r)"
    using assms by (auto elim: extract_hdon_InrE)
  ultimately show ?thesis by (cases "extract_hdon h") auto
qed

theorem missing_detail_fails_witness:
  "read_src ex_no_detail = None \<and> extract_hdon ex_no_detail = Inl (AttributeError ''NDHDon'' ''find'')"
proof -
  have "elem_find ex_no_detail ''NDHDon'' = None"
    by (simp add: ex_no_detail_def ex_ttchung_def ex_leaf_def elem_find_def)
  from missing_detail_fails [OF this] show ?thesis
    by (simp add: extract_defs ex_defs)
qed

text \<open>C10 (errors): when the series KHHDon or the number SHDon has no text, the concatenation raises TypeError; the record is not produced with a degraded number.\<close>

theorem null_number_part_raises:
  assumes "elem_find h ''TTChung'' = Some t"
    and "leaf_value t ''KHHDon'' = None \<or> leaf_value t ''SHDon'' = None"
  shows "extract_hdon h = Inl TypeError"
  using assms by (auto simp: extract_hdon_def read_ttchung_Some split: option.split)

theorem null_number_part_raises_witness:
  "extract_hdon ex_no_series = Inl TypeError"
proof -
  have "elem_find ex_no_series ''TTChung'' = Some (Element ''TTChung'' None [ex_leaf ''SHDon'' ''00000123''])"
    and "leaf_value (Element ''TTChung'' None [ex_leaf ''SHDon'' ''00000123'']) ''KHHDon'' = None \<or>
         leaf_value (Element ''TTChung'' None [ex_leaf ''SHDon'' ''00000123'']) ''SHDon'' = None"
    by (simp_all add: ex_no_series_def ex_leaf_def elem_find_def leaf_value_def)
  then show ?thesis by (rule null_number_part_raises)
qed

text \<open>C11 (errors): a side-list entry lacking its TTruong or DLieu child makes the extractor raise, even when its name is not one of the recognised ones.\<close>

theorem malformed_side_entry_fails:
  assumes "elem_find h ''TTChung'' = Some t" and "elem_find t ''TTKhac'' = Some k"
    and "ttin \<in> set (elem_findall k ''TTin'')" and "\<not> ttin_ok ttin"
  shows "\<exists>e. extract_hdon h = Inl e"
proof (cases "extract_hdon h")
  case (Inr r)
  then obtain t' a b r1 where "elem_find h ''TTChung'' = Some t'"
    and r1: "read_ttkhac (Some t')
       [(Loai_Hoa_Don, leaf_value t' ''THDon''), (So_Hoa_Don, Some (a @ b)),
        (Ngay_Hoa_Don, leaf_value t' ''NLap''), (Ma_So_Thue, leaf_value t' ''MSTTCGP'')] = Inr r1"
    by (rule extract_hdon_InrE)
  with assms(1) have "read_ttkhac (Some t) [(Loai_Hoa_Don, leaf_value t ''THDon''), (So_Hoa_Don, Some (a @ b)),
        (Ngay_Hoa_Don, leaf_value t ''NLap''), (Ma_So_Thue, leaf_value t ''MSTTCGP'')] = Inr r1"
    by simp
  with assms(2) have "list_all ttin_ok (elem_findall k ''TTin'')"
    using scan_ttin_ok by (auto simp: read_ttkhac_Some)
  with assms(3,4) show ?thesis by (simp add: list_all_iff)
qed simp

theorem malformed_side_entry_fails_witness:
  "extract_hdon ex_bad_entry = Inl (AttributeError ''DLieu'' ''text'')"
proof -
  let ?k = "Element ''TTKhac'' None [Element ''TTin'' None [ex_leaf ''TTruong'' ''Other'']]"
  have "elem_find ex_bad_entry ''TTChung'' = Some (ex_ttchung [?k])"
    and "elem_find (ex_ttchung [?k]) ''TTKhac'' = Some ?k"
    and "Element ''TTin'' None [ex_leaf ''TTruong'' ''Other''] \<in> set (elem_findall ?k ''TTin'')"
    and "\<not> ttin_ok (Element ''TTin'' None [ex_leaf ''TTruong'' ''Other''])"
    by (simp_all add: ex_bad_entry_def ex_ttchung_def ex_leaf_def elem_find_def elem_findall_def ttin_ok_def)
  from malformed_side_entry_fails [OF this] show ?thesis
    by (simp add: extract_defs ex_defs)
qed

text \<open>C3 (functional): a document that parses and is extracted without error yields one row per DLHDon child of the root, in document order, each the row of that element.\<close>

theorem extract_all_rows:
  assumes "parse c = Some root" and "extract_all_info_from_xml parse c = Inr rows"
  shows "list_all2 (\<lambda>h r. extract_hdon h = Inr r) (elem_findall root ''DLHDon'') rows"
  using assms by (simp add: extract_all_info_from_xml_def extract_loop_map_res bind_res_eq_Inr
      map_res_Inr_iff)

text \<open>C12 (errors): an invoice element of a document that raises makes the extraction of the whole document raise; no partial list of rows is returned.\<close>

theorem extract_all_fail_fast:
  assumes "parse c = Some root" and "h \<in> set (elem_findall root ''DLHDon'')"
    and "extract_hdon h = Inl e"
  shows "\<exists>e'. extract_all_info_from_xml parse c = Inl e'"
proof -
  have "\<exists>e'. map_res extract_hdon (elem_findall root ''DLHDon'') = Inl e'"
    using assms(2,3) map_res_Inl_ex by blast
  then show ?thesis
    using assms(1) by (auto simp: extract_all_info_from_xml_def extract_loop_map_res)
qed

theorem extract_all_rows_witness:
  "length (projr (extract_all_info_from_xml Some ex_document)) = 2 \<and>
   extract_all_info_from_xml Some ex_document =
     Inr [projr (extract_hdon ex_invoice), projr (extract_hdon ex_plain_invoice)]"
proof -
  have "elem_findall ex_document ''DLHDon'' = [ex_invoice, ex_plain_invoice]"
    by (simp add: ex_document_def ex_invoice_def ex_plain_invoice_def elem_findall_def)
  moreover have "extract_all_info_from_xml Some ex_document =
     Inr [projr (extract_hdon ex_invoice), projr (extract_hdon ex_plain_invoice)]"
    using calculation ex_invoice_row ex_plain_invoice_row
    by (simp add: extract_all_info_from_xml_def)
  moreover note extract_all_rows [of Some ex_document ex_document, OF _ calculation(2)]
  ultimately show ?thesis by simp
qed

theorem extract_all_fail_fast_witness:
  "\<exists>e. extract_all_info_from_xml Some (Element ''HDon'' None [ex_invoice, ex_no_detail]) = Inl e"
proof -
  have "ex_no_detail \<in> set (elem_findall (Element ''HDon'' None [ex_invoice, ex_no_detail]) ''DLHDon'')"
    and "extract_hdon ex_no_detail = Inl (AttributeError ''NDHDon'' ''find'')"
    by (simp_all add: extract_defs ex_defs)
  then show ?thesis
    using extract_all_fail_fast [of Some "Element ''HDon'' None [ex_invoice, ex_no_detail]"] by blast
qed

text \<open>C28 (roundtrip): encoding any specification record as an invoice element and running the loop body on it gives back the specification's row of that record when both invoice-number parts are present, and raises TypeError when one is absent.\<close>

theorem render_src_roundtrip:
  "(series v \<noteq> None \<and> seq_no v \<noteq> None \<longrightarrow>
      (\<exists>r. extract_hdon (render_src v) = Inr r \<and> map_of r = row_spec v)) \<and>
   (series v = None \<or> seq_no v = None \<longrightarrow> extract_hdon (render_src v) = Inl TypeError)"
proof (intro conjI impI)
  assume "series v \<noteq> None \<and> seq_no v \<noteq> None"
  then obtain r where r: "extract_hdon (render_src v) = Inr r"
    using extract_hdon_total [OF read_src_render] by blast
  have "\<exists>v'. read_src (render_src v) = Some v' \<and> series v' \<noteq> None \<and> seq_no v' \<noteq> None \<and>
     map_of r = row_spec v'"
    by (rule extract_hdon_refines [OF r])
  with r show "\<exists>r. extract_hdon (render_src v) = Inr r \<and> map_of r = row_spec v"
    by (auto simp: read_src_render)
next
  assume "series v = None \<or> seq_no v = None"
  then show "extract_hdon (render_src v) = Inl TypeError"
    by (auto simp: extract_hdon_def read_ttchung_def render_src_def render_leaf_def elem_find_def
        leaf_value_def py_add_def split: option.split)
qed

theorem render_src_roundtrip_witness:
  "\<exists>r. extract_hdon (render_src ex_src) = Inr r \<and> map_of r = row_spec ex_src"
  using render_src_roundtrip [of ex_src] by (simp add: ex_src_def)

text \<open>C29 (bounds): every row the loop body produces has at least the seven columns every invoice gets and at most nine, the two bank columns included.\<close>

theorem extract_hdon_size:
  assumes "extract_hdon h = Inr r"
  shows "7 \<le> length r \<and> length r \<le> 9"
proof -
  obtain bks where ok: "dict_ok r" and k: "dict_keys r = [Loai_Hoa_Don, So_Hoa_Don, Ngay_Hoa_Don, Ma_So_Thue] @ bks @
                         [Nguoi_Thu_Huong, Gia_Tri_Hoa_Don, So_Tien_Giai_Ngan]"
    using extract_hdon_keys [OF assms] by blast
  have "length r = length (dict_keys r)" by (simp add: dict_keys_def)
  then show ?thesis using ok k distinct_fields_length [of "dict_keys r"] by (simp add: dict_ok_def)
qed

theorem extract_hdon_size_witness:
  "length (projr (extract_hdon ex_invoice)) = 9 \<and> length (projr (extract_hdon ex_plain_invoice)) = 7 \<and>
   7 \<le> length (projr (extract_hdon ex_invoice)) \<and> length (projr (extract_hdon ex_invoice)) \<le> 9"
  using extract_hdon_size [OF ex_invoice_row] ex_invoice_row ex_plain_invoice_row by simp

end
