(* ===== verification/Aggregate.thy ===== *)
theory Aggregate
  imports Invoice
begin

text \<open>
  The corpus aggregator: the loop of \<^verbatim>\<open>process_file\<close> in \<^verbatim>\<open>src/app.py\<close>
  (lines 49--55) that walks the extraction folder, keeps the files whose name ends in
  \<^verbatim>\<open>.xml\<close> and extends \<^verbatim>\<open>data\<close> with the rows of each, and the table
  \<^verbatim>\<open>pd.DataFrame(data)\<close> built from the rows (line 57). \<^verbatim>\<open>os.walk\<close> is given
  as the list of directories it yields, in its order, each with its files and their
  contents; the order itself is the file system's and is a parameter. The aggregator's
  contract in the specification (section 4.2) is \<open>aggregate\<close>: the extractor applied
  to each document in order, its rows concatenated, the first failure propagated. The
  table follows the pandas contract for a list of dictionaries: one column per key, in
  the order keys are first met, and an empty cell for a missing key or a \<open>None\<close>.
\<close>

type_synonym 'b walk_dir = "string \<times> (string \<times> 'b) list"

text \<open>Lines 51--55: the files of one directory.\<close>

fun collect_files ::
  "('b \<Rightarrow> element option) \<Rightarrow> (string \<times> 'b) list \<Rightarrow> invoice_row list \<Rightarrow> invoice_row list result"
where
  "collect_files parse [] data = Inr data"
| "collect_files parse ((file, content) # files) data =
     (if py_endswith file ''.xml''
      then bind_res (extract_all_info_from_xml parse content) (\<lambda>file_data.
             collect_files parse files (data @ file_data))
      else collect_files parse files data)"

text \<open>Lines 49--55: \<^verbatim>\<open>data = []\<close> and the walk over the directories.\<close>

fun collect_walk ::
  "('b \<Rightarrow> element option) \<Rightarrow> 'b walk_dir list \<Rightarrow> invoice_row list \<Rightarrow> invoice_row list result"
where
  "collect_walk parse [] data = Inr data"
| "collect_walk parse ((root, files) # dirs) data =
     bind_res (collect_files parse files data) (\<lambda>data. collect_walk parse dirs data)"

text \<open>Line 57, \<^verbatim>\<open>pd.DataFrame(data)\<close>: the columns and the cells, row by row.\<close>

definition df_columns :: "('k, 'v) pydict list \<Rightarrow> 'k list" where
  "df_columns rows = first_seen [] (concat (map dict_keys rows))"

definition df_cell :: "('k, 'v option) pydict \<Rightarrow> 'k \<Rightarrow> 'v option" where
  "df_cell r c = (case map_of r c of None \<Rightarrow> None | Some v \<Rightarrow> v)"

definition data_frame :: "('k, 'v option) pydict list \<Rightarrow> 'k list \<times> 'v option list list" where
  "data_frame rows = (let cols = df_columns rows in (cols, map (\<lambda>r. map (df_cell r) cols) rows))"

text \<open>Lines 49--57 together: the table that \<^verbatim>\<open>to_excel\<close> writes.\<close>

definition process_table ::
  "('b \<Rightarrow> element option) \<Rightarrow> 'b walk_dir list \<Rightarrow> (field list \<times> string option list list) result"
where
  "process_table parse walk = bind_res (collect_walk parse walk []) (\<lambda>data. Inr (data_frame data))"

subsection \<open>The aggregator's contract\<close>

definition aggregate :: "('b \<Rightarrow> element option) \<Rightarrow> 'b list \<Rightarrow> invoice_row list result" where
  "aggregate parse docs =
     bind_res (map_res (extract_all_info_from_xml parse) docs) (\<lambda>rss. Inr (concat rss))"

definition xml_documents :: "'b walk_dir list \<Rightarrow> 'b list" where
  "xml_documents walk = map snd (filter (\<lambda>f. py_endswith (fst f) ''.xml'') (concat (map snd walk)))"

subsection \<open>Loops against the contract\<close>

lemma aggregate_Nil [simp]: "aggregate parse [] = Inr []"
  by (simp add: aggregate_def)

lemma aggregate_Cons:
  "aggregate parse (d # ds) =
     bind_res (extract_all_info_from_xml parse d) (\<lambda>rs. bind_res (aggregate parse ds) (\<lambda>rss. Inr (rs @ rss)))"
  by (simp add: aggregate_def bind_res_assoc)

lemma aggregate_append:
  "aggregate parse (ds @ es) =
     bind_res (aggregate parse ds) (\<lambda>a. bind_res (aggregate parse es) (\<lambda>b. Inr (a @ b)))"
  by (induction ds) (simp_all add: aggregate_Cons bind_res_assoc)

lemma collect_files_aggregate:
  "collect_files parse files data =
     bind_res (aggregate parse (xml_documents [(root, files)])) (\<lambda>rs. Inr (data @ rs))"
proof (induction files arbitrary: data)
  case Nil
  then show ?case by (simp add: xml_documents_def)
next
  case (Cons f files)
  then show ?case
    by (cases f) (simp add: xml_documents_def aggregate_Cons bind_res_assoc)
qed

lemma collect_walk_aggregate:
  "collect_walk parse walk data =
     bind_res (aggregate parse (xml_documents walk)) (\<lambda>rs. Inr (data @ rs))"
proof (induction walk arbitrary: data)
  case Nil
  then show ?case by (simp add: xml_documents_def)
next
  case (Cons d walk)
  obtain root files where d: "d = (root, files)" by (cases d)
  have split: "xml_documents ((root, files) # walk) = xml_documents [(root, files)] @ xml_documents walk"
    by (simp add: xml_documents_def)
  show ?case
    using Cons.IH
    by (simp add: d collect_files_aggregate [of _ _ _ root] split aggregate_append bind_res_assoc)
qed

lemma df_columns_keys:
  "set (df_columns rows) = (\<Union>r\<in>set rows. set (dict_keys r)) \<and> distinct (df_columns rows)"
  by (simp add: df_columns_def set_first_seen distinct_first_seen)

lemma aggregate_Inr:
  "aggregate parse ds = Inr rows \<longleftrightarrow>
     (\<exists>rss. list_all2 (\<lambda>d rs. extract_all_info_from_xml parse d = Inr rs) ds rss \<and> rows = concat rss)"
  by (auto simp: aggregate_def bind_res_eq_Inr map_res_Inr_iff)

lemma df_columns_Cons:
  assumes "dict_ok r"
  shows "\<exists>cs. df_columns (r # rs) = dict_keys r @ cs"
proof -
  have "first_seen [] (dict_keys r) = dict_keys r"
    using assms by (simp add: dict_ok_def first_seen_distinct_id)
  then have "df_columns (r # rs) = first_seen (dict_keys r) (concat (map dict_keys rs))"
    by (simp add: df_columns_def first_seen_append)
  then show ?thesis using first_seen_prefix by metis
qed

lemma aggregate_contains:
  assumes "aggregate parse ds = Inr data" and "d \<in> set ds"
    and "extract_all_info_from_xml parse d = Inr rs"
  shows "\<exists>pre post. data = pre @ rs @ post"
  using assms
proof (induction ds arbitrary: data)
  case Nil
  then show ?case by simp
next
  case (Cons d' ds)
  from Cons.prems(1) obtain rs' rest where d': "extract_all_info_from_xml parse d' = Inr rs'"
    and rest: "aggregate parse ds = Inr rest" and data: "data = rs' @ rest"
    by (auto simp: aggregate_Cons bind_res_eq_Inr)
  show ?case
  proof (cases "d = d'")
    case True
    with d' Cons.prems(3) data show ?thesis by (intro exI [of _ "[]"] exI [of _ rest]) auto
  next
    case False
    with Cons.prems(2) have "d \<in> set ds" by simp
    from Cons.IH [OF rest this Cons.prems(3)] obtain pre post where "rest = pre @ rs @ post" by blast
    with data show ?thesis by (intro exI [of _ "rs' @ pre"] exI [of _ post]) auto
  qed
qed

lemma collect_walk_row_origin:
  assumes "collect_walk parse walk [] = Inr data" and "r \<in> set data"
  shows "\<exists>d\<in>set (xml_documents walk). \<exists>rs. extract_all_info_from_xml parse d = Inr rs \<and> r \<in> set rs"
proof -
  obtain rss where rss: "list_all2 (\<lambda>d rs. extract_all_info_from_xml parse d = Inr rs) (xml_documents walk) rss"
    and data: "data = concat rss"
    using assms(1) by (auto simp: collect_walk_aggregate aggregate_Inr)
  from assms(2) data obtain rs where "rs \<in> set rss" and "r \<in> set rs" by auto
  with list_all2_in_set2 [OF rss] show ?thesis by blast
qed

lemma collect_walk_rows_spec:
  assumes "collect_walk parse walk [] = Inr data" and "r \<in> set data"
  shows "\<exists>h v. read_src h = Some v \<and> map_of r = row_spec v"
proof -
  obtain d rs where rs: "extract_all_info_from_xml parse d = Inr rs" and rin: "r \<in> set rs"
    using collect_walk_row_origin [OF assms] by blast
  obtain root h where "extract_hdon h = Inr r"
    using extract_all_row_origin [OF rs rin] by blast
  from extract_hdon_refines [OF this] show ?thesis by blast
qed

lemma collect_walk_row_extracted:
  assumes "collect_walk parse walk [] = Inr data" and "r \<in> set data"
  shows "\<exists>h. extract_hdon h = Inr r"
proof -
  obtain d rs where rs: "extract_all_info_from_xml parse d = Inr rs" and rin: "r \<in> set rs"
    using collect_walk_row_origin [OF assms] by blast
  show ?thesis using extract_all_row_origin [OF rs rin] by blast
qed

lemma collect_walk_Inl_iff:
  "(\<exists>e. collect_walk parse walk [] = Inl e) \<longleftrightarrow>
     (\<exists>d\<in>set (xml_documents walk). \<exists>e. extract_all_info_from_xml parse d = Inl e)"
proof -
  have "(\<exists>e. collect_walk parse walk [] = Inl e) \<longleftrightarrow>
        (\<exists>e. map_res (extract_all_info_from_xml parse) (xml_documents walk) = Inl e)"
    by (cases "map_res (extract_all_info_from_xml parse) (xml_documents walk)")
       (simp_all add: collect_walk_aggregate aggregate_def)
  then show ?thesis by (simp add: map_res_Inl_ex)
qed

lemma data_frame_wf:
  assumes "data_frame (rows :: invoice_row list) = (cols, lines)"
  shows "distinct cols \<and> length cols \<le> 9 \<and> list_all (\<lambda>l. length l = length cols) lines"
  using assms df_columns_keys [of rows] distinct_fields_length [of cols]
  by (auto simp: data_frame_def Let_def list_all_iff)

subsection \<open>Properties of the aggregator and the table\<close>

text \<open>C13 (equivalence): the walk loop of process_file, which filters .xml files and extends data directory by directory, computes exactly the aggregator of the specification applied to the XML documents in walk order.\<close>

theorem process_rows_refine_aggregate:
  "collect_walk parse walk [] = aggregate parse (xml_documents walk)"
  by (simp add: collect_walk_aggregate)

text \<open>C16 (functional): a folder without XML files gives an empty table: no columns, no rows.\<close>

theorem empty_corpus_empty_table:
  assumes "xml_documents walk = []"
  shows "process_table parse walk = Inr ([], [])"
  using assms
  by (simp add: process_table_def collect_walk_aggregate data_frame_def df_columns_def)

theorem empty_corpus_empty_table_witness:
  "process_table Some [(''uploads/extracted'', [(''readme.txt'', ex_invoice)])] = Inr ([], [])"
proof -
  have "xml_documents [(''uploads/extracted'', [(''readme.txt'', ex_invoice)])] = []"
    by (simp add: xml_documents_def py_endswith_def)
  then show ?thesis by (rule empty_corpus_empty_table)
qed

text \<open>C14 (functional): the rows are the rows of each XML document in discovery order, each document's rows in element order, with nothing merged, dropped or reordered.\<close>

theorem rows_in_discovery_order:
  assumes "collect_walk parse walk [] = Inr rows"
  shows "\<exists>rss. list_all2 (\<lambda>d rs. extract_all_info_from_xml parse d = Inr rs) (xml_documents walk) rss \<and>
               rows = concat rss"
  using assms by (simp add: collect_walk_aggregate aggregate_Inr)

theorem rows_in_discovery_order_witness:
  "collect_walk Some [(''uploads/extracted'', [(''d1.xml'', ex_document), (''notes.txt'', ex_invoice)]),
                      (''uploads/extracted/sub'', [(''d2.xml'', Element ''HDon'' None [ex_plain_invoice])])] [] =
     Inr [projr (extract_hdon ex_invoice), projr (extract_hdon ex_plain_invoice),
          projr (extract_hdon ex_plain_invoice)]"
proof -
  have d1: "extract_all_info_from_xml Some ex_document =
      Inr [projr (extract_hdon ex_invoice), projr (extract_hdon ex_plain_invoice)]"
    by (simp add: extract_all_info_from_xml_def extract_defs ex_defs)
  have d2: "extract_all_info_from_xml Some (Element ''HDon'' None [ex_plain_invoice]) =
      Inr [projr (extract_hdon ex_plain_invoice)]"
    by (simp add: extract_all_info_from_xml_def extract_defs ex_defs)
  let ?w = "[(''uploads/extracted'', [(''d1.xml'', ex_document), (''notes.txt'', ex_invoice)]),
             (''uploads/extracted/sub'', [(''d2.xml'', Element ''HDon'' None [ex_plain_invoice])])]"
  have docs: "xml_documents ?w = [ex_document, Element ''HDon'' None [ex_plain_invoice]]"
    by (simp add: xml_documents_def py_endswith_def)
  obtain rows where rows: "collect_walk Some ?w [] = Inr rows"
    using d1 d2 by (simp add: collect_walk_aggregate docs aggregate_Cons)
  from rows_in_discovery_order [OF rows] d1 d2 docs have "rows =
     [projr (extract_hdon ex_invoice), projr (extract_hdon ex_plain_invoice),
      projr (extract_hdon ex_plain_invoice)]"
    by (auto simp: list_all2_Cons1)
  with rows show ?thesis by simp
qed

text \<open>C15 (errors): one XML document that fails to parse or extract makes the whole processing fail; no partial table is produced.\<close>

theorem corpus_fail_fast:
  assumes "d \<in> set (xml_documents walk)" and "extract_all_info_from_xml parse d = Inl e"
  shows "\<exists>e'. process_table parse walk = Inl e'"
proof -
  have "\<exists>e'. map_res (extract_all_info_from_xml parse) (xml_documents walk) = Inl e'"
    using assms map_res_Inl_ex by blast
  then show ?thesis
    by (auto simp: process_table_def collect_walk_aggregate aggregate_def)
qed

theorem corpus_fail_fast_witness:
  "\<exists>e. process_table (\<lambda>b. if b = ''<HDon>'' then None else Some ex_document)
        [(''uploads/extracted'', [(''a.xml'', ''ok''), (''b.xml'', ''<HDon>'')])] = Inl e"
proof -
  have "''<HDon>'' \<in> set (xml_documents [(''uploads/extracted'', [(''a.xml'', ''ok''), (''b.xml'', ''<HDon>'')])])"
    by (simp add: xml_documents_def py_endswith_def)
  moreover have "extract_all_info_from_xml (\<lambda>b. if b = ''<HDon>'' then None else Some ex_document) ''<HDon>''
      = Inl ParseError"
    by (simp add: extract_all_info_from_xml_def)
  ultimately show ?thesis by (rule corpus_fail_fast)
qed

text \<open>C30 (bounds): a table built from a non-empty successful walk has between seven and nine columns: the seven columns every invoice row has, and at most the two bank columns more.\<close>

theorem table_columns_bounds:
  assumes "collect_walk parse walk [] = Inr data" and "data \<noteq> []"
  shows "7 \<le> length (fst (data_frame data)) \<and> length (fst (data_frame data)) \<le> 9"
proof -
  obtain r rs where data: "data = r # rs" using assms(2) by (cases data) auto
  then obtain h where "extract_hdon h = Inr r" using collect_walk_row_extracted [OF assms(1)] by auto
  then have "dict_ok r" and "7 \<le> length r"
    using extract_hdon_keys [of h r] extract_hdon_size [of h r] by blast+
  then obtain cs where "df_columns data = dict_keys r @ cs" using df_columns_Cons data by blast
  then have "7 \<le> length (df_columns data)" using \<open>7 \<le> length r\<close> by (simp add: dict_keys_def)
  moreover have "length (df_columns data) \<le> 9"
    using df_columns_keys [of data] distinct_fields_length by blast
  ultimately show ?thesis by (simp add: data_frame_def Let_def)
qed

theorem table_columns_bounds_witness:
  "length (fst (data_frame (projr (collect_walk Some [(''uploads/extracted'', [(''d.xml'', ex_document)])] [])))) = 9"
proof -
  have d: "extract_all_info_from_xml Some ex_document =
      Inr [projr (extract_hdon ex_invoice), projr (extract_hdon ex_plain_invoice)]"
    by (simp add: extract_all_info_from_xml_def extract_defs ex_defs)
  then have cw: "collect_walk Some [(''uploads/extracted'', [(''d.xml'', ex_document)])] [] =
      Inr [projr (extract_hdon ex_invoice), projr (extract_hdon ex_plain_invoice)]"
    by (simp add: py_endswith_def)
  have "data_frame [projr (extract_hdon ex_invoice), projr (extract_hdon ex_plain_invoice)] =
      ([Loai_Hoa_Don, So_Hoa_Don, Ngay_Hoa_Don, Ma_So_Thue, So_Tai_Khoan, Tai_Ngan_Hang,
        Nguoi_Thu_Huong, Gia_Tri_Hoa_Don, So_Tien_Giai_Ngan],
       map (\<lambda>r. map (df_cell r) [Loai_Hoa_Don, So_Hoa_Don, Ngay_Hoa_Don, Ma_So_Thue, So_Tai_Khoan,
          Tai_Ngan_Hang, Nguoi_Thu_Huong, Gia_Tri_Hoa_Don, So_Tien_Giai_Ngan])
         [projr (extract_hdon ex_invoice), projr (extract_hdon ex_plain_invoice)])"
    by (simp add: ex_invoice_row ex_plain_invoice_row data_frame_def df_columns_def dict_keys_def)
  with table_columns_bounds [OF cw] cw show ?thesis by simp
qed

end
