(* ===== verification/SecureFilename.thy ===== *)
theory SecureFilename
  imports Prelude
begin

text \<open>
  \<^verbatim>\<open>werkzeug.utils.secure_filename\<close>, which \<^verbatim>\<open>upload_file\<close> of
  \<^verbatim>\<open>src/app.py\<close> (line 30) applies to the name of every accepted upload. The
  library is not part of the repository; the definitions follow its source on a POSIX
  system (\<^verbatim>\<open>os.sep = '/'\<close>, no \<^verbatim>\<open>altsep\<close>, so the Windows device-name
  branch is not taken), step by step:
  \<^verbatim>\<open>unicodedata.normalize('NFKD', ...)\<close> followed by
  \<^verbatim>\<open>encode('ascii', 'ignore')\<close> is \<open>ascii_fold\<close>. It is exact on ASCII names.
  For other characters it drops the character, where NFKD would keep the base letter
  of an accented one; no property below depends on that difference. Then come
  \<^verbatim>\<open>replace(os.sep, ' ')\<close>, \<^verbatim>\<open>'_'.join(filename.split())\<close> (with
  Python's ASCII whitespace), the removal of every character outside
  \<^verbatim>\<open>[A-Za-z0-9_.-]\<close>, and \<^verbatim>\<open>strip('._')\<close>. The server model keeps the
  function as a parameter of \<open>env\<close>; the properties that need the real one assume
  that the parameter is \<open>werkzeug_secure_filename\<close>.
\<close>

definition py_isspace :: "char \<Rightarrow> bool" where
  "py_isspace c \<longleftrightarrow> (let n = (of_char c :: nat) in (9 \<le> n \<and> n \<le> 13) \<or> (28 \<le> n \<and> n \<le> 32))"

fun split_ws :: "string \<Rightarrow> string list" where
  "split_ws [] = [[]]"
| "split_ws (c # cs) =
     (if py_isspace c then [] # split_ws cs
      else (case split_ws cs of [] \<Rightarrow> [[c]] | w # ws \<Rightarrow> (c # w) # ws))"

definition py_split :: "string \<Rightarrow> string list" where
  "py_split s = filter (\<lambda>w. w \<noteq> []) (split_ws s)"

fun py_join :: "string \<Rightarrow> string list \<Rightarrow> string" where
  "py_join sep [] = []"
| "py_join sep [w] = w"
| "py_join sep (w # v # ws) = w @ sep @ py_join sep (v # ws)"

definition py_strip :: "string \<Rightarrow> string \<Rightarrow> string" where
  "py_strip cs s = rev (dropWhile (\<lambda>c. c \<in> set cs) (rev (dropWhile (\<lambda>c. c \<in> set cs) s)))"

definition py_replace :: "char \<Rightarrow> char \<Rightarrow> string \<Rightarrow> string" where
  "py_replace a b s = map (\<lambda>c. if c = a then b else c) s"

definition ascii_fold :: "string \<Rightarrow> string" where
  "ascii_fold s = filter (\<lambda>c. (of_char c :: nat) < 128) s"

definition fn_char :: "char \<Rightarrow> bool" where
  "fn_char c \<longleftrightarrow>
     (let n = (of_char c :: nat) in
      (48 \<le> n \<and> n \<le> 57) \<or> (65 \<le> n \<and> n \<le> 90) \<or> (97 \<le> n \<and> n \<le> 122) \<or>
      c \<in> {CHR ''_'', CHR ''.'', CHR ''-''})"

text \<open>The function, in the order of its statements.\<close>

definition werkzeug_secure_filename :: "string \<Rightarrow> string" where
  "werkzeug_secure_filename filename =
     (let filename = ascii_fold filename;
          filename = py_replace CHR ''/'' CHR '' '' filename
      in py_strip ''._'' (filter fn_char (py_join ''_'' (py_split filename))))"

lemma concat_split_ws: "concat (split_ws s) = filter (\<lambda>c. \<not> py_isspace c) s"
  by (induction s rule: split_ws.induct) (auto split: list.split)

lemma set_concat_py_join: "set (concat ws) \<subseteq> set (py_join sep ws)"
  by (induction sep ws rule: py_join.induct) auto

lemma set_py_join_split:
  "c \<in> set s \<Longrightarrow> \<not> py_isspace c \<Longrightarrow> c \<in> set (py_join sep (py_split s))"
proof -
  assume "c \<in> set s" "\<not> py_isspace c"
  then have "c \<in> set (concat (split_ws s))" by (simp add: concat_split_ws)
  then have "c \<in> set (concat (py_split s))" by (auto simp: py_split_def)
  then show ?thesis using set_concat_py_join by blast
qed

lemma rev_dropWhile_prefix: "\<exists>v. t = rev (dropWhile P (rev t)) @ v"
proof -
  have "rev t = takeWhile P (rev t) @ dropWhile P (rev t)" by simp
  then have "t = rev (dropWhile P (rev t)) @ rev (takeWhile P (rev t))"
    by (metis rev_append rev_rev_ident)
  then show ?thesis by blast
qed

lemma in_dropWhile: "x \<in> set s \<Longrightarrow> \<not> P x \<Longrightarrow> x \<in> set (dropWhile P s)"
  by (induction s) auto

lemma set_py_strip: "set (py_strip cs s) \<subseteq> set s"
proof
  fix x
  let ?P = "\<lambda>c. c \<in> set cs"
  assume "x \<in> set (py_strip cs s)"
  then have "x \<in> set (dropWhile ?P (rev (dropWhile ?P s)))" by (simp add: py_strip_def)
  then have "x \<in> set (rev (dropWhile ?P s))" by (rule set_dropWhileD)
  then have "x \<in> set (dropWhile ?P s)" by simp
  then show "x \<in> set s" by (rule set_dropWhileD)
qed

lemma py_strip_nonempty: "x \<in> set s \<Longrightarrow> x \<notin> set cs \<Longrightarrow> py_strip cs s \<noteq> []"
  by (auto simp: py_strip_def dest: in_dropWhile [where P = "\<lambda>c. c \<in> set cs"])

lemma py_strip_ends:
  assumes "py_strip cs s = c # r"
  shows "c \<notin> set cs \<and> last (c # r) \<notin> set cs"
proof -
  let ?P = "\<lambda>c. c \<in> set cs"
  let ?t = "dropWhile ?P s"
  have ne: "dropWhile ?P (rev ?t) \<noteq> []" using assms by (auto simp: py_strip_def)
  have "dropWhile ?P (rev ?t) = rev (c # r)"
    using assms by (metis py_strip_def rev_rev_ident)
  then have "last (c # r) = hd (dropWhile ?P (rev ?t))" by (metis hd_rev)
  then have last: "last (c # r) \<notin> set cs" using hd_dropWhile [OF ne] by simp
  obtain v where "?t = rev (dropWhile ?P (rev ?t)) @ v" using rev_dropWhile_prefix by blast
  then have "?t = (c # r) @ v" using assms by (simp add: py_strip_def)
  then have "hd ?t = c" "?t \<noteq> []" by simp_all
  then have "c \<notin> set cs" using hd_dropWhile [of ?P s] by auto
  with last show ?thesis by simp
qed

lemma ascii_letter_kept:
  assumes "c \<in> set s"
    and "(65 \<le> (of_char c :: nat) \<and> (of_char c :: nat) \<le> 90) \<or> (97 \<le> (of_char c :: nat) \<and> (of_char c :: nat) \<le> 122)"
  shows "werkzeug_secure_filename s \<noteq> []"
proof -
  have ne: "c \<noteq> CHR ''/''" "c \<noteq> CHR ''.''" "c \<noteq> CHR ''_''" "\<not> py_isspace c"
    using assms(2) by (auto simp: py_isspace_def)
  have "c \<in> set (ascii_fold s)" using assms by (auto simp: ascii_fold_def)
  then have "c \<in> set (py_replace CHR ''/'' CHR '' '' (ascii_fold s))"
    using ne(1) by (force simp: py_replace_def)
  then have "c \<in> set (py_join ''_'' (py_split (py_replace CHR ''/'' CHR '' '' (ascii_fold s))))"
    using ne(4) by (rule set_py_join_split)
  moreover have "fn_char c" using assms(2) by (auto simp: fn_char_def)
  ultimately show ?thesis
    using py_strip_nonempty [of c _ "''._''"] ne(2,3) by (simp add: werkzeug_secure_filename_def Let_def)
qed

lemma secure_filename_safe:
  "list_all fn_char (werkzeug_secure_filename s) \<and>
   (werkzeug_secure_filename s \<noteq> [] \<longrightarrow>
      hd (werkzeug_secure_filename s) \<notin> {CHR ''.'', CHR ''_''} \<and>
      last (werkzeug_secure_filename s) \<notin> {CHR ''.'', CHR ''_''})"
proof
  show "list_all fn_char (werkzeug_secure_filename s)"
    using set_py_strip by (fastforce simp: werkzeug_secure_filename_def list_all_iff Let_def)
next
  show "werkzeug_secure_filename s \<noteq> [] \<longrightarrow>
      hd (werkzeug_secure_filename s) \<notin> {CHR ''.'', CHR ''_''} \<and>
      last (werkzeug_secure_filename s) \<notin> {CHR ''.'', CHR ''_''}"
  proof
    assume "werkzeug_secure_filename s \<noteq> []"
    then obtain c r where cr: "werkzeug_secure_filename s = c # r" by (cases "werkzeug_secure_filename s") auto
    then show "hd (werkzeug_secure_filename s) \<notin> {CHR ''.'', CHR ''_''} \<and>
      last (werkzeug_secure_filename s) \<notin> {CHR ''.'', CHR ''_''}"
      using py_strip_ends [of "''._''" _ c r] by (auto simp: werkzeug_secure_filename_def Let_def)
  qed
qed

end
