(* ===== verification/Walk.thy ===== *)
theory Walk
  imports Aggregate SecureFilename "HOL-Library.While_Combinator" "HOL-Library.Multiset"
begin

text \<open>
  \<^verbatim>\<open>os.walk(extract_folder)\<close>, the loop header of line 50 of
  \<^verbatim>\<open>src/app.py\<close>. The library is not part of the repository; the model follows
  the source of \<^verbatim>\<open>os.walk\<close> in Python 3.12 and later, top-down and without following
  links: a stack of directories, initially the top folder, from which one directory
  is popped per step. Its listing (\<^verbatim>\<open>scandir\<close>) is split into subdirectories and
  other files, the triple \<^verbatim>\<open>(root, dirs, files)\<close> is yielded, and the
  subdirectories are pushed in reverse so that the first is visited next. Earlier
  versions recurse instead and yield the same sequence. The extraction folder is the
  flat dictionary of the server model, from relative path to content; a directory is a
  list of path components, and its listing is read off the paths below it, in the order
  the paths were first written (the order of \<^verbatim>\<open>scandir\<close> is the file
  system's). The loop is \<open>while_option\<close>. Its termination is proved with the multiset
  of the heights of the stacked directories, which every step decreases. The multiset
  invariant shows that each file of the folder is yielded exactly once.
\<close>

text \<open>\<^verbatim>\<open>path.split('/')\<close>: the components of a relative path.\<close>

fun split_path :: "string \<Rightarrow> string list" where
  "split_path [] = [[]]"
| "split_path (c # cs) =
     (if c = CHR ''/'' then [] # split_path cs
      else (case split_path cs of [] \<Rightarrow> [[c]] | w # ws \<Rightarrow> (c # w) # ws))"

text \<open>The components of a path below the directory \<open>ds\<close>, if it is below it.\<close>

definition rel_path :: "string list \<Rightarrow> string list \<Rightarrow> string list option" where
  "rel_path ds cs = (if take (length ds) cs = ds then Some (drop (length ds) cs) else None)"

text \<open>The listing of a directory: its files (\<^verbatim>\<open>nondirs\<close>, with their
  contents) and its subdirectories (\<^verbatim>\<open>dirs\<close>, each once).\<close>

definition dir_files :: "(string, 'b) pydict \<Rightarrow> string list \<Rightarrow> (string \<times> 'b) list" where
  "dir_files d ds =
     concat (map (\<lambda>(k, c). case rel_path ds (split_path k) of Some [n] \<Rightarrow> [(n, c)] | _ \<Rightarrow> []) d)"

fun subdir_name :: "string list option \<Rightarrow> string list" where
  "subdir_name (Some (n # m # ms)) = [n]"
| "subdir_name _ = []"

definition dir_subdirs :: "(string, 'b) pydict \<Rightarrow> string list \<Rightarrow> string list" where
  "dir_subdirs d ds = first_seen [] (concat (map (\<lambda>(k, c). subdir_name (rel_path ds (split_path k))) d))"

text \<open>\<^verbatim>\<open>os.path.join(top, dirname)\<close>, repeated down to the directory.\<close>

definition dir_path :: "string \<Rightarrow> string list \<Rightarrow> string" where
  "dir_path topdir ds = topdir @ concat (map (\<lambda>n. CHR ''/'' # n) ds)"

text \<open>One iteration of \<^verbatim>\<open>while stack:\<close>: pop, list, yield, push the
  subdirectories in reverse (the head of the list is the top of the stack).\<close>

definition walk_step ::
  "(string, 'b) pydict \<Rightarrow> string \<Rightarrow> string list list \<times> 'b walk_dir list \<Rightarrow> string list list \<times> 'b walk_dir list"
where
  "walk_step d topdir st =
     (case st of
        ([], out) \<Rightarrow> ([], out)
      | (ds # stack, out) \<Rightarrow>
          (map (\<lambda>n. ds @ [n]) (dir_subdirs d ds) @ stack, out @ [(dir_path topdir ds, dir_files d ds)]))"

definition os_walk_loop :: "(string, 'b) pydict \<Rightarrow> string \<Rightarrow> (string list list \<times> 'b walk_dir list) option" where
  "os_walk_loop d topdir = while_option (\<lambda>(stack, out). stack \<noteq> []) (walk_step d topdir) ([[]], [])"

definition os_walk :: "string \<Rightarrow> (string, 'b) pydict \<Rightarrow> 'b walk_dir list" where
  "os_walk topdir d = (case os_walk_loop d topdir of Some (_, out) \<Rightarrow> out | None \<Rightarrow> [])"

text \<open>For the proofs: the files below a directory still on the stack, and the
  height of a directory (the length of its longest path below it).\<close>

definition walk_pending :: "(string, 'b) pydict \<Rightarrow> string list \<Rightarrow> (string \<times> 'b) list" where
  "walk_pending d ds =
     map (\<lambda>(k, c). (last (split_path k), c))
       (filter (\<lambda>(k, c). case rel_path ds (split_path k) of Some r \<Rightarrow> r \<noteq> [] | None \<Rightarrow> False) d)"

definition walk_height :: "(string, 'b) pydict \<Rightarrow> string list \<Rightarrow> nat" where
  "walk_height d ds =
     Max (set (0 # map (\<lambda>(k, c). case rel_path ds (split_path k) of Some r \<Rightarrow> length r | None \<Rightarrow> 0) d))"

lemma rel_path_Some: "rel_path ds cs = Some r \<longleftrightarrow> cs = ds @ r"
  by (auto simp: rel_path_def) (metis append_take_drop_id)

lemma set_subdir_name: "n \<in> set (subdir_name x) \<longleftrightarrow> (\<exists>m ms. x = Some (n # m # ms))"
  by (cases x rule: subdir_name.cases) auto

lemma set_dir_subdirs:
  "n \<in> set (dir_subdirs d ds) \<longleftrightarrow>
     (\<exists>k c m ms. (k, c) \<in> set d \<and> rel_path ds (split_path k) = Some (n # m # ms))"
proof
  assume "n \<in> set (dir_subdirs d ds)"
  then obtain kc where "kc \<in> set d" and "n \<in> set (subdir_name (rel_path ds (split_path (fst kc))))"
    by (auto simp: dir_subdirs_def set_first_seen split_def)
  moreover obtain k c where "kc = (k, c)" by (cases kc)
  ultimately show "\<exists>k c m ms. (k, c) \<in> set d \<and> rel_path ds (split_path k) = Some (n # m # ms)"
    by (auto simp: set_subdir_name)
next
  assume "\<exists>k c m ms. (k, c) \<in> set d \<and> rel_path ds (split_path k) = Some (n # m # ms)"
  then obtain k c m ms where kc: "(k, c) \<in> set d" and r: "rel_path ds (split_path k) = Some (n # m # ms)"
    by blast
  then have "n \<in> set (subdir_name (rel_path ds (split_path k)))" by simp
  with kc show "n \<in> set (dir_subdirs d ds)"
    by (auto simp: dir_subdirs_def set_first_seen intro!: bexI [of _ "(k, c)"])
qed

lemma walk_height_ge:
  assumes "(k, c) \<in> set d" and "rel_path ds (split_path k) = Some r"
  shows "length r \<le> walk_height d ds"
proof -
  have "length r \<in> set (0 # map (\<lambda>(k, c). case rel_path ds (split_path k) of Some r \<Rightarrow> length r | None \<Rightarrow> 0) d)"
    using assms by force
  then show ?thesis unfolding walk_height_def by (intro Max_ge) simp_all
qed

lemma walk_height_child:
  assumes "n \<in> set (dir_subdirs d ds)"
  shows "walk_height d (ds @ [n]) < walk_height d ds"
proof -
  obtain k c m ms where kc: "(k, c) \<in> set d" and r: "rel_path ds (split_path k) = Some (n # m # ms)"
    using assms by (auto simp: set_dir_subdirs)
  then have two: "2 \<le> walk_height d ds" using walk_height_ge [OF kc r] by simp
  have "\<forall>x \<in> set (0 # map (\<lambda>(k, c). case rel_path (ds @ [n]) (split_path k) of
             Some r \<Rightarrow> length r | None \<Rightarrow> 0) d). x < walk_height d ds"
  proof
    fix x
    assume "x \<in> set (0 # map (\<lambda>(k, c). case rel_path (ds @ [n]) (split_path k) of
             Some r \<Rightarrow> length r | None \<Rightarrow> 0) d)"
    then consider "x = 0" | k' c' where "(k', c') \<in> set d"
      "x = (case rel_path (ds @ [n]) (split_path k') of Some r \<Rightarrow> length r | None \<Rightarrow> 0)"
      by auto
    then show "x < walk_height d ds"
    proof cases
      case 1
      with two show ?thesis by simp
    next
      case 2
      show ?thesis
      proof (cases "rel_path (ds @ [n]) (split_path k')")
        case None
        with 2 two show ?thesis by simp
      next
        case (Some r')
        then have "rel_path ds (split_path k') = Some (n # r')" by (simp add: rel_path_Some)
        from walk_height_ge [OF 2(1) this] Some 2(2) show ?thesis by simp
      qed
    qed
  qed
  then show ?thesis unfolding walk_height_def [of d "ds @ [n]"] by (subst Max_less_iff) auto
qed

lemma walk_step_mult:
  assumes "stack \<noteq> []"
  shows "(image_mset (walk_height d) (mset (fst (walk_step d topdir (stack, out)))),
          image_mset (walk_height d) (mset stack)) \<in> mult {(x, y). x < y}"
proof -
  obtain ds rest where s: "stack = ds # rest" using assms by (cases stack) auto
  let ?K = "mset (map (walk_height d) (map (\<lambda>n. ds @ [n]) (dir_subdirs d ds)))"
  have "\<forall>k \<in> set_mset ?K. \<exists>j \<in> set_mset {#walk_height d ds#}. (k, j) \<in> {(x, y). x < y}"
    using walk_height_child by auto
  from one_step_implies_mult [OF _ this, of "mset (map (walk_height d) rest)"]
  show ?thesis by (simp add: s walk_step_def add.commute multiset.map_comp)
qed

lemma os_walk_loop_wf: "wf {(t, s). (True \<and> (\<lambda>(stack, out). stack \<noteq> []) s) \<and> t = walk_step d topdir s}"
proof (rule wf_subset)
  let ?R = "inv_image (mult {(x, y :: nat). x < y}) (\<lambda>s. image_mset (walk_height d) (mset (fst s)))"
  show "wf ?R" by (intro wf_inv_image wf_mult wf_less)
  show "{(t, s). (True \<and> (\<lambda>(stack, out). stack \<noteq> []) s) \<and> t = walk_step d topdir s} \<subseteq> ?R"
    by (auto simp: case_prod_beta intro!: walk_step_mult)
qed

lemma split_path_nonempty [simp]: "split_path k \<noteq> []"
  by (induction k rule: split_path.induct) (auto split: list.split)

lemma split_path_no_slash: "w \<in> set (split_path k) \<Longrightarrow> CHR ''/'' \<notin> set w"
  by (induction k arbitrary: w rule: split_path.induct) (auto split: list.splits if_splits)

lemma py_join_Cons2: "py_join sep ((c # w) # ws) = c # py_join sep (w # ws)"
  by (cases ws) auto

lemma split_path_join: "py_join ''/'' (split_path k) = k"
proof (induction k rule: split_path.induct)
  case 1
  then show ?case by simp
next
  case (2 c cs)
  obtain w ws where s: "split_path cs = w # ws" by (cases "split_path cs") auto
  show ?case using 2 s by (cases "c = CHR ''/''") (auto simp: py_join_Cons2)
qed

lemma py_join_snoc: "py_join sep (ws @ [l]) = (if ws = [] then l else py_join sep ws @ sep @ l)"
  by (induction sep ws rule: py_join.induct) auto

lemma suffix_after_slash:
  assumes "CHR ''/'' \<notin> set suf"
  shows "suffix suf (q @ CHR ''/'' # l) \<longleftrightarrow> suffix suf l"
proof
  assume "suffix suf (q @ CHR ''/'' # l)"
  then show "suffix suf l" using assms by (auto simp: suffix_append suffix_Cons)
next
  assume "suffix suf l"
  then show "suffix suf (q @ CHR ''/'' # l)" by (auto simp: suffix_def)
qed

lemma endswith_last_component:
  assumes "CHR ''/'' \<notin> set suf"
  shows "py_endswith k suf \<longleftrightarrow> py_endswith (last (split_path k)) suf"
proof -
  let ?cs = "split_path k"
  have cs: "?cs = butlast ?cs @ [last ?cs]" by simp
  have k: "k = (if butlast ?cs = [] then last ?cs else py_join ''/'' (butlast ?cs) @ ''/'' @ last ?cs)"
    using split_path_join [of k] py_join_snoc [of "''/''" "butlast ?cs" "last ?cs"] cs by metis
  show ?thesis
  proof (cases "butlast ?cs = []")
    case True
    with k show ?thesis by simp
  next
    case False
    with k have k': "k = py_join ''/'' (butlast ?cs) @ CHR ''/'' # last ?cs" by simp
    have "suffix suf k \<longleftrightarrow> suffix suf (last ?cs)"
      using suffix_after_slash [OF assms, of "py_join ''/'' (butlast ?cs)" "last ?cs"] k' by simp
    then show ?thesis by (simp add: py_endswith_suffix)
  qed
qed

lemma pending_case_iff:
  "(case x of Some r \<Rightarrow> r \<noteq> [] | None \<Rightarrow> False) \<longleftrightarrow> (\<exists>r. x = Some r \<and> r \<noteq> [])"
  by (cases x) auto

lemma rel_path_snoc: "rel_path (ds @ [n]) cs = Some r \<longleftrightarrow> rel_path ds cs = Some (n # r)"
  by (simp add: rel_path_Some)

lemma walk_pending_Cons:
  "walk_pending ((k, c) # d) ds =
     (if \<exists>r. rel_path ds (split_path k) = Some r \<and> r \<noteq> [] then [(last (split_path k), c)] else []) @
     walk_pending d ds"
  by (simp add: walk_pending_def pending_case_iff)

lemma mset_walk_pending_Cons:
  "mset (walk_pending ((k, c) # d) ds) =
     (if \<exists>r. rel_path ds (split_path k) = Some r \<and> r \<noteq> [] then {#(last (split_path k), c)#} else {#}) +
     mset (walk_pending d ds)"
  by (simp add: walk_pending_Cons)

lemma sum_list_indicator:
  "distinct S \<Longrightarrow> (\<Sum>n\<leftarrow>S. if a = n then M else {#}) = (if a \<in> set S then M else {#})"
  by (induction S) auto

lemma walk_pending_mset:
  assumes "distinct S"
  shows "(\<forall>(k, c)\<in>set d. \<forall>n m ms. rel_path ds (split_path k) = Some (n # m # ms) \<longrightarrow> n \<in> set S) \<Longrightarrow>
    mset (walk_pending d ds) = mset (dir_files d ds) + (\<Sum>n\<leftarrow>S. mset (walk_pending d (ds @ [n])))"
proof (induction d)
  case Nil
  have "(\<Sum>n\<leftarrow>S. mset (walk_pending [] (ds @ [n]))) = {#}"
    by (induction S) (simp_all add: walk_pending_def)
  then show ?case by (simp add: walk_pending_def dir_files_def)
next
  case (Cons e d)
  obtain k c where e: "e = (k, c)" by (cases e)
  have IH: "mset (walk_pending d ds) = mset (dir_files d ds) + (\<Sum>n\<leftarrow>S. mset (walk_pending d (ds @ [n])))"
    using Cons by simp
  have sub: "(\<Sum>n\<leftarrow>S. mset (walk_pending (e # d) (ds @ [n]))) =
      (\<Sum>n\<leftarrow>S. if \<exists>r. rel_path ds (split_path k) = Some (n # r) \<and> r \<noteq> [] then {#(last (split_path k), c)#} else {#}) +
      (\<Sum>n\<leftarrow>S. mset (walk_pending d (ds @ [n])))"
    by (simp only: e mset_walk_pending_Cons rel_path_snoc sum_list_addf)
  show ?case
  proof (cases "rel_path ds (split_path k)")
    case None
    then show ?thesis using IH sub by (simp add: e walk_pending_Cons dir_files_def)
  next
    case (Some r)
    show ?thesis
    proof (cases r)
      case Nil
      then show ?thesis using IH sub Some by (simp add: e walk_pending_Cons dir_files_def)
    next
      case (Cons n r')
      show ?thesis
      proof (cases r')
        case Nil
        have "last (split_path k) = n" using Some \<open>r = n # r'\<close> Nil by (simp add: rel_path_Some)
        then show ?thesis using IH sub Some \<open>r = n # r'\<close> Nil by (simp add: e walk_pending_Cons dir_files_def)
      next
        case (Cons m ms)
        then have r: "rel_path ds (split_path k) = Some (n # m # ms)" using Some \<open>r = n # r'\<close> by simp
        then have "n \<in> set S" using Cons.prems e by auto
        then have "(\<Sum>n'\<leftarrow>S. if \<exists>r. rel_path ds (split_path k) = Some (n' # r) \<and> r \<noteq> [] then {#(last (split_path k), c)#} else {#})
            = {#(last (split_path k), c)#}"
          using sum_list_indicator [OF assms, of n "{#(last (split_path k), c)#}"] r by simp
        then show ?thesis using IH sub r by (simp add: e walk_pending_Cons dir_files_def)
      qed
    qed
  qed
qed

lemma walk_pending_step:
  "mset (walk_pending d ds) =
     mset (dir_files d ds) + (\<Sum>n\<leftarrow>dir_subdirs d ds. mset (walk_pending d (ds @ [n])))"
proof (rule walk_pending_mset)
  show "distinct (dir_subdirs d ds)" by (simp add: dir_subdirs_def distinct_first_seen)
  show "\<forall>(k, c)\<in>set d. \<forall>n m ms. rel_path ds (split_path k) = Some (n # m # ms) \<longrightarrow> n \<in> set (dir_subdirs d ds)"
    unfolding set_dir_subdirs by blast
qed

lemma walk_step_pending:
  assumes "stack \<noteq> []"
  shows "mset (concat (map snd (snd (walk_step d topdir (stack, out))))) +
           (\<Sum>ds\<leftarrow>fst (walk_step d topdir (stack, out)). mset (walk_pending d ds)) =
         mset (concat (map snd out)) + (\<Sum>ds\<leftarrow>stack. mset (walk_pending d ds))"
proof -
  obtain ds rest where s: "stack = ds # rest" using assms by (cases stack) auto
  show ?thesis
    using walk_pending_step [of d ds] by (simp add: s walk_step_def comp_def ac_simps)
qed

lemma walk_pending_top: "walk_pending d [] = map (\<lambda>(k, c). (last (split_path k), c)) d"
  by (simp add: walk_pending_def rel_path_def case_prod_beta)

lemma os_walk_loop_mset:
  "\<exists>out. os_walk_loop d topdir = Some ([], out) \<and>
     mset (concat (map snd out)) = mset (map (\<lambda>(k, c). (last (split_path k), c)) d)"
proof -
  obtain st where st: "os_walk_loop d topdir = Some st"
    unfolding os_walk_loop_def using wf_while_option_Some [OF os_walk_loop_wf] by fastforce
  let ?P = "\<lambda>st. mset (concat (map snd (snd st))) + (\<Sum>ds\<leftarrow>fst st. mset (walk_pending d ds)) =
                   mset (walk_pending d [])"
  have step: "\<And>s. ?P s \<Longrightarrow> (\<lambda>(stack, out). stack \<noteq> []) s \<Longrightarrow> ?P (walk_step d topdir s)"
  proof -
    fix s :: "string list list \<times> 'a walk_dir list"
    obtain stack out where s: "s = (stack, out)" by (cases s)
    assume "?P s" and "(\<lambda>(stack, out). stack \<noteq> []) s"
    then show "?P (walk_step d topdir s)"
      using walk_step_pending [of stack d topdir out] by (simp add: s)
  qed
  have init: "?P ([[]], [])" by simp
  have "?P st" by (rule while_option_rule [where P = ?P, OF step st [unfolded os_walk_loop_def] init])
  moreover have "fst st = []"
    using while_option_stop [OF st [unfolded os_walk_loop_def]] by (simp add: case_prod_beta)
  moreover obtain stack out where st_eq: "st = (stack, out)" by (cases st)
  ultimately show ?thesis using st by (simp add: walk_pending_top)
qed

lemma mset_xml_documents:
  "mset (xml_documents w) = image_mset snd (filter_mset (\<lambda>f. py_endswith (fst f) ''.xml'') (mset (concat (map snd w))))"
  by (simp add: xml_documents_def mset_filter)

lemma xml_filter_last_component:
  "filter_mset (\<lambda>f. py_endswith (fst f) ''.xml'') (mset (map (\<lambda>(k, c). (last (split_path k), c)) d)) =
   image_mset (\<lambda>(k, c). (last (split_path k), c)) (filter_mset (\<lambda>f. py_endswith (fst f) ''.xml'') (mset d))"
proof -
  have e: "py_endswith (last (split_path k)) ''.xml'' \<longleftrightarrow> py_endswith k ''.xml''" for k
    by (rule endswith_last_component [symmetric]) simp
  show ?thesis by (induction d) (auto simp: e)
qed

lemma os_walk_xml_documents:
  "mset (xml_documents (os_walk topdir d)) = mset (xml_documents [(r, d)])"
proof -
  obtain out where out: "os_walk_loop d topdir = Some ([], out)"
    and m: "mset (concat (map snd out)) = mset (map (\<lambda>(k, c). (last (split_path k), c)) d)"
    using os_walk_loop_mset by blast
  have w: "os_walk topdir d = out" using out by (simp add: os_walk_def)
  have "image_mset snd (image_mset (\<lambda>(k, c). (last (split_path k), c)) M) = image_mset snd M" for M :: "(string \<times> 'a) multiset"
    by (induction M) auto
  then show ?thesis
    by (simp only: mset_xml_documents w m xml_filter_last_component) simp
qed

lemma set_xml_documents_os_walk:
  "set (xml_documents (os_walk topdir d)) = set (xml_documents [(topdir, d)])"
  by (metis os_walk_xml_documents set_mset_mset)

lemma split_path_no_slash_id: "CHR ''/'' \<notin> set k \<Longrightarrow> split_path k = [k]"
  by (induction k rule: split_path.induct) auto

lemma os_walk_flat:
  assumes "\<forall>(k, c)\<in>set d. CHR ''/'' \<notin> set k"
  shows "os_walk topdir d = [(topdir, d)]"
proof -
  have f: "dir_files d [] = d"
    using assms by (induction d) (auto simp: dir_files_def rel_path_def split_path_no_slash_id)
  have sd: "dir_subdirs d [] = []"
    using assms by (induction d) (auto simp: dir_subdirs_def rel_path_def split_path_no_slash_id)
  have "os_walk_loop d topdir = Some ([], [(topdir, d)])"
    unfolding os_walk_loop_def
    by (simp add: while_option_unfold [of _ _ "([[]], [])"] while_option_unfold [of _ _ "([], [(topdir, d)])"]
        walk_step_def f sd dir_path_def)
  then show ?thesis by (simp add: os_walk_def)
qed

lemma ex_walk_nested: "os_walk ''top'' [(''a.xml'', (1::nat)), (''sub/b.xml'', 2), (''c.txt'', 3), (''sub/deep/d.xml'', 4)] =
  [(''top'', [(''a.xml'', 1), (''c.txt'', 3)]), (''top/sub'', [(''b.xml'', 2)]), (''top/sub/deep'', [(''d.xml'', 4)])]"
  by code_simp

text \<open>C29 (equivalence): the loop of process_file over os.walk of a folder computes the specification's aggregator over the folder's XML documents, each taken exactly once: the documents it reads are a permutation of the .xml files of the folder.\<close>

theorem walk_reads_each_xml_once:
  "\<exists>docs. mset docs = mset (map snd (filter (\<lambda>f. py_endswith (fst f) ''.xml'') d)) \<and>
          collect_walk parse (os_walk topdir d) [] = aggregate parse docs"
proof (intro exI conjI)
  show "mset (xml_documents (os_walk topdir d)) = mset (map snd (filter (\<lambda>f. py_endswith (fst f) ''.xml'') d))"
    using os_walk_xml_documents [of topdir d topdir] by (simp add: xml_documents_def)
  show "collect_walk parse (os_walk topdir d) [] = aggregate parse (xml_documents (os_walk topdir d))"
    by (simp add: collect_walk_aggregate)
qed

end
