(* ===== verification/Zip.thy ===== *)
theory Zip
  imports Walk
begin

text \<open>
  \<^verbatim>\<open>zip_ref.extractall(extract_folder)\<close>, line 45 of \<^verbatim>\<open>src/app.py\<close>. The
  \<^verbatim>\<open>zipfile\<close> module is not part of the repository; the model follows the source
  of \<^verbatim>\<open>ZipFile.extractall\<close> and \<^verbatim>\<open>ZipFile._extract_member\<close> on POSIX. The
  archive's members, in the order of its central directory, are the result of the
  zip reader, a parameter of the server model. Each member name is split on
  \<^verbatim>\<open>/\<close>, the components that are empty, \<^verbatim>\<open>.\<close> or \<^verbatim>\<open>..\<close> are dropped
  and the rest joined again: an absolute name or one that climbs out with
  \<^verbatim>\<open>..\<close> lands inside the target folder. A member whose name ends in
  \<^verbatim>\<open>/\<close> is a directory and writes no file. A file member with no component left
  would be written to the target folder itself, and \<^verbatim>\<open>open\<close> raises
  \<open>IsADirectoryError\<close>; the members extracted before it stay on disk, and the
  model returns the error together with the folder as it was left. A member that
  repeats a path overwrites the file written before.
\<close>

text \<open>\<^verbatim>\<open>invalid_path_parts = ('', os.path.curdir, os.path.pardir)\<close>.\<close>

definition invalid_path_parts :: "string list" where
  "invalid_path_parts = ['''', ''.'', ''..'']"

text \<open>\<^verbatim>\<open>ZipInfo.is_dir\<close>: the name ends in a slash.\<close>

definition zip_is_dir :: "string \<Rightarrow> bool" where
  "zip_is_dir name \<longleftrightarrow> name \<noteq> [] \<and> last name = CHR ''/''"

text \<open>The \<^verbatim>\<open>arcname\<close> of \<^verbatim>\<open>_extract_member\<close>:
  \<^verbatim>\<open>os.path.sep.join(x for x in arcname.split(os.path.sep) if x not in invalid_path_parts)\<close>.\<close>

definition zip_arcname :: "string \<Rightarrow> string" where
  "zip_arcname name = py_join ''/'' (filter (\<lambda>x. x \<notin> set invalid_path_parts) (split_path name))"

text \<open>\<^verbatim>\<open>_extract_member(member, target)\<close> on a folder: a directory member
  creates at most a directory; a file member writes its content under its
  \<^verbatim>\<open>arcname\<close>, or raises when that is empty.\<close>

definition extract_member ::
  "string \<Rightarrow> string \<times> 'b \<Rightarrow> (string, 'b) pydict \<Rightarrow> py_error option \<times> (string, 'b) pydict" where
  "extract_member target m d =
     (case m of (name, content) \<Rightarrow>
        if zip_is_dir name then (None, d)
        else if zip_arcname name = [] then (Some (IsADirectoryError target), d)
        else (None, AList.update (zip_arcname name) content d))"

text \<open>\<^verbatim>\<open>extractall(target)\<close>: the members in order, stopping at the first error.\<close>

fun extractall ::
  "string \<Rightarrow> (string \<times> 'b) list \<Rightarrow> (string, 'b) pydict \<Rightarrow> py_error option \<times> (string, 'b) pydict" where
  "extractall target [] d = (None, d)"
| "extractall target (m # ms) d =
     (case extract_member target m d of
        (Some e, d1) \<Rightarrow> (Some e, d1)
      | (None, d1) \<Rightarrow> extractall target ms d1)"

text \<open>A path every component of which is a proper name: it stays below the folder
  it is joined to.\<close>

definition clean_path :: "string \<Rightarrow> bool" where
  "clean_path k \<longleftrightarrow> list_all (\<lambda>x. x \<notin> set invalid_path_parts) (split_path k)"

subsection \<open>Member names\<close>

lemma split_path_append_slash:
  "CHR ''/'' \<notin> set w \<Longrightarrow> split_path (w @ CHR ''/'' # r) = w # split_path r"
  by (induction w) auto

lemma split_path_py_join:
  "ws \<noteq> [] \<Longrightarrow> \<forall>w\<in>set ws. CHR ''/'' \<notin> set w \<Longrightarrow> split_path (py_join ''/'' ws) = ws"
  by (induction "''/''" ws rule: py_join.induct) (auto simp: split_path_no_slash_id split_path_append_slash)

lemma py_join_Nil_iff:
  "\<forall>w\<in>set ws. w \<noteq> [] \<Longrightarrow> py_join sep ws = [] \<longleftrightarrow> ws = []"
  by (induction sep ws rule: py_join.induct) auto

lemma zip_arcname_components:
  assumes "zip_arcname name \<noteq> []"
  shows "split_path (zip_arcname name) = filter (\<lambda>x. x \<notin> set invalid_path_parts) (split_path name)"
proof -
  let ?ws = "filter (\<lambda>x. x \<notin> set invalid_path_parts) (split_path name)"
  have "?ws \<noteq> []" using assms by (auto simp: zip_arcname_def)
  moreover have "\<forall>w\<in>set ?ws. CHR ''/'' \<notin> set w" using split_path_no_slash by auto
  ultimately show ?thesis unfolding zip_arcname_def by (rule split_path_py_join)
qed

lemma zip_arcname_clean: "zip_arcname name \<noteq> [] \<Longrightarrow> clean_path (zip_arcname name)"
  by (simp add: clean_path_def zip_arcname_components list_all_iff)

lemma zip_arcname_Nil_iff:
  "zip_arcname name = [] \<longleftrightarrow> list_all (\<lambda>x. x \<in> set invalid_path_parts) (split_path name)"
proof -
  have "\<forall>w\<in>set (filter (\<lambda>x. x \<notin> set invalid_path_parts) (split_path name)). w \<noteq> []"
    by (auto simp: invalid_path_parts_def)
  then show ?thesis
    by (simp add: zip_arcname_def py_join_Nil_iff filter_empty_conv list_all_iff)
qed

subsection \<open>Extraction\<close>

lemma extract_member_cases:
  "extract_member target (name, c) d = (err, d') \<Longrightarrow>
     (err = None \<and> d' = d \<and> zip_is_dir name) \<or>
     (err = Some (IsADirectoryError target) \<and> d' = d \<and> \<not> zip_is_dir name \<and> zip_arcname name = []) \<or>
     (err = None \<and> d' = AList.update (zip_arcname name) c d \<and> \<not> zip_is_dir name \<and> zip_arcname name \<noteq> [])"
  by (auto simp: extract_member_def split: if_splits)

text \<open>What extraction adds to a folder: the folder keeps its paths and its
  distinct keys, and every new path is the clean \<open>arcname\<close> of a file member.\<close>

lemma extractall_keys:
  "extractall target ms d = (err, d') \<Longrightarrow>
     set (dict_keys d) \<subseteq> set (dict_keys d') \<and> (dict_ok d \<longrightarrow> dict_ok d') \<and>
     (\<forall>k\<in>set (dict_keys d'). k \<in> set (dict_keys d) \<or>
        (\<exists>(n, c)\<in>set ms. \<not> zip_is_dir n \<and> zip_arcname n = k \<and> k \<noteq> []))"
proof (induction ms arbitrary: d)
  case Nil
  then show ?case by simp
next
  case (Cons m ms)
  obtain n c where m: "m = (n, c)" by (cases m)
  obtain err1 d1 where e1: "extract_member target (n, c) d = (err1, d1)"
    by (cases "extract_member target (n, c) d")
  have step: "set (dict_keys d) \<subseteq> set (dict_keys d1) \<and> (dict_ok d \<longrightarrow> dict_ok d1) \<and>
      (\<forall>k\<in>set (dict_keys d1). k \<in> set (dict_keys d) \<or> (\<not> zip_is_dir n \<and> zip_arcname n = k \<and> k \<noteq> []))"
    using extract_member_cases [OF e1] by (auto simp: dict_keys_update split: if_splits)
  show ?case
  proof (cases err1)
    case (Some e)
    with Cons.prems m e1 step show ?thesis by auto
  next
    case None
    with Cons.prems m e1 have "extractall target ms d1 = (err, d')" by simp
    from Cons.IH [OF this] step m show ?thesis by fastforce
  qed
qed

text \<open>Extraction succeeds when no file member's name is reduced to nothing, and a
  property of every file in the folder and of every file member under its
  \<open>arcname\<close> holds of every file after.\<close>

lemma extractall_ok:
  assumes "\<forall>(n, c)\<in>set ms. \<not> zip_is_dir n \<longrightarrow> zip_arcname n \<noteq> [] \<and> P (zip_arcname n, c)"
    and "list_all P d"
  shows "\<exists>d'. extractall target ms d = (None, d') \<and> list_all P d'"
  using assms
proof (induction ms arbitrary: d)
  case Nil
  then show ?case by simp
next
  case (Cons m ms)
  obtain n c where m: "m = (n, c)" by (cases m)
  show ?case
  proof (cases "zip_is_dir n")
    case True
    with Cons m show ?thesis by (simp add: extract_member_def)
  next
    case False
    then have "zip_arcname n \<noteq> []" and "P (zip_arcname n, c)" using Cons.prems(1) m by auto
    moreover have "list_all P (AList.update (zip_arcname n) c d)"
      using Cons.prems(2) \<open>P (zip_arcname n, c)\<close> set_update_subset [of "zip_arcname n" c d]
      by (auto simp: list_all_iff)
    ultimately show ?thesis using Cons.IH [of "AList.update (zip_arcname n) c d"] Cons.prems(1) m False
      by (simp add: extract_member_def)
  qed
qed

lemma extractall_error:
  assumes "\<not> zip_is_dir n" and "zip_arcname n = []"
  shows "extractall target (ms @ (n, c) # ms') d =
     (case extractall target ms d of (Some e, d1) \<Rightarrow> (Some e, d1) | (None, d1) \<Rightarrow> (Some (IsADirectoryError target), d1))"
proof (induction ms arbitrary: d)
  case Nil
  with assms show ?case by (simp add: extract_member_def)
next
  case (Cons m ms)
  then show ?case by (simp split: prod.split option.split)
qed

lemma extractall_None_iff:
  "fst (extractall target ms d) = None \<longleftrightarrow> list_all (\<lambda>(n, c). zip_is_dir n \<or> zip_arcname n \<noteq> []) ms"
  by (induction ms arbitrary: d) (auto simp: extract_member_def split: prod.split option.split)

lemma extractall_Some: "fst (extractall target ms d) = Some e \<Longrightarrow> e = IsADirectoryError target"
  by (induction ms arbitrary: d) (auto simp: extract_member_def split: prod.splits option.splits if_splits)

text \<open>When it succeeds, extraction writes the file members under their arcnames,
  in order.\<close>

lemma extractall_success:
  "list_all (\<lambda>(n, c). zip_is_dir n \<or> zip_arcname n \<noteq> []) ms \<Longrightarrow>
   extractall target ms d =
     (None, fold (\<lambda>(k, v) d. AList.update k v d)
              (map (\<lambda>(n, c). (zip_arcname n, c)) (filter (\<lambda>(n, c). \<not> zip_is_dir n) ms)) d)"
  by (induction ms arbitrary: d) (auto simp: extract_member_def)

lemma ex_extractall:
  "extractall ''uploads/extracted''
     [(''/etc/'', 0::nat), (''../../evil.xml'', 1), (''a/./b//c.xml'', 2), (''..'', 3), (''d.xml'', 4)] [] =
   (Some (IsADirectoryError ''uploads/extracted''), [(''evil.xml'', 1), (''a/b/c.xml'', 2)])"
  by code_simp

end
