(* ===== verification/Server.thy ===== *)
theory Server
  imports Zip
begin

text \<open>
  The Flask handlers of \<^verbatim>\<open>src/app.py\<close> as operations on the state they share, the
  upload folder. \<open>uploads\<close> holds the files directly in \<^verbatim>\<open>uploads/\<close> by name,
  among them the sheet \<^verbatim>\<open>output.xlsx\<close> that processing writes there;
  \<open>extracted\<close> the files under \<^verbatim>\<open>uploads/extracted/\<close> by relative path, in the
  order they were first written, which \<open>os_walk\<close> (theory Walk) turns into the
  directories of the walk; and \<open>output_file\<close> records the table last written to
  the sheet. Nothing ever removes a file from \<open>extracted\<close>.
  The index route renders its template and changes nothing. The last group of
  definitions states conditions on the inputs of a session, for the progress
  property and its failure.
  \<^verbatim>\<open>secure_filename\<close> (werkzeug), the zip reader, the XML parser and the xlsx
  writer are libraries; they are parameters of the model, collected in \<open>env\<close>.
  \<^verbatim>\<open>extractall\<close> is modelled in theory Zip. A handler returns its response, or
  the exception that makes Flask answer with an error page, together with the state
  as the exception left it.
\<close>

text \<open>Lines 15--16. \<^verbatim>\<open>str.lower\<close> on ASCII letters; on the other characters of a
  string it may change, no result can become \<^verbatim>\<open>zip\<close> or \<^verbatim>\<open>xml\<close>, so the test
  is the same.\<close>

definition py_lower :: "string \<Rightarrow> string" where
  "py_lower s =
     map (\<lambda>c. let n = (of_char c :: nat) in if 65 \<le> n \<and> n \<le> 90 then char_of (n + 32) else c) s"

definition rsplit_dot_last :: "string \<Rightarrow> string" where
  "rsplit_dot_last s = rev (takeWhile (\<lambda>c. c \<noteq> CHR ''.'') (rev s))"

text \<open>Line 10, \<^verbatim>\<open>app.config['ALLOWED_EXTENSIONS']\<close>.\<close>

definition ALLOWED_EXTENSIONS :: "string set" where
  "ALLOWED_EXTENSIONS = {''zip'', ''xml''}"

definition allowed_file :: "string \<Rightarrow> bool" where
  "allowed_file filename \<longleftrightarrow>
     CHR ''.'' \<in> set filename \<and> py_lower (rsplit_dot_last filename) \<in> ALLOWED_EXTENSIONS"

record 'b server =
  uploads :: "(string, 'b) pydict"
  extracted :: "(string, 'b) pydict"
  output_file :: "(field list \<times> string option list list) option"

record 'b env =
  secure_filename :: "string \<Rightarrow> string"
  unzip :: "'b \<Rightarrow> (string \<times> 'b) list option"
  et_parse :: "'b \<Rightarrow> element option"
  to_excel :: "field list \<times> string option list list \<Rightarrow> 'b"

datatype response =
    RenderTemplate string
  | RedirectBack
  | RedirectProcess string
  | SendTable "field list \<times> string option list list"

text \<open>Line 9, \<^verbatim>\<open>app.config['UPLOAD_FOLDER']\<close>.\<close>

definition UPLOAD_FOLDER :: string where
  "UPLOAD_FOLDER = ''uploads''"

definition init_server :: "'b server" where
  "init_server = \<lparr>uploads = [], extracted = [], output_file = None\<rparr>"

text \<open>Lines 22--34; \<open>file\<close> is \<^verbatim>\<open>request.files['file']\<close> (name and content) when
  the form has it. \<^verbatim>\<open>file.save\<close> overwrites a file of the same name; a secure name
  that is empty names the folder itself.\<close>

definition upload_file ::
  "'b env \<Rightarrow> (string \<times> 'b) option \<Rightarrow> 'b server \<Rightarrow> response result \<times> 'b server" where
  "upload_file env file s =
     (case file of
        None \<Rightarrow> (Inr RedirectBack, s)
      | Some (name, content) \<Rightarrow>
          if name = [] then (Inr RedirectBack, s)
          else if allowed_file name then
            (let filename = secure_filename env name in
             if filename = [] then (Inl (IsADirectoryError (UPLOAD_FOLDER @ ''/'')), s)
             else (Inr (RedirectProcess filename),
                   s\<lparr>uploads := AList.update filename content (uploads s)\<rparr>))
          else (Inr RedirectBack, s))"

text \<open>Line 39, \<^verbatim>\<open>os.path.join(app.config['UPLOAD_FOLDER'], 'extracted')\<close>.\<close>

definition extract_folder :: string where
  "extract_folder = UPLOAD_FOLDER @ ''/'' @ ''extracted''"

text \<open>Lines 44--45: the archive is read (\<^verbatim>\<open>BadZipFile\<close> when it is not one)
  and its members extracted into the extraction folder (theory Zip), which keeps
  what was extracted before an error.\<close>

definition unzip_upload :: "'b env \<Rightarrow> 'b \<Rightarrow> 'b server \<Rightarrow> py_error option \<times> 'b server" where
  "unzip_upload env content s =
     (case unzip env content of
        None \<Rightarrow> (Some BadZipFile, s)
      | Some members \<Rightarrow>
          (case extractall extract_folder members (extracted s) of
             (err, d) \<Rightarrow> (err, s\<lparr>extracted := d\<rparr>)))"

text \<open>Line 47: \<^verbatim>\<open>os.rename\<close> removes the upload and overwrites a file of the
  same name in the extraction folder.\<close>

definition rename_upload :: "string \<Rightarrow> 'b \<Rightarrow> 'b server \<Rightarrow> 'b server" where
  "rename_upload filename content s =
     s\<lparr>uploads := AList.delete filename (uploads s),
       extracted := AList.update filename content (extracted s)\<rparr>"

text \<open>Lines 38--47: the uploaded file is unpacked into, or moved to, the extraction
  folder; a missing upload raises \<^verbatim>\<open>FileNotFoundError\<close> on either branch. The
  result is the exception, if any, and the state as it was left.\<close>

definition unpack_upload :: "'b env \<Rightarrow> string \<Rightarrow> 'b server \<Rightarrow> py_error option \<times> 'b server" where
  "unpack_upload env filename s =
     (case map_of (uploads s) filename of
        None \<Rightarrow> (Some (FileNotFoundError (UPLOAD_FOLDER @ ''/'' @ filename)), s)
      | Some content \<Rightarrow>
          if py_endswith filename ''.zip'' then unzip_upload env content s
          else (None, rename_upload filename content s))"

text \<open>Lines 58--59: \<^verbatim>\<open>df.to_excel\<close> writes the sheet to
  \<^verbatim>\<open>uploads/output.xlsx\<close>, a file of the upload folder, overwriting any file of
  that name. The field \<open>output_file\<close> records the table written last.\<close>

definition write_output ::
  "'b env \<Rightarrow> field list \<times> string option list list \<Rightarrow> 'b server \<Rightarrow> 'b server" where
  "write_output env tbl s =
     s\<lparr>uploads := AList.update ''output.xlsx'' (to_excel env tbl) (uploads s), output_file := Some tbl\<rparr>"

text \<open>Lines 36--61.\<close>

definition process_file :: "'b env \<Rightarrow> string \<Rightarrow> 'b server \<Rightarrow> response result \<times> 'b server" where
  "process_file env filename s =
     (case unpack_upload env filename s of
        (Some e, s1) \<Rightarrow> (Inl e, s1)
      | (None, s1) \<Rightarrow>
          (case collect_walk (et_parse env) (os_walk extract_folder (extracted s1)) [] of
             Inl e \<Rightarrow> (Inl e, s1)
           | Inr data \<Rightarrow>
               (Inr (SendTable (data_frame data)), write_output env (data_frame data) s1)))"

text \<open>Lines 18--20: the index page only renders its template.\<close>

definition index :: "'b server \<Rightarrow> response result \<times> 'b server" where
  "index s = (Inr (RenderTemplate ''index.html''), s)"

datatype 'b request = Index | Upload "(string \<times> 'b) option" | Process string

fun handle :: "'b env \<Rightarrow> 'b request \<Rightarrow> 'b server \<Rightarrow> response result \<times> 'b server" where
  "handle env Index s = index s"
| "handle env (Upload file) s = upload_file env file s"
| "handle env (Process filename) s = process_file env filename s"

fun run :: "'b env \<Rightarrow> 'b request list \<Rightarrow> 'b server \<Rightarrow> response result list \<times> 'b server" where
  "run env [] s = ([], s)"
| "run env (q # qs) s =
     (let (r, s1) = handle env q s; (rs, s2) = run env qs s1 in (r # rs, s2))"

inductive reachable :: "'b env \<Rightarrow> 'b server \<Rightarrow> bool" for env where
  init: "reachable env init_server"
| step: "reachable env s \<Longrightarrow> reachable env (snd (handle env q s))"

subsection \<open>Sample environment and documents\<close>

text \<open>An environment for concrete runs: contents are already parsed trees, the
  secure name is the name itself, every zip holds its content as one member, and every
  sheet is the same element (a sheet is never read: its name does not end in
  \<^verbatim>\<open>.xml\<close>).\<close>

definition ex_sheet :: element where
  "ex_sheet = Element ''xlsx'' None []"

definition ex_env :: "element env" where
  "ex_env = \<lparr>secure_filename = id, unzip = (\<lambda>e. Some [(''inner/x.xml'', e)]), et_parse = Some,
             to_excel = (\<lambda>_. ex_sheet)\<rparr>"

text \<open>The same environment with the real \<^verbatim>\<open>secure_filename\<close>.\<close>

definition wz_env :: "element env" where
  "wz_env = ex_env\<lparr>secure_filename := werkzeug_secure_filename\<rparr>"

text \<open>An archive that tries to write outside the extraction folder: an absolute
  directory, a member that climbs out with \<^verbatim>\<open>..\<close>, and a member named
  \<^verbatim>\<open>..\<close> alone.\<close>

definition ex_slip_env :: "element env" where
  "ex_slip_env = ex_env\<lparr>unzip := (\<lambda>e. Some [(''/etc/'', e), (''../../evil.xml'', e), (''..'', e)])\<rparr>"

definition ex_doc_a :: element where
  "ex_doc_a = Element ''HDon'' None [ex_invoice]"

definition ex_doc_b :: element where
  "ex_doc_b = Element ''HDon'' None [ex_plain_invoice]"

text \<open>Conditions on the inputs of a session, for the progress properties below:
  \<open>doc_ok\<close> holds of a file of the extraction folder that the walk does not read
  or that extracts without error, \<open>upload_ok\<close> of an upload whose content (the
  file members of an archive, each with a name that keeps a component, or the file
  itself) is all \<open>doc_ok\<close> under the path it will have, \<open>good_upload\<close> of a form submission that is accepted and stored.
  \<open>upload_session\<close> is a browser that follows each upload's redirect to
  \<^verbatim>\<open>/process/<filename>\<close>. \<open>keeps_path p\<close> holds of a request that cannot
  overwrite the extracted file \<open>p\<close>.\<close>

definition doc_ok :: "'b env \<Rightarrow> string \<times> 'b \<Rightarrow> bool" where
  "doc_ok env f \<longleftrightarrow> \<not> py_endswith (fst f) ''.xml'' \<or> \<not> isl (extract_all_info_from_xml (et_parse env) (snd f))"

definition folder_ok :: "'b env \<Rightarrow> (string, 'b) pydict \<Rightarrow> bool" where
  "folder_ok env d \<longleftrightarrow> list_all (doc_ok env) d"

definition zip_ok :: "'b env \<Rightarrow> (string \<times> 'b) list \<Rightarrow> bool" where
  "zip_ok env ms \<longleftrightarrow>
     list_all (\<lambda>(n, c). zip_is_dir n \<or> (zip_arcname n \<noteq> [] \<and> doc_ok env (zip_arcname n, c))) ms"

definition upload_ok :: "'b env \<Rightarrow> string \<Rightarrow> 'b \<Rightarrow> bool" where
  "upload_ok env f content \<longleftrightarrow>
     (if py_endswith f ''.zip''
      then (case unzip env content of None \<Rightarrow> False | Some ms \<Rightarrow> zip_ok env ms)
      else doc_ok env (f, content))"

definition good_upload :: "'b env \<Rightarrow> string \<times> 'b \<Rightarrow> bool" where
  "good_upload env u \<longleftrightarrow>
     (case u of (name, content) \<Rightarrow>
        name \<noteq> [] \<and> allowed_file name \<and> secure_filename env name \<noteq> [] \<and>
        upload_ok env (secure_filename env name) content)"

definition upload_session :: "'b env \<Rightarrow> (string \<times> 'b) list \<Rightarrow> 'b request list" where
  "upload_session env ups =
     concat (map (\<lambda>(name, content). [Upload (Some (name, content)), Process (secure_filename env name)]) ups)"

definition keeps_path :: "string \<Rightarrow> 'b request \<Rightarrow> bool" where
  "keeps_path p q = (case q of Process f \<Rightarrow> f \<noteq> p \<and> \<not> py_endswith f ''.zip'' | _ \<Rightarrow> True)"

definition is_process :: "'b request \<Rightarrow> bool" where
  "is_process q = (case q of Process f \<Rightarrow> True | _ \<Rightarrow> False)"

text \<open>A document whose invoice has no \<^verbatim>\<open>NDHDon\<close>: its extraction raises.\<close>

definition ex_doc_bad :: element where
  "ex_doc_bad = Element ''HDon'' None [ex_no_detail]"

lemmas server_run_defs = ex_env_def init_server_def upload_file_def process_file_def unpack_upload_def
  unzip_upload_def rename_upload_def write_output_def extract_folder_def UPLOAD_FOLDER_def py_endswith_def Let_def os_walk_flat

subsection \<open>Lemmas on the handlers\<close>

declare index_def [simp]

lemma UPLOAD_FOLDER_eq [simp]: "UPLOAD_FOLDER = ''uploads''"
  by (simp add: UPLOAD_FOLDER_def)

lemma extract_folder_eq [simp]: "extract_folder = ''uploads/extracted''"
  by (simp add: extract_folder_def)

lemma rsplit_dot_last_split:
  assumes "CHR ''.'' \<in> set s"
  shows "\<exists>p. s = p @ CHR ''.'' # rsplit_dot_last s \<and> CHR ''.'' \<notin> set (rsplit_dot_last s)"
proof -
  let ?P = "\<lambda>c. c \<noteq> CHR ''.''"
  have "dropWhile ?P (rev s) \<noteq> []"
    using assms by (simp add: dropWhile_eq_Nil_conv)
  then obtain d ds where d: "dropWhile ?P (rev s) = d # ds" by (cases "dropWhile ?P (rev s)") auto
  then have "d = CHR ''.''"
    using hd_dropWhile [of ?P "rev s"] by auto
  moreover have "rev s = takeWhile ?P (rev s) @ dropWhile ?P (rev s)" by simp
  ultimately have "s = rev ds @ CHR ''.'' # rsplit_dot_last s"
    using d by (metis rev.simps(2) rev_append rev_rev_ident rsplit_dot_last_def append.assoc append_Cons
        append_Nil)
  moreover have "CHR ''.'' \<notin> set (rsplit_dot_last s)"
    by (auto simp: rsplit_dot_last_def dest: set_takeWhileD)
  ultimately show ?thesis by blast
qed

lemma rsplit_dot_last_unique:
  assumes "CHR ''.'' \<notin> set e"
  shows "rsplit_dot_last (p @ CHR ''.'' # e) = e"
proof -
  have "\<And>x. x \<in> set (rev e) \<Longrightarrow> x \<noteq> CHR ''.''"
    using assms by auto
  then have "takeWhile (\<lambda>c. c \<noteq> CHR ''.'') (rev e @ CHR ''.'' # rev p) = rev e"
    using takeWhile_append2 [of "rev e" "\<lambda>c. c \<noteq> CHR ''.''" "CHR ''.'' # rev p"] by simp
  then show ?thesis by (simp add: rsplit_dot_last_def)
qed

text \<open>The three outcomes of unpacking an upload.\<close>

lemma unpack_upload_cases:
  assumes "unpack_upload env f s = (err, s1)"
  obtains (missing) "map_of (uploads s) f = None" "err = Some (FileNotFoundError (''uploads/'' @ f))" "s1 = s"
  | (zip) content where "map_of (uploads s) f = Some content" "py_endswith f ''.zip''"
      "unzip_upload env content s = (err, s1)"
  | (rename) content where "map_of (uploads s) f = Some content" "\<not> py_endswith f ''.zip''"
      "err = None" "s1 = rename_upload f content s"
  using assms by (cases "map_of (uploads s) f") (auto simp: unpack_upload_def split: if_splits)

lemma unzip_upload_folders:
  assumes "unzip_upload env content s = (err, s1)"
  shows "uploads s1 = uploads s \<and> output_file s1 = output_file s \<and>
         set (dict_keys (extracted s)) \<subseteq> set (dict_keys (extracted s1)) \<and>
         (dict_ok (extracted s) \<longrightarrow> dict_ok (extracted s1))"
proof (cases "unzip env content")
  case None
  with assms show ?thesis by (simp add: unzip_upload_def)
next
  case (Some ms)
  obtain err' d where x: "extractall extract_folder ms (extracted s) = (err', d)"
    by (cases "extractall extract_folder ms (extracted s)")
  with assms Some have "s1 = s\<lparr>extracted := d\<rparr>" by (simp add: unzip_upload_def)
  with extractall_keys [OF x] show ?thesis by simp
qed

lemma unpack_upload_folders:
  assumes "unpack_upload env f s = (err, s1)"
  shows "set (dict_keys (extracted s)) \<subseteq> set (dict_keys (extracted s1)) \<and>
         (dict_ok (uploads s) \<longrightarrow> dict_ok (uploads s1)) \<and>
         (dict_ok (extracted s) \<longrightarrow> dict_ok (extracted s1)) \<and> output_file s1 = output_file s"
  using assms
proof (cases rule: unpack_upload_cases)
  case missing
  then show ?thesis by simp
next
  case (zip content)
  then show ?thesis using unzip_upload_folders [of env content s err s1] by simp
next
  case (rename content)
  then show ?thesis by (auto simp: rename_upload_def dict_keys_update)
qed

text \<open>The outcomes of a processing request: the exception of unpacking, or of the
  walk, with the state as unpacking left it, or the table, written to the sheet.\<close>

lemma process_file_cases:
  assumes "process_file env f s = (r, s')"
  obtains (unpack) e where "unpack_upload env f s = (Some e, s')" "r = Inl e"
  | (walk) e where "unpack_upload env f s = (None, s')"
      "collect_walk (et_parse env) (os_walk ''uploads/extracted'' (extracted s')) [] = Inl e" "r = Inl e"
  | (table) s1 data where "unpack_upload env f s = (None, s1)"
      "collect_walk (et_parse env) (os_walk ''uploads/extracted'' (extracted s1)) [] = Inr data"
      "r = Inr (SendTable (data_frame data))" "s' = write_output env (data_frame data) s1"
proof -
  obtain err s1 where u: "unpack_upload env f s = (err, s1)" by (cases "unpack_upload env f s")
  show ?thesis
  proof (cases err)
    case (Some e)
    with u assms show ?thesis by (intro that(1)) (auto simp: process_file_def)
  next
    case None
    show ?thesis
    proof (cases "collect_walk (et_parse env) (os_walk ''uploads/extracted'' (extracted s1)) []")
      case (Inl e)
      with u None assms show ?thesis by (intro that(2)) (auto simp: process_file_def simp del: collect_walk.simps)
    next
      case (Inr data)
      with u None assms show ?thesis by (intro that(3)) (auto simp: process_file_def simp del: collect_walk.simps)
    qed
  qed
qed

lemma process_file_folders:
  "set (dict_keys (extracted s)) \<subseteq> set (dict_keys (extracted (snd (process_file env f s)))) \<and>
   (dict_ok (uploads s) \<longrightarrow> dict_ok (uploads (snd (process_file env f s)))) \<and>
   (dict_ok (extracted s) \<longrightarrow> dict_ok (extracted (snd (process_file env f s))))"
proof -
  obtain r s' where p: "process_file env f s = (r, s')" by (cases "process_file env f s")
  from p show ?thesis
  proof (cases rule: process_file_cases)
    case (unpack e)
    with p show ?thesis using unpack_upload_folders [OF unpack(1)] by simp
  next
    case (walk e)
    with p show ?thesis using unpack_upload_folders [OF walk(1)] by simp
  next
    case (table s1 data)
    with p show ?thesis using unpack_upload_folders [OF table(1)] by (simp add: write_output_def)
  qed
qed

lemma upload_file_folders:
  "extracted (snd (upload_file env u s)) = extracted s \<and>
   output_file (snd (upload_file env u s)) = output_file s \<and>
   (dict_ok (uploads s) \<longrightarrow> dict_ok (uploads (snd (upload_file env u s))))"
  by (simp add: upload_file_def Let_def split: option.split prod.split)

lemma process_file_output:
  "output_file (snd (process_file env f s)) = output_file s \<or>
   (\<exists>walk data. collect_walk (et_parse env) walk [] = Inr data \<and>
                output_file (snd (process_file env f s)) = Some (data_frame data))"
proof -
  obtain r s' where p: "process_file env f s = (r, s')" by (cases "process_file env f s")
  from p show ?thesis
  proof (cases rule: process_file_cases)
    case (unpack e)
    with p show ?thesis using unpack_upload_folders [OF unpack(1)] by simp
  next
    case (walk e)
    with p show ?thesis using unpack_upload_folders [OF walk(1)] by simp
  next
    case (table s1 data)
    with p show ?thesis by (auto simp: write_output_def)
  qed
qed

lemma handle_output:
  "output_file (snd (handle env q s)) = output_file s \<or>
   (\<exists>walk data. collect_walk (et_parse env) walk [] = Inr data \<and>
                output_file (snd (handle env q s)) = Some (data_frame data))"
  using upload_file_folders [of env _ s] process_file_output [of env _ s]
  by (cases q) auto

lemma handle_folders:
  "set (dict_keys (extracted s)) \<subseteq> set (dict_keys (extracted (snd (handle env q s)))) \<and>
   (dict_ok (uploads s) \<longrightarrow> dict_ok (uploads (snd (handle env q s)))) \<and>
   (dict_ok (extracted s) \<longrightarrow> dict_ok (extracted (snd (handle env q s))))"
  using upload_file_folders [of env _ s] process_file_folders [of s env]
  by (cases q) auto

lemma folder_ok_update: "folder_ok env d \<Longrightarrow> doc_ok env (k, v) \<Longrightarrow> folder_ok env (AList.update k v d)"
  using set_update_subset [of k v d] by (auto simp: folder_ok_def list_all_iff)

lemma folder_ok_walk:
  assumes "folder_ok env d"
  shows "\<exists>data. collect_walk (et_parse env) (os_walk root d) [] = Inr data"
proof -
  have "\<forall>c\<in>set (xml_documents [(root, d)]). \<not> isl (extract_all_info_from_xml (et_parse env) c)"
    using assms by (auto simp: xml_documents_def folder_ok_def list_all_iff doc_ok_def)
  then have "\<forall>c\<in>set (xml_documents (os_walk root d)). \<not> isl (extract_all_info_from_xml (et_parse env) c)"
    by (simp only: set_xml_documents_os_walk)
  then have "\<not> (\<exists>e. collect_walk (et_parse env) (os_walk root d) [] = Inl e)"
    unfolding collect_walk_Inl_iff by auto
  then show ?thesis by (cases "collect_walk (et_parse env) (os_walk root d) []") auto
qed

lemma doc_bad_walk:
  assumes "(p, c) \<in> set d" and "py_endswith p ''.xml''" and "isl (extract_all_info_from_xml (et_parse env) c)"
  shows "\<exists>e. collect_walk (et_parse env) (os_walk root d) [] = Inl e"
proof -
  have "c \<in> set (xml_documents [(root, d)])" using assms(1,2) by (force simp: xml_documents_def)
  then have "c \<in> set (xml_documents (os_walk root d))" by (simp only: set_xml_documents_os_walk)
  with assms(3) show ?thesis unfolding collect_walk_Inl_iff by (auto simp: isl_def)
qed

lemma unpack_upload_ok:
  assumes "folder_ok env (extracted s)" and "map_of (uploads s) f = Some content"
    and "upload_ok env f content"
  shows "\<exists>s1. unpack_upload env f s = (None, s1) \<and> folder_ok env (extracted s1)"
proof (cases "py_endswith f ''.zip''")
  case True
  then obtain ms where ms: "unzip env content = Some ms" and zok: "zip_ok env ms"
    using assms(3) by (auto simp: upload_ok_def split: option.splits)
  have "\<forall>(n, c)\<in>set ms. \<not> zip_is_dir n \<longrightarrow> zip_arcname n \<noteq> [] \<and> doc_ok env (zip_arcname n, c)"
    using zok by (auto simp: zip_ok_def list_all_iff)
  moreover have "list_all (doc_ok env) (extracted s)" using assms(1) by (simp add: folder_ok_def)
  ultimately obtain d where "extractall extract_folder ms (extracted s) = (None, d)" and "list_all (doc_ok env) d"
    using extractall_ok by blast
  with True ms assms(2) show ?thesis by (simp add: unpack_upload_def unzip_upload_def folder_ok_def)
next
  case False
  with assms show ?thesis
    by (simp add: unpack_upload_def rename_upload_def upload_ok_def folder_ok_update)
qed

lemma process_file_ok:
  assumes "folder_ok env (extracted s)" and "map_of (uploads s) f = Some content"
    and "upload_ok env f content"
  shows "\<exists>tbl. fst (process_file env f s) = Inr (SendTable tbl) \<and>
              folder_ok env (extracted (snd (process_file env f s)))"
proof -
  obtain s1 where s1: "unpack_upload env f s = (None, s1)" and ok: "folder_ok env (extracted s1)"
    using unpack_upload_ok [OF assms] by blast
  obtain data where "collect_walk (et_parse env) (os_walk ''uploads/extracted'' (extracted s1)) [] = Inr data"
    using folder_ok_walk [OF ok] by blast
  with s1 ok show ?thesis by (simp add: process_file_def write_output_def del: collect_walk.simps)
qed

lemma upload_file_good:
  assumes "good_upload env (name, content)"
  shows "upload_file env (Some (name, content)) s =
     (Inr (RedirectProcess (secure_filename env name)),
      s\<lparr>uploads := AList.update (secure_filename env name) content (uploads s)\<rparr>)"
  using assms by (simp add: good_upload_def upload_file_def Let_def)

lemma handle_poisoned:
  assumes "map_of (extracted s) p = Some c" and "py_endswith p ''.xml''"
    and "isl (extract_all_info_from_xml (et_parse env) c)" and "keeps_path p q"
  shows "map_of (extracted (snd (handle env q s))) p = Some c \<and> (is_process q \<longrightarrow> isl (fst (handle env q s)))"
proof (cases q)
  case Index
  with assms show ?thesis by (simp add: is_process_def)
next
  case (Upload u)
  with assms show ?thesis using upload_file_folders [of env u s] by (simp add: is_process_def)
next
  case (Process f)
  with assms(4) have f: "f \<noteq> p" "\<not> py_endswith f ''.zip''" by (simp_all add: keeps_path_def)
  obtain r s' where pr: "process_file env f s = (r, s')" by (cases "process_file env f s")
  obtain err s1 where u: "unpack_upload env f s = (err, s1)" by (cases "unpack_upload env f s")
  have m: "map_of (extracted s1) p = Some c"
    using u
  proof (cases rule: unpack_upload_cases)
    case missing
    with assms(1) show ?thesis by simp
  next
    case (zip content)
    with f show ?thesis by simp
  next
    case (rename content)
    with assms(1) f show ?thesis by (simp add: rename_upload_def)
  qed
  obtain e where "collect_walk (et_parse env) (os_walk ''uploads/extracted'' (extracted s1)) [] = Inl e"
    using doc_bad_walk [OF map_of_SomeD [OF m] assms(2,3)] by blast
  with u m Process show ?thesis
    by (cases err) (simp_all add: process_file_def is_process_def del: collect_walk.simps)
qed

lemma allowed_file_letter:
  assumes "allowed_file name"
  shows "\<exists>c\<in>set name. (65 \<le> (of_char c :: nat) \<and> (of_char c :: nat) \<le> 90) \<or>
                          (97 \<le> (of_char c :: nat) \<and> (of_char c :: nat) \<le> 122)"
proof -
  let ?e = "rsplit_dot_last name"
  have low: "py_lower ?e \<in> {''zip'', ''xml''}"
    using assms by (simp add: allowed_file_def ALLOWED_EXTENSIONS_def)
  then obtain c cs where e: "?e = c # cs" by (cases ?e) (auto simp: py_lower_def)
  have "c \<in> set name"
    using e by (metis list.set_intros(1) rsplit_dot_last_def set_rev set_takeWhileD)
  moreover have "(65 \<le> (of_char c :: nat) \<and> (of_char c :: nat) \<le> 90) \<or>
                 (97 \<le> (of_char c :: nat) \<and> (of_char c :: nat) \<le> 122)"
    using low e by (auto simp: py_lower_def Let_def split: if_splits)
  ultimately show ?thesis by blast
qed

lemma ex_doc_a_rows: "extract_all_info_from_xml Some ex_doc_a = Inr [projr (extract_hdon ex_invoice)]"
  by (simp add: extract_all_info_from_xml_def ex_doc_a_def extract_defs ex_defs)
lemma ex_doc_b_rows: "extract_all_info_from_xml Some ex_doc_b = Inr [projr (extract_hdon ex_plain_invoice)]"
  by (simp add: extract_all_info_from_xml_def ex_doc_b_def extract_defs ex_defs)

lemma ex_zip_member: "zip_arcname ''inner/x.xml'' = ''inner/x.xml''" "\<not> zip_is_dir ''inner/x.xml''"
  by code_simp+

lemma ex_zip_walk:
  "os_walk ''uploads/extracted'' [(''inner/x.xml'', ex_doc_a)] =
     [(''uploads/extracted'', []), (''uploads/extracted/inner'', [(''x.xml'', ex_doc_a)])]"
  by code_simp

text \<open>Paths that stay inside the upload folder: an upload's name is one clean
  component, every path of the extraction folder is clean (theory Zip).\<close>

lemma secure_name_clean:
  assumes "werkzeug_secure_filename n \<noteq> []"
  shows "clean_path (werkzeug_secure_filename n) \<and> CHR ''/'' \<notin> set (werkzeug_secure_filename n)"
proof -
  let ?k = "werkzeug_secure_filename n"
  have safe: "list_all fn_char ?k" "hd ?k \<noteq> CHR ''.''" using secure_filename_safe [of n] assms by auto
  have "\<not> fn_char CHR ''/''" by (simp add: fn_char_def)
  with safe(1) have slash: "CHR ''/'' \<notin> set ?k" by (auto simp: list_all_iff)
  have "?k \<notin> set invalid_path_parts" using assms safe(2) by (auto simp: invalid_path_parts_def)
  with slash show ?thesis by (simp add: clean_path_def split_path_no_slash_id)
qed

lemma dict_keys_delete_subset: "set (dict_keys (AList.delete k d)) \<subseteq> set (dict_keys d)"
  by (induction d) (auto simp: dict_keys_def)

lemma output_xlsx_clean: "clean_path ''output.xlsx'' \<and> CHR ''/'' \<notin> set ''output.xlsx''"
  by code_simp

abbreviation paths_inside :: "'b server \<Rightarrow> bool" where
  "paths_inside s \<equiv> list_all (\<lambda>k. clean_path k \<and> CHR ''/'' \<notin> set k) (dict_keys (uploads s)) \<and>
                    list_all clean_path (dict_keys (extracted s))"

lemma unpack_upload_paths:
  assumes "unpack_upload env f s = (err, s1)" and "paths_inside s"
  shows "paths_inside s1"
  using assms(1)
proof (cases rule: unpack_upload_cases)
  case missing
  with assms(2) show ?thesis by simp
next
  case (zip content)
  show ?thesis
  proof (cases "unzip env content")
    case None
    with zip assms(2) show ?thesis by (simp add: unzip_upload_def)
  next
    case (Some ms)
    obtain err' d where x: "extractall extract_folder ms (extracted s) = (err', d)"
      by (cases "extractall extract_folder ms (extracted s)")
    with zip Some have s1: "s1 = s\<lparr>extracted := d\<rparr>" by (simp add: unzip_upload_def)
    have "\<forall>k\<in>set (dict_keys d). clean_path k"
      using extractall_keys [OF x] assms(2) zip_arcname_clean by (fastforce simp: list_all_iff)
    with s1 assms(2) show ?thesis by (simp add: list_all_iff)
  qed
next
  case (rename content)
  then have "f \<in> set (dict_keys (uploads s))" by (force simp: dict_keys_def dest: map_of_SomeD)
  with rename assms(2) dict_keys_delete_subset [of f "uploads s"] show ?thesis
    by (auto simp: rename_upload_def list_all_iff dict_keys_update)
qed

lemma handle_paths:
  assumes "secure_filename env = werkzeug_secure_filename" and "paths_inside s"
  shows "paths_inside (snd (handle env q s))"
proof (cases q)
  case Index
  with assms show ?thesis by simp
next
  case (Upload u)
  then show ?thesis
    using assms secure_name_clean
    by (auto simp: upload_file_def Let_def list_all_iff dict_keys_update split: option.splits if_splits)
next
  case (Process f)
  obtain r s' where p: "process_file env f s = (r, s')" by (cases "process_file env f s")
  from p have "paths_inside s'"
  proof (cases rule: process_file_cases)
    case (unpack e)
    then show ?thesis using unpack_upload_paths assms(2) by blast
  next
    case (walk e)
    then show ?thesis using unpack_upload_paths assms(2) by blast
  next
    case (table s1 data)
    then have "paths_inside s1" using unpack_upload_paths assms(2) by blast
    with table(4) output_xlsx_clean show ?thesis
      by (auto simp: write_output_def list_all_iff dict_keys_update)
  qed
  with p Process show ?thesis by simp
qed

lemma reachable_dict_ok: "reachable env s \<Longrightarrow> dict_ok (uploads s) \<and> dict_ok (extracted s)"
proof (induction rule: reachable.induct)
  case init
  then show ?case by (simp add: init_server_def)
next
  case (step s q)
  then show ?case using handle_folders [of s env q] by blast
qed

text \<open>A successful processing of an archive: the archive stays, its file members are
  written under their arcnames, and the sheet of the walk is written.\<close>

lemma process_zip_table:
  assumes "process_file env f s = (Inr r, s')" and "py_endswith f ''.zip''"
  obtains content ms data where "map_of (uploads s) f = Some content" and "unzip env content = Some ms"
    and "list_all (\<lambda>(n, c). zip_is_dir n \<or> zip_arcname n \<noteq> []) ms"
    and "collect_walk (et_parse env) (os_walk ''uploads/extracted''
           (fold (\<lambda>(k, v) d. AList.update k v d)
              (map (\<lambda>(n, c). (zip_arcname n, c)) (filter (\<lambda>(n, c). \<not> zip_is_dir n) ms)) (extracted s))) [] = Inr data"
    and "r = SendTable (data_frame data)"
    and "s' = write_output env (data_frame data)
           (s\<lparr>extracted := fold (\<lambda>(k, v) d. AList.update k v d)
              (map (\<lambda>(n, c). (zip_arcname n, c)) (filter (\<lambda>(n, c). \<not> zip_is_dir n) ms)) (extracted s)\<rparr>)"
  using assms(1)
proof (cases rule: process_file_cases)
  case (table s1 data)
  from table(1) show ?thesis
  proof (cases rule: unpack_upload_cases)
    case (zip content)
    then obtain ms where ms: "unzip env content = Some ms"
      by (cases "unzip env content") (simp_all add: unzip_upload_def)
    obtain d where x: "extractall extract_folder ms (extracted s) = (None, d)" and s1: "s1 = s\<lparr>extracted := d\<rparr>"
      using zip(3) ms by (cases "extractall extract_folder ms (extracted s)") (simp add: unzip_upload_def)
    have ok: "list_all (\<lambda>(n, c). zip_is_dir n \<or> zip_arcname n \<noteq> []) ms"
      using extractall_None_iff [of extract_folder ms "extracted s"] x by simp
    from extractall_success [OF ok, of extract_folder "extracted s"] x s1 table ms zip(1) ok
    show ?thesis by (intro that) auto
  qed (use assms(2) in simp_all)
qed simp_all

subsection \<open>Properties of the handlers\<close>

text \<open>C17 (functional): allowed_file accepts exactly the names that end in a dot followed by a last component, free of dots, whose lower-case form is zip or xml; rsplit on the last dot is that decomposition.\<close>

theorem allowed_file_iff:
  "allowed_file s \<longleftrightarrow>
     (\<exists>p e. s = p @ CHR ''.'' # e \<and> CHR ''.'' \<notin> set e \<and> py_lower e \<in> {''zip'', ''xml''})"
proof
  assume "allowed_file s"
  then have dot: "CHR ''.'' \<in> set s" and low: "py_lower (rsplit_dot_last s) \<in> {''zip'', ''xml''}"
    by (simp_all add: allowed_file_def ALLOWED_EXTENSIONS_def)
  from rsplit_dot_last_split [OF dot] low
  show "\<exists>p e. s = p @ CHR ''.'' # e \<and> CHR ''.'' \<notin> set e \<and> py_lower e \<in> {''zip'', ''xml''}"
    by blast
next
  assume "\<exists>p e. s = p @ CHR ''.'' # e \<and> CHR ''.'' \<notin> set e \<and> py_lower e \<in> {''zip'', ''xml''}"
  then show "allowed_file s"
    by (auto simp: allowed_file_def ALLOWED_EXTENSIONS_def rsplit_dot_last_unique)
qed

text \<open>C18 (invariant): no sequence of requests removes a file from the extraction folder: every path present before is present after.\<close>

theorem extracted_never_shrinks:
  "set (dict_keys (extracted s)) \<subseteq> set (dict_keys (extracted (snd (run env qs s))))"
proof (induction qs arbitrary: s)
  case Nil
  then show ?case by simp
next
  case (Cons q qs)
  have "set (dict_keys (extracted s)) \<subseteq> set (dict_keys (extracted (snd (handle env q s))))"
    using handle_folders by blast
  also have "\<dots> \<subseteq> set (dict_keys (extracted (snd (run env qs (snd (handle env q s))))))"
    by (rule Cons.IH)
  finally show ?case by (simp add: split_def Let_def)
qed

text \<open>C19 (invariant): with werkzeug's secure_filename, in every state reachable by requests from the start, every file of the upload folder has a single clean name (no slash, not empty, . or ..) and every path of the extraction folder is clean: no sequence of uploads, archives and processing requests ever writes a file outside uploads/. Proved by rule induction over the reachable states.\<close>

theorem requests_stay_in_upload_folder:
  assumes "secure_filename env = werkzeug_secure_filename" and "reachable env s"
  shows "list_all (\<lambda>k. clean_path k \<and> CHR ''/'' \<notin> set k) (dict_keys (uploads s)) \<and>
         list_all clean_path (dict_keys (extracted s))"
  using assms(2)
proof (induction rule: reachable.induct)
  case init
  then show ?case by (simp add: init_server_def dict_keys_def)
next
  case (step s q)
  then show ?case using handle_paths [OF assms(1)] by blast
qed

text \<open>C20 (safety): a successful processing request returns a table containing the rows of every XML file in the extraction folder, not only of the file it was asked to process.\<close>

theorem output_covers_extracted_folder:
  assumes "process_file env f s = (Inr (SendTable tbl), s')"
    and "(p, c) \<in> set (extracted s')" and "py_endswith p ''.xml''"
    and "extract_all_info_from_xml (et_parse env) c = Inr rs"
  shows "\<exists>data pre post. tbl = data_frame data \<and> data = pre @ rs @ post"
  using assms(1)
proof (cases rule: process_file_cases)
  case (table s1 data)
  have "(p, c) \<in> set (filter (\<lambda>f. py_endswith (fst f) ''.xml'') (extracted s1))"
    using assms(2,3) table(4) by (simp add: write_output_def)
  then have "snd (p, c) \<in> snd ` set (filter (\<lambda>f. py_endswith (fst f) ''.xml'') (extracted s1))"
    by (rule imageI)
  then have "c \<in> set (xml_documents [(''uploads/extracted'', extracted s1)])"
    by (simp add: xml_documents_def)
  then have c: "c \<in> set (xml_documents (os_walk ''uploads/extracted'' (extracted s1)))"
    by (simp add: set_xml_documents_os_walk)
  have agg: "aggregate (et_parse env) (xml_documents (os_walk ''uploads/extracted'' (extracted s1))) = Inr data"
    using table(2) by (simp add: collect_walk_aggregate)
  obtain pre post where "data = pre @ rs @ post"
    using aggregate_contains [OF agg c assms(4)] by blast
  with table(3) show ?thesis by auto
qed simp_all

text \<open>C22 (errors): processing the same uploaded file, not an archive, a second time fails with FileNotFoundError, since the first request moved it out of the upload folder; the one exception is output.xlsx, which every successful processing writes again into the upload folder.\<close>

theorem reprocess_same_xml_fails:
  assumes "process_file env f s = (Inr r, s')" and "\<not> py_endswith f ''.zip''" and "f \<noteq> ''output.xlsx''"
  shows "fst (process_file env f s') = Inl (FileNotFoundError (''uploads/'' @ f))"
  using assms(1)
proof (cases rule: process_file_cases)
  case (table s1 data)
  from table(1) have "uploads s1 = AList.delete f (uploads s)"
  proof (cases rule: unpack_upload_cases)
    case (rename content)
    then show ?thesis by (simp add: rename_upload_def)
  qed (use assms(2) in simp_all)
  with table(4) assms(3) have "map_of (uploads s') f = None"
    by (simp add: write_output_def AList.delete_conv')
  then show ?thesis by (simp add: process_file_def unpack_upload_def)
qed simp_all

text \<open>C23 (functional): an upload that redirects to processing was of an allowed name, stored its content under the secure name, and did not touch the extraction folder; an upload whose name is not allowed changes nothing and redirects back to the form.\<close>

theorem upload_stores_file:
  "(upload_file env (Some (name, c)) s = (Inr (RedirectProcess fn), s') \<longrightarrow>
      allowed_file name \<and> fn = secure_filename env name \<and> map_of (uploads s') fn = Some c \<and>
      extracted s' = extracted s) \<and>
   (\<not> allowed_file name \<longrightarrow> upload_file env (Some (name, c)) s = (Inr RedirectBack, s))"
  by (auto simp: upload_file_def Let_def split: if_splits)

theorem requests_stay_in_upload_folder_witness:
  "snd (handle wz_env (Process ''etc_passwd.xml'')
     (snd (handle wz_env (Upload (Some (''../../etc/passwd.xml'', ex_doc_a))) init_server))) =
     \<lparr>uploads = [(''output.xlsx'', ex_sheet)], extracted = [(''etc_passwd.xml'', ex_doc_a)],
      output_file = Some (data_frame [projr (extract_hdon ex_invoice)])\<rparr> \<and>
   list_all (\<lambda>k. clean_path k \<and> CHR ''/'' \<notin> set k) [''output.xlsx''] \<and>
   list_all clean_path [''etc_passwd.xml'']"
proof -
  let ?s = "snd (handle wz_env (Process ''etc_passwd.xml'')
     (snd (handle wz_env (Upload (Some (''../../etc/passwd.xml'', ex_doc_a))) init_server)))"
  have r: "reachable wz_env ?s" by (rule reachable.step [OF reachable.step [OF reachable.init]])
  have wz: "secure_filename wz_env = werkzeug_secure_filename" by (simp add: wz_env_def ex_env_def)
  have a: "allowed_file ''../../etc/passwd.xml''" by code_simp
  have w: "werkzeug_secure_filename ''../../etc/passwd.xml'' = ''etc_passwd.xml''" by code_simp
  have st: "?s = \<lparr>uploads = [(''output.xlsx'', ex_sheet)], extracted = [(''etc_passwd.xml'', ex_doc_a)],
      output_file = Some (data_frame [projr (extract_hdon ex_invoice)])\<rparr>"
    using a w ex_doc_a_rows by (simp add: server_run_defs wz_env_def)
  from requests_stay_in_upload_folder [OF wz r] st show ?thesis by (simp add: dict_keys_def)
qed

text \<open>C21 (functional): a successful processing request writes the served table, through to_excel, to output.xlsx in the upload folder itself. Processing output.xlsx is then accepted like an upload: the previous sheet is moved into the extraction folder, where it stays, the walk skips it, and processing succeeds again, writing a new sheet.\<close>

theorem output_sheet_reprocessed:
  assumes "process_file env f s = (Inr (SendTable tbl), s')"
  shows "map_of (uploads s') ''output.xlsx'' = Some (to_excel env tbl) \<and>
    (\<exists>tbl'. process_file env ''output.xlsx'' s' =
       (Inr (SendTable tbl'), write_output env tbl' (rename_upload ''output.xlsx'' (to_excel env tbl) s')))"
  using assms
proof (cases rule: process_file_cases)
  case (table s1 data)
  let ?sheet = "to_excel env (data_frame data)"
  let ?s2 = "rename_upload ''output.xlsx'' ?sheet s'"
  have up: "map_of (uploads s') ''output.xlsx'' = Some ?sheet" using table(4) by (simp add: write_output_def)
  have u2: "unpack_upload env ''output.xlsx'' s' = (None, ?s2)"
    using up by (simp add: unpack_upload_def py_endswith_def)
  have ext: "extracted s' = extracted s1" using table(4) by (simp add: write_output_def)
  have "\<not> (\<exists>e. collect_walk (et_parse env) (os_walk ''uploads/extracted'' (extracted ?s2)) [] = Inl e)"
  proof
    assume "\<exists>e. collect_walk (et_parse env) (os_walk ''uploads/extracted'' (extracted ?s2)) [] = Inl e"
    then obtain c where c: "c \<in> set (xml_documents [(''uploads/extracted'', extracted ?s2)])"
      and bad: "\<exists>e. extract_all_info_from_xml (et_parse env) c = Inl e"
      unfolding collect_walk_Inl_iff set_xml_documents_os_walk by blast
    have "c \<in> set (xml_documents [(''uploads/extracted'', extracted s1)])"
      using c set_update_subset [of "''output.xlsx''" ?sheet "extracted s1"] ext
      by (auto simp: xml_documents_def rename_upload_def py_endswith_def)
    then have "\<exists>e. collect_walk (et_parse env) (os_walk ''uploads/extracted'' (extracted s1)) [] = Inl e"
      using bad unfolding collect_walk_Inl_iff set_xml_documents_os_walk by blast
    with table(2) show False by simp
  qed
  then obtain data' where "collect_walk (et_parse env) (os_walk ''uploads/extracted'' (extracted ?s2)) [] = Inr data'"
    by (cases "collect_walk (et_parse env) (os_walk ''uploads/extracted'' (extracted ?s2)) []") auto
  with u2 have "process_file env ''output.xlsx'' s' =
      (Inr (SendTable (data_frame data')), write_output env (data_frame data') ?s2)"
    by (simp add: process_file_def del: collect_walk.simps)
  with up table(3) assms show ?thesis by auto
qed simp_all

theorem output_covers_extracted_folder_witness:
  "\<exists>tbl data pre post. process_file ex_env ''b.xml''
      \<lparr>uploads = [(''b.xml'', ex_doc_b)], extracted = [(''a.xml'', ex_doc_a)], output_file = None\<rparr>
      = (Inr (SendTable tbl), \<lparr>uploads = [(''output.xlsx'', ex_sheet)], extracted = [(''a.xml'', ex_doc_a), (''b.xml'', ex_doc_b)],
                               output_file = Some tbl\<rparr>) \<and>
    tbl = data_frame data \<and> data = pre @ [projr (extract_hdon ex_invoice)] @ post"
proof -
  let ?tbl = "data_frame [projr (extract_hdon ex_invoice), projr (extract_hdon ex_plain_invoice)]"
  have run: "process_file ex_env ''b.xml''
      \<lparr>uploads = [(''b.xml'', ex_doc_b)], extracted = [(''a.xml'', ex_doc_a)], output_file = None\<rparr>
      = (Inr (SendTable ?tbl), \<lparr>uploads = [(''output.xlsx'', ex_sheet)], extracted = [(''a.xml'', ex_doc_a), (''b.xml'', ex_doc_b)],
                               output_file = Some ?tbl\<rparr>)"
    using ex_doc_a_rows ex_doc_b_rows by (simp add: server_run_defs)
  have "(''a.xml'', ex_doc_a) \<in> set (extracted
          \<lparr>uploads = [(''output.xlsx'', ex_sheet)], extracted = [(''a.xml'', ex_doc_a), (''b.xml'', ex_doc_b)], output_file = Some ?tbl\<rparr>)"
    and "py_endswith ''a.xml'' ''.xml''"
    and "extract_all_info_from_xml (et_parse ex_env) ex_doc_a = Inr [projr (extract_hdon ex_invoice)]"
    using ex_doc_a_rows by (simp_all add: ex_env_def py_endswith_def)
  from output_covers_extracted_folder [OF run this] run show ?thesis by blast
qed

theorem reprocess_same_xml_fails_witness:
  "fst (process_file ex_env ''a.xml''
          (snd (process_file ex_env ''a.xml''
                  \<lparr>uploads = [(''a.xml'', ex_doc_a)], extracted = [], output_file = None\<rparr>))) =
   Inl (FileNotFoundError ''uploads/a.xml'')"
proof -
  let ?s = "\<lparr>uploads = [(''a.xml'', ex_doc_a)], extracted = [], output_file = None\<rparr>"
  have "process_file ex_env ''a.xml'' ?s =
     (Inr (SendTable (data_frame [projr (extract_hdon ex_invoice)])),
      \<lparr>uploads = [(''output.xlsx'', ex_sheet)], extracted = [(''a.xml'', ex_doc_a)],
       output_file = Some (data_frame [projr (extract_hdon ex_invoice)])\<rparr>)"
    using ex_doc_a_rows by (simp add: server_run_defs)
  moreover have "\<not> py_endswith ''a.xml'' ''.zip''" by (simp add: py_endswith_def)
  moreover have "''a.xml'' \<noteq> ''output.xlsx''" by simp
  ultimately show ?thesis
    using reprocess_same_xml_fails [of ex_env "''a.xml''" ?s] by simp
qed

theorem upload_stores_file_witness:
  "map_of (uploads (snd (upload_file ex_env (Some (''a.xml'', ex_doc_a)) init_server))) ''a.xml'' =
     Some ex_doc_a \<and>
   upload_file ex_env (Some (''invoice.pdf'', ex_doc_a)) init_server = (Inr RedirectBack, init_server)"
proof -
  have "allowed_file ''a.xml''" by code_simp
  then have up: "upload_file ex_env (Some (''a.xml'', ex_doc_a)) init_server =
      (Inr (RedirectProcess ''a.xml''), \<lparr>uploads = [(''a.xml'', ex_doc_a)], extracted = [], output_file = None\<rparr>)"
    by (simp add: server_run_defs)
  have rej: "\<not> allowed_file ''invoice.pdf''" by code_simp
  from upload_stores_file [of ex_env "''a.xml''" ex_doc_a init_server] up
  have "map_of (uploads (snd (upload_file ex_env (Some (''a.xml'', ex_doc_a)) init_server))) ''a.xml'' = Some ex_doc_a"
    by simp
  moreover from upload_stores_file [of ex_env "''invoice.pdf''" ex_doc_a init_server] rej
  have "upload_file ex_env (Some (''invoice.pdf'', ex_doc_a)) init_server = (Inr RedirectBack, init_server)"
    by simp
  ultimately show ?thesis ..
qed

text \<open>C31 (liveness): from any state whose extraction folder holds only readable documents, a browser session that uploads accepted, readable files and follows each redirect to the processing page gets every request answered without error: a redirect for each upload and a table for each processing request.\<close>

theorem upload_session_served:
  assumes "folder_ok env (extracted s)" and "list_all (good_upload env) ups"
  shows "\<exists>tbls. length tbls = length ups \<and>
    fst (run env (upload_session env ups) s) =
      concat (map2 (\<lambda>(name, content) t. [Inr (RedirectProcess (secure_filename env name)), Inr (SendTable t)])
                   ups tbls)"
  using assms
proof (induction ups arbitrary: s)
  case Nil
  then show ?case by (simp add: upload_session_def)
next
  case (Cons u ups)
  obtain name content where u: "u = (name, content)" by (cases u)
  let ?f = "secure_filename env name"
  let ?s1 = "s\<lparr>uploads := AList.update ?f content (uploads s)\<rparr>"
  have good: "good_upload env (name, content)" using Cons.prems(2) u by simp
  then have up: "upload_file env (Some (name, content)) s = (Inr (RedirectProcess ?f), ?s1)"
    by (rule upload_file_good)
  have "upload_ok env ?f content" using good by (simp add: good_upload_def)
  then obtain tbl where tbl: "fst (process_file env ?f ?s1) = Inr (SendTable tbl)"
    and ok: "folder_ok env (extracted (snd (process_file env ?f ?s1)))"
    using process_file_ok [of env ?s1 ?f content] Cons.prems(1) by auto
  obtain tbls where "length tbls = length ups" and
    rest: "fst (run env (upload_session env ups) (snd (process_file env ?f ?s1))) =
      concat (map2 (\<lambda>(name, content) t. [Inr (RedirectProcess (secure_filename env name)), Inr (SendTable t)])
                   ups tbls)"
    using Cons.IH [OF ok] Cons.prems(2) by auto
  then show ?case
    using up tbl u
    by (intro exI [of _ "tbl # tbls"]) (simp add: upload_session_def split_def Let_def)
qed
theorem upload_session_served_witness:
  "\<exists>tbls. length tbls = length [(''a.xml'', ex_doc_a), (''b.xml'', ex_doc_b)] \<and>
    fst (run ex_env (upload_session ex_env [(''a.xml'', ex_doc_a), (''b.xml'', ex_doc_b)]) init_server) =
      concat (map2 (\<lambda>(name, content) t. [Inr (RedirectProcess (secure_filename ex_env name)), Inr (SendTable t)])
                   [(''a.xml'', ex_doc_a), (''b.xml'', ex_doc_b)] tbls)"
proof -
  have "allowed_file ''a.xml''" "allowed_file ''b.xml''" by code_simp+
  then have "list_all (good_upload ex_env) [(''a.xml'', ex_doc_a), (''b.xml'', ex_doc_b)]"
    using ex_doc_a_rows ex_doc_b_rows
    by (simp add: good_upload_def upload_ok_def doc_ok_def ex_env_def py_endswith_def)
  moreover have "folder_ok ex_env (extracted init_server)" by (simp add: folder_ok_def init_server_def)
  ultimately show ?thesis using upload_session_served by blast
qed

text \<open>C32 (errors): once the extraction folder holds an XML file whose extraction raises, every later processing request fails, whatever is uploaded, as long as no request overwrites that file: the folder is never cleared, so one bad upload blocks the service.\<close>

theorem bad_document_blocks_processing:
  assumes "map_of (extracted s) p = Some c" and "py_endswith p ''.xml''"
    and "isl (extract_all_info_from_xml (et_parse env) c)" and "list_all (keeps_path p) qs"
  shows "list_all (\<lambda>(q, r). is_process q \<longrightarrow> isl r) (zip qs (fst (run env qs s)))"
  using assms(1,4)
proof (induction qs arbitrary: s)
  case Nil
  then show ?case by simp
next
  case (Cons q qs)
  have h: "map_of (extracted (snd (handle env q s))) p = Some c \<and> (is_process q \<longrightarrow> isl (fst (handle env q s)))"
    using handle_poisoned [OF Cons.prems(1) assms(2,3)] Cons.prems(2) by simp
  then have "list_all (\<lambda>(q, r). is_process q \<longrightarrow> isl r) (zip qs (fst (run env qs (snd (handle env q s)))))"
    using Cons.IH Cons.prems(2) by simp
  with h show ?case by (simp add: split_def Let_def)
qed

theorem bad_document_blocks_processing_witness:
  "run ex_env [Upload (Some (''good.xml'', ex_doc_a)), Process ''good.xml'', Index]
     \<lparr>uploads = [], extracted = [(''bad.xml'', ex_doc_bad)], output_file = None\<rparr> =
   ([Inr (RedirectProcess ''good.xml''), Inl (AttributeError ''NDHDon'' ''find''), Inr (RenderTemplate ''index.html'')],
    \<lparr>uploads = [], extracted = [(''bad.xml'', ex_doc_bad), (''good.xml'', ex_doc_a)], output_file = None\<rparr>) \<and>
   list_all (\<lambda>(q, r). is_process q \<longrightarrow> isl r)
     (zip [Upload (Some (''good.xml'', ex_doc_a)), Process ''good.xml'', Index]
        (fst (run ex_env [Upload (Some (''good.xml'', ex_doc_a)), Process ''good.xml'', Index]
          \<lparr>uploads = [], extracted = [(''bad.xml'', ex_doc_bad)], output_file = None\<rparr>)))"
proof -
  have bad: "extract_all_info_from_xml Some ex_doc_bad = Inl (AttributeError ''NDHDon'' ''find'')"
    by (simp add: extract_all_info_from_xml_def ex_doc_bad_def extract_defs ex_defs)
  have g: "allowed_file ''good.xml''" by code_simp
  show ?thesis
  proof
    show "run ex_env [Upload (Some (''good.xml'', ex_doc_a)), Process ''good.xml'', Index]
     \<lparr>uploads = [], extracted = [(''bad.xml'', ex_doc_bad)], output_file = None\<rparr> =
     ([Inr (RedirectProcess ''good.xml''), Inl (AttributeError ''NDHDon'' ''find''), Inr (RenderTemplate ''index.html'')],
      \<lparr>uploads = [], extracted = [(''bad.xml'', ex_doc_bad), (''good.xml'', ex_doc_a)], output_file = None\<rparr>)"
      using g bad ex_doc_a_rows by (simp add: server_run_defs)
  next
    show "list_all (\<lambda>(q, r). is_process q \<longrightarrow> isl r)
     (zip [Upload (Some (''good.xml'', ex_doc_a)), Process ''good.xml'', Index]
        (fst (run ex_env [Upload (Some (''good.xml'', ex_doc_a)), Process ''good.xml'', Index]
          \<lparr>uploads = [], extracted = [(''bad.xml'', ex_doc_bad)], output_file = None\<rparr>)))"
      by (rule bad_document_blocks_processing [where p = "''bad.xml''" and c = ex_doc_bad])
         (simp_all add: bad ex_env_def keeps_path_def py_endswith_def)
  qed
qed

text \<open>C33 (safety): with werkzeug's secure_filename, every name an upload adds to the upload folder consists of letters, digits, underscore, dot and hyphen only and neither starts nor ends with a dot or an underscore: it holds no path separator and is not the current or parent directory, so no upload is written outside the upload folder. Every upload whose name passes allowed_file is stored under a non-empty secure name and redirects to its processing page: the IsADirectoryError branch of upload_file is unreachable with the real library.\<close>

theorem upload_name_safe:
  assumes "secure_filename env = werkzeug_secure_filename"
  shows "(\<forall>k\<in>set (dict_keys (uploads (snd (upload_file env u s)))) - set (dict_keys (uploads s)).
            list_all fn_char k \<and> k \<noteq> [] \<and> hd k \<notin> {CHR ''.'', CHR ''_''} \<and> last k \<notin> {CHR ''.'', CHR ''_''}) \<and>
         (allowed_file name \<longrightarrow> werkzeug_secure_filename name \<noteq> [] \<and>
            upload_file env (Some (name, content)) s =
              (Inr (RedirectProcess (werkzeug_secure_filename name)),
               s\<lparr>uploads := AList.update (werkzeug_secure_filename name) content (uploads s)\<rparr>))"
proof
  show "\<forall>k\<in>set (dict_keys (uploads (snd (upload_file env u s)))) - set (dict_keys (uploads s)).
          list_all fn_char k \<and> k \<noteq> [] \<and> hd k \<notin> {CHR ''.'', CHR ''_''} \<and> last k \<notin> {CHR ''.'', CHR ''_''}"
  proof
    fix k
    assume "k \<in> set (dict_keys (uploads (snd (upload_file env u s)))) - set (dict_keys (uploads s))"
    then obtain name where k: "k = werkzeug_secure_filename name" and ne: "k \<noteq> []"
      using assms
      by (auto simp: upload_file_def Let_def dict_keys_update split: option.splits if_splits)
    then show "list_all fn_char k \<and> k \<noteq> [] \<and> hd k \<notin> {CHR ''.'', CHR ''_''} \<and> last k \<notin> {CHR ''.'', CHR ''_''}"
      using secure_filename_safe [of name] by simp
  qed
next
  show "allowed_file name \<longrightarrow> werkzeug_secure_filename name \<noteq> [] \<and>
          upload_file env (Some (name, content)) s =
            (Inr (RedirectProcess (werkzeug_secure_filename name)),
             s\<lparr>uploads := AList.update (werkzeug_secure_filename name) content (uploads s)\<rparr>)"
  proof
    assume a: "allowed_file name"
    obtain c where "c \<in> set name" and "(65 \<le> (of_char c :: nat) \<and> (of_char c :: nat) \<le> 90) \<or>
                            (97 \<le> (of_char c :: nat) \<and> (of_char c :: nat) \<le> 122)"
      using allowed_file_letter [OF a] by blast
    then have ne: "werkzeug_secure_filename name \<noteq> []" by (rule ascii_letter_kept)
    have "name \<noteq> []" using a by (auto simp: allowed_file_def)
    with ne a assms show "werkzeug_secure_filename name \<noteq> [] \<and>
          upload_file env (Some (name, content)) s =
            (Inr (RedirectProcess (werkzeug_secure_filename name)),
             s\<lparr>uploads := AList.update (werkzeug_secure_filename name) content (uploads s)\<rparr>)"
      by (simp add: upload_file_def Let_def)
  qed
qed

theorem upload_name_safe_witness:
  "list_all fn_char ''etc_passwd.xml'' \<and> ''etc_passwd.xml'' \<noteq> [] \<and>
   hd ''etc_passwd.xml'' \<notin> {CHR ''.'', CHR ''_''} \<and> last ''etc_passwd.xml'' \<notin> {CHR ''.'', CHR ''_''} \<and>
   upload_file wz_env (Some (''../inv.XML'', ex_doc_a)) init_server =
     (Inr (RedirectProcess ''inv.XML''), init_server\<lparr>uploads := [(''inv.XML'', ex_doc_a)]\<rparr>)"
proof -
  have a: "allowed_file ''../../etc/passwd.xml''" by code_simp
  have w: "werkzeug_secure_filename ''../../etc/passwd.xml'' = ''etc_passwd.xml''" by code_simp
  have a2: "allowed_file ''../inv.XML''" by code_simp
  have w2: "werkzeug_secure_filename ''../inv.XML'' = ''inv.XML''" by code_simp
  have wz: "secure_filename wz_env = werkzeug_secure_filename" by (simp add: wz_env_def ex_env_def)
  note safe = upload_name_safe [OF wz, of "Some (''../../etc/passwd.xml'', ex_doc_a)" init_server "''../inv.XML''" ex_doc_a]
  have "''etc_passwd.xml'' \<in>
      set (dict_keys (uploads (snd (upload_file wz_env (Some (''../../etc/passwd.xml'', ex_doc_a)) init_server)))) -
      set (dict_keys (uploads (init_server :: element server)))"
    using a w by (simp add: upload_file_def wz_env_def ex_env_def init_server_def dict_keys_def Let_def)
  from bspec [OF conjunct1 [OF safe] this]
  have "list_all fn_char ''etc_passwd.xml'' \<and> ''etc_passwd.xml'' \<noteq> [] \<and>
    hd ''etc_passwd.xml'' \<notin> {CHR ''.'', CHR ''_''} \<and> last ''etc_passwd.xml'' \<notin> {CHR ''.'', CHR ''_''}" .
  moreover have "upload_file wz_env (Some (''../inv.XML'', ex_doc_a)) init_server =
     (Inr (RedirectProcess ''inv.XML''), init_server\<lparr>uploads := [(''inv.XML'', ex_doc_a)]\<rparr>)"
    using conjunct2 [OF safe] a2 w2 by (simp add: init_server_def)
  ultimately show ?thesis by blast
qed

text \<open>C34 (safety): unpacking an uploaded archive leaves the archive in the upload folder and adds to the extraction folder only the arcnames of its file members: non-empty paths none of whose components is empty, . or .., so no member is written outside the extraction folder and no directory member becomes a file. The extraction fails, with IsADirectoryError on the folder, exactly when some file member's name has no proper component left.\<close>

theorem zip_extraction_stays_inside:
  assumes "map_of (uploads s) f = Some content" and "py_endswith f ''.zip''"
    and "unzip env content = Some ms" and "unpack_upload env f s = (err, s1)"
  shows "uploads s1 = uploads s \<and>
    (\<forall>k\<in>set (dict_keys (extracted s1)). k \<in> set (dict_keys (extracted s)) \<or>
       (\<exists>(n, c)\<in>set ms. \<not> zip_is_dir n \<and> k = zip_arcname n \<and> k \<noteq> [] \<and> clean_path k)) \<and>
    (err = None \<longleftrightarrow> list_all (\<lambda>(n, c). zip_is_dir n \<or> zip_arcname n \<noteq> []) ms) \<and>
    (err \<noteq> None \<longrightarrow> err = Some (IsADirectoryError ''uploads/extracted''))"
proof -
  obtain d where x: "extractall extract_folder ms (extracted s) = (err, d)" and s1: "s1 = s\<lparr>extracted := d\<rparr>"
    using assms by (cases "extractall extract_folder ms (extracted s)")
      (simp add: unpack_upload_def unzip_upload_def)
  have "\<forall>k\<in>set (dict_keys d). k \<in> set (dict_keys (extracted s)) \<or>
       (\<exists>(n, c)\<in>set ms. \<not> zip_is_dir n \<and> k = zip_arcname n \<and> k \<noteq> [] \<and> clean_path k)"
    using extractall_keys [OF x] zip_arcname_clean by fastforce
  moreover have "err = None \<longleftrightarrow> list_all (\<lambda>(n, c). zip_is_dir n \<or> zip_arcname n \<noteq> []) ms"
    using extractall_None_iff [of extract_folder ms "extracted s"] x by simp
  moreover have "err \<noteq> None \<longrightarrow> err = Some (IsADirectoryError ''uploads/extracted'')"
    using extractall_Some [of extract_folder ms "extracted s"] x by auto
  ultimately show ?thesis using s1 by simp
qed

text \<open>The sheet of a first processing request is moved into the extraction folder
  by a request to process output.xlsx, which serves the same rows again.\<close>

theorem output_sheet_reprocessed_witness:
  "map_of (uploads (snd (process_file ex_env ''a.xml''
      \<lparr>uploads = [(''a.xml'', ex_doc_a)], extracted = [], output_file = None\<rparr>))) ''output.xlsx'' =
     Some ex_sheet \<and>
   process_file ex_env ''output.xlsx''
     (snd (process_file ex_env ''a.xml'' \<lparr>uploads = [(''a.xml'', ex_doc_a)], extracted = [], output_file = None\<rparr>)) =
     (Inr (SendTable (data_frame [projr (extract_hdon ex_invoice)])),
      \<lparr>uploads = [(''output.xlsx'', ex_sheet)], extracted = [(''a.xml'', ex_doc_a), (''output.xlsx'', ex_sheet)],
       output_file = Some (data_frame [projr (extract_hdon ex_invoice)])\<rparr>)"
proof -
  let ?s = "\<lparr>uploads = [(''a.xml'', ex_doc_a)], extracted = [], output_file = None\<rparr>"
  let ?tbl = "data_frame [projr (extract_hdon ex_invoice)]"
  have p1: "process_file ex_env ''a.xml'' ?s =
     (Inr (SendTable ?tbl),
      \<lparr>uploads = [(''output.xlsx'', ex_sheet)], extracted = [(''a.xml'', ex_doc_a)], output_file = Some ?tbl\<rparr>)"
    using ex_doc_a_rows by (simp add: server_run_defs)
  obtain tbl' where p2: "process_file ex_env ''output.xlsx'' (snd (process_file ex_env ''a.xml'' ?s)) =
      (Inr (SendTable tbl'), write_output ex_env tbl'
         (rename_upload ''output.xlsx'' (to_excel ex_env ?tbl) (snd (process_file ex_env ''a.xml'' ?s))))"
    and m: "map_of (uploads (snd (process_file ex_env ''a.xml'' ?s))) ''output.xlsx'' = Some (to_excel ex_env ?tbl)"
    using output_sheet_reprocessed [of ex_env "''a.xml''" ?s ?tbl] p1 by auto
  have "process_file ex_env ''output.xlsx'' (snd (process_file ex_env ''a.xml'' ?s)) =
     (Inr (SendTable ?tbl),
      \<lparr>uploads = [(''output.xlsx'', ex_sheet)], extracted = [(''a.xml'', ex_doc_a), (''output.xlsx'', ex_sheet)],
       output_file = Some ?tbl\<rparr>)"
    using p1 ex_doc_a_rows by (simp add: server_run_defs ex_sheet_def)
  with m show ?thesis by (simp add: ex_env_def)
qed

theorem zip_extraction_stays_inside_witness:
  "uploads (snd (unpack_upload ex_slip_env ''x.zip''
      \<lparr>uploads = [(''x.zip'', ex_doc_a)], extracted = [], output_file = None\<rparr>)) = [(''x.zip'', ex_doc_a)] \<and>
   unpack_upload ex_slip_env ''x.zip'' \<lparr>uploads = [(''x.zip'', ex_doc_a)], extracted = [], output_file = None\<rparr> =
     (Some (IsADirectoryError ''uploads/extracted''),
      \<lparr>uploads = [(''x.zip'', ex_doc_a)], extracted = [(''evil.xml'', ex_doc_a)], output_file = None\<rparr>) \<and>
   clean_path ''evil.xml''"
proof -
  let ?s = "\<lparr>uploads = [(''x.zip'', ex_doc_a)], extracted = [], output_file = None\<rparr>"
  let ?ms = "[(''/etc/'', ex_doc_a), (''../../evil.xml'', ex_doc_a), (''..'', ex_doc_a)]"
  have names: "zip_is_dir ''/etc/''" "\<not> zip_is_dir ''../../evil.xml''" "zip_arcname ''../../evil.xml'' = ''evil.xml''"
    "\<not> zip_is_dir ''..''" "zip_arcname ''..'' = []" by code_simp+
  have u: "unpack_upload ex_slip_env ''x.zip'' ?s =
     (Some (IsADirectoryError ''uploads/extracted''),
      \<lparr>uploads = [(''x.zip'', ex_doc_a)], extracted = [(''evil.xml'', ex_doc_a)], output_file = None\<rparr>)"
    using names by (simp add: ex_slip_env_def ex_env_def unpack_upload_def unzip_upload_def extract_member_def
        py_endswith_def)
  have "map_of (uploads ?s) ''x.zip'' = Some ex_doc_a" and "py_endswith ''x.zip'' ''.zip''"
    and "unzip ex_slip_env ex_doc_a = Some ?ms" by (simp_all add: ex_slip_env_def ex_env_def py_endswith_def)
  note inside = zip_extraction_stays_inside [OF this u]
  then have "''evil.xml'' \<in> set (dict_keys [(''evil.xml'', ex_doc_a)])" and
    "\<forall>k\<in>set (dict_keys [(''evil.xml'', ex_doc_a)]). k \<in> set (dict_keys ([] :: (string \<times> element) list)) \<or>
       (\<exists>(n, c)\<in>set ?ms. \<not> zip_is_dir n \<and> k = zip_arcname n \<and> k \<noteq> [] \<and> clean_path k)"
    by (simp_all add: dict_keys_def)
  then have "clean_path ''evil.xml''" by (auto simp: dict_keys_def)
  with u inside show ?thesis by simp
qed

text \<open>C35 (functional): in a reachable state, processing an uploaded archive again right after it succeeded gives the same response and changes nothing: the archive stays in the upload folder, its members are written again under the same paths with the same contents, and the same sheet is written again. Contrast C22, where an XML upload has been moved away.\<close>

theorem zip_reprocessing_idempotent:
  assumes "reachable env s" and "py_endswith f ''.zip''" and "process_file env f s = (Inr r, s')"
  shows "process_file env f s' = (Inr r, s')"
  using assms(3,2)
proof (cases rule: process_zip_table)
  case (1 content ms data)
  let ?xs = "map (\<lambda>(n, c). (zip_arcname n, c)) (filter (\<lambda>(n, c). \<not> zip_is_dir n) ms)"
  let ?d1 = "fold (\<lambda>(k, v) d. AList.update k v d) ?xs (extracted s)"
  have ok: "dict_ok (extracted s)" using reachable_dict_ok [OF assms(1)] by simp
  have f: "f \<noteq> ''output.xlsx''" using assms(2) by (auto simp: py_endswith_def)
  have up: "map_of (uploads s') f = Some content" and ext: "extracted s' = ?d1"
    and out: "map_of (uploads s') ''output.xlsx'' = Some (to_excel env (data_frame data))"
    and of: "output_file s' = Some (data_frame data)"
    using 1 f by (simp_all add: write_output_def)
  have "extractall extract_folder ms (extracted s') = (None, ?d1)"
    using extractall_success [OF 1(3), of extract_folder "extracted s'"] ext fold_update_idem [OF ok, of ?xs]
    by simp
  then have "unpack_upload env f s' = (None, s')"
    using up assms(2) 1(2) ext by (simp add: unpack_upload_def unzip_upload_def)
  moreover have "write_output env (data_frame data) s' = s'"
    using out of by (simp add: write_output_def update_same)
  ultimately show ?thesis using 1(4,5) ext by (simp add: process_file_def del: collect_walk.simps)
qed

theorem zip_reprocessing_idempotent_witness:
  "process_file ex_env ''data.zip''
     \<lparr>uploads = [(''data.zip'', ex_doc_a), (''output.xlsx'', ex_sheet)], extracted = [(''inner/x.xml'', ex_doc_a)],
      output_file = Some (data_frame [projr (extract_hdon ex_invoice)])\<rparr> =
   (Inr (SendTable (data_frame [projr (extract_hdon ex_invoice)])),
    \<lparr>uploads = [(''data.zip'', ex_doc_a), (''output.xlsx'', ex_sheet)], extracted = [(''inner/x.xml'', ex_doc_a)],
     output_file = Some (data_frame [projr (extract_hdon ex_invoice)])\<rparr>)"
proof -
  let ?s = "snd (handle ex_env (Upload (Some (''data.zip'', ex_doc_a))) init_server)"
  have r: "reachable ex_env ?s" by (rule reachable.step [OF reachable.init])
  have a: "allowed_file ''data.zip''" by code_simp
  have run: "process_file ex_env ''data.zip'' ?s =
     (Inr (SendTable (data_frame [projr (extract_hdon ex_invoice)])),
      \<lparr>uploads = [(''data.zip'', ex_doc_a), (''output.xlsx'', ex_sheet)], extracted = [(''inner/x.xml'', ex_doc_a)],
       output_file = Some (data_frame [projr (extract_hdon ex_invoice)])\<rparr>)"
    using a ex_doc_a_rows ex_zip_walk ex_zip_member by (simp add: server_run_defs extract_member_def)
  have z: "py_endswith ''data.zip'' ''.zip''" by (simp add: py_endswith_def)
  from zip_reprocessing_idempotent [OF r z run] show ?thesis .
qed

end
