(* ===== verification/Spec2Isabelle.thy ===== *)
theory Spec2Isabelle
  imports Server
begin

text \<open>
  \<^bold>\<open>A verified model of the invoice extractor of sonkate/extract_xml.\<close>

  The program (\<^verbatim>\<open>src/app.py\<close>, one Flask application) accepts an uploaded XML
  file or zip archive of Vietnamese e-invoices, stores it in \<^verbatim>\<open>uploads/\<close>, moves
  or unpacks it into \<^verbatim>\<open>uploads/extracted/\<close>, walks that folder, extracts one row
  of nine named fields from every \<^verbatim>\<open>DLHDon\<close> element of every \<^verbatim>\<open>.xml\<close> file
  (\<^verbatim>\<open>extract_all_info_from_xml\<close>), and returns the rows as a spreadsheet built
  by pandas. The parts and the theories that model them, in the order of the imports:

  \<^item> \<^bold>\<open>Prelude\<close>: the Python runtime the code relies on. Exceptions are the
    datatype \<open>py_error\<close>, and a statement that may raise is sequenced with
    \<open>bind_res\<close> in the error monad \<open>py_error + 'a\<close>. A dict is an
    insertion-ordered association list updated with \<open>AList.update\<close> (\<^verbatim>\<open>d[k] = v\<close>).
    The prelude also defines \<^verbatim>\<open>str.endswith\<close> (\<open>py_endswith\<close>, shown equal to
    \<open>suffix\<close>) and the first-seen order of pandas columns (\<open>first_seen\<close>), with
    the shared lemmas in the collection \<open>py_simps\<close>.
  \<^item> \<^bold>\<open>XmlTree\<close>: the part of \<^verbatim>\<open>xml.etree.ElementTree\<close> the code uses: an
    element with tag, optional text and children, \<^verbatim>\<open>find\<close>/\<^verbatim>\<open>findall\<close> on
    direct children. It also holds the code's idioms \<^verbatim>\<open>x.find(t)\<close>,
    \<^verbatim>\<open>x.text\<close> and \<^verbatim>\<open>x.find(t).text if x.find(t) is not None else None\<close> on
    an \<open>x\<close> that may be \<open>None\<close> (\<open>attr_find\<close>, \<open>attr_text\<close>,
    \<open>leaf_text\<close>), with the \<open>AttributeError\<close> raised on \<open>None\<close>.
  \<^item> \<^bold>\<open>Invoice\<close>: the record extractor, lines 63--95. \<open>read_ttchung\<close> (lines
    69--75), \<open>scan_ttin\<close>/\<open>read_ttkhac\<close> (77--85), \<open>read_ndhdon\<close> (87--93),
    composed in \<open>extract_hdon\<close>; the loop \<open>extract_loop\<close> and
    \<open>extract_all_info_from_xml\<close>, whose \<^verbatim>\<open>ET.parse\<close> is a parameter. The
    specification's data model is the record \<open>invoice_src\<close>, read from the tree by
    \<open>read_src\<close> (structure errors are \<open>None\<close>) and mapped to columns by
    \<open>row_spec\<close>. Claims C1--C12: refinement of \<open>row_spec\<close>, the exact success
    condition, one row per element in order, and the field rules (concatenated number,
    seller tax code, last bank entry, equal settlement and disbursed amounts, key order
    of the dict). The error paths are: missing detail subtree, null number part,
    malformed side-list entry, and fail-fast over a document. \<open>field\<close> is an
    instance of the library class \<open>enum\<close>. \<open>render_src\<close> encodes a
    specification record as an invoice element; C28 is the round trip through the
    extractor. C29 bounds every row to between seven and nine columns.
  \<^item> \<^bold>\<open>SecureFilename\<close>: werkzeug's \<^verbatim>\<open>secure_filename\<close> (called at line 30),
    modelled from the library's POSIX source as \<open>werkzeug_secure_filename\<close>, with
    the Python string methods it uses, and the lemmas that the secure name is made of
    safe characters and keeps every ASCII letter of the name.
  \<^item> \<^bold>\<open>Aggregate\<close>: the \<^verbatim>\<open>os.walk\<close> loop of \<^verbatim>\<open>process_file\<close> (lines 49--55,
    \<open>collect_files\<close>, \<open>collect_walk\<close>) and \<^verbatim>\<open>pd.DataFrame(data)\<close> (line 57,
    \<open>data_frame\<close>, from the pandas contract). C13 shows the loop equal to the
    specification's aggregator \<open>aggregate\<close>. C14--C16 cover discovery order, fail-fast
    and the empty corpus. C30 bounds the table to between seven
    and nine columns. The loop takes the list of directories the walk yields.
  \<^item> \<^bold>\<open>Walk\<close>: \<^verbatim>\<open>os.walk(extract_folder)\<close> (line 50), modelled from its
    Python 3.12 source as a \<open>while_option\<close> loop over a stack of directories
    (\<open>os_walk_loop\<close>, \<open>walk_step\<close>, \<open>os_walk\<close>). A directory's listing is read
    off the paths of the flat extraction folder. The loop terminates on every
    folder, by a multiset ordering on directory heights, and yields each file of the
    folder exactly once. C26: the extraction loop of \<^verbatim>\<open>process_file\<close> over
    the walk computes the aggregator over a permutation of the folder's \<^verbatim>\<open>.xml\<close>
    files.
  \<^item> \<^bold>\<open>Zip\<close>: \<^verbatim>\<open>zip_ref.extractall(extract_folder)\<close> (line 45),
    modelled from the source of \<^verbatim>\<open>ZipFile._extract_member\<close>: member names lose
    their empty, \<^verbatim>\<open>.\<close> and \<^verbatim>\<open>..\<close> components (\<open>zip_arcname\<close>),
    directory members write no file (\<open>zip_is_dir\<close>), and a file member with
    nothing left raises \<open>IsADirectoryError\<close> after the members before it were
    written (\<open>extract_member\<close>, \<open>extractall\<close>).
  \<^item> \<^bold>\<open>Server\<close>: \<^verbatim>\<open>allowed_file\<close>, \<^verbatim>\<open>upload_file\<close> and
    \<^verbatim>\<open>process_file\<close> (lines 15--61), with \<^verbatim>\<open>index\<close> (lines 18--20) and
    \<^verbatim>\<open>ALLOWED_EXTENSIONS\<close> (line 10), as handlers on the record \<open>server\<close> of the
    upload folder, the extraction folder and the last table written. Processing is
    \<open>unpack_upload\<close> (lines 38--47: \<open>unzip_upload\<close> or \<open>rename_upload\<close>,
    returning the exception, if any, with the state as it was left), the walk and
    \<open>write_output\<close> (lines 58--59), which writes the sheet into the upload folder
    itself. Requests are the datatype
    \<open>request\<close>, run in sequence by \<open>run\<close>, and the reachable states are the
    inductive \<open>reachable\<close>. \<^verbatim>\<open>secure_filename\<close>, the zip reader, the XML
    parser and \<^verbatim>\<open>to_excel\<close> are the parameters in \<open>env\<close>; \<open>process_file\<close> walks the extraction
    folder with \<open>os_walk\<close>. C17--C23 cover the extension test, the
    extraction folder that never shrinks, the invariant that no request ever writes a
    file outside the upload folder (C19, by rule induction over the reachable states,
    with the real \<^verbatim>\<open>secure_filename\<close>), that the output covers the whole extraction folder, the sheet
    written into the upload folder and processed again as an upload (C21), the
    failing second processing of the same file, and the upload rules (stored when
    accepted, nothing changed when rejected). C31 is progress:
    from a clean extraction folder, every session of good uploads that follows its
    redirects is served, each upload with a redirect and each processing request with
    a table. C32 is its failure: one extracted file that fails blocks every later
    processing request that does not overwrite it. With the real
    \<^verbatim>\<open>secure_filename\<close>, no upload is written outside the upload folder, and
    every allowed upload gets a non-empty name and is stored (C33). No member of an
    uploaded archive is written outside the extraction folder, and the archive stays
    in the upload folder (C34). Processing an archive a second time gives the same
    response and leaves the state unchanged (C35).
  \<^item> this theory: properties that span the components, C24, C25 and C27. The sheet
    has no bank columns when no invoice has a side list (C24). An upload whose stored
    name does not end in lower-case \<^verbatim>\<open>.xml\<close> or \<^verbatim>\<open>.zip\<close> is never read
    (C25). End to end, every row of a served table is the specification's row of an
    invoice element of an XML file of the extraction folder (C27).

  Every loop of the program but one iterates over a finite list (children of an
  element, files of a directory, directories of a walk, requests of a run), so those
  functions are structurally recursive and total. The exception is the stack loop of
  \<^verbatim>\<open>os.walk\<close>, which pushes while it pops. It is a \<open>while_option\<close>, whose
  value \<open>None\<close> would mean non-termination; the lemma \<open>os_walk_loop_mset\<close>
  (theory Walk) proves it always \<open>Some\<close>, with an empty stack. No
  fuel is needed, and each claim about a result holds outright, not only in case the
  loop returns.

  Not modelled: the Flask transport (routing, \<^verbatim>\<open>request\<close> parsing, redirects
  beyond their target), the template \<^verbatim>\<open>index.html\<close> (the index route only names
  it), the xlsx encoding of
  \<^verbatim>\<open>to_excel\<close> (a parameter: the sheet's bytes) and \<^verbatim>\<open>send_file\<close>. These
  are I/O with no logic of the program's own. The libraries \<^verbatim>\<open>secure_filename\<close>,
  the zip reader and the XML parser are parameters of the server model; the
  extraction of \<^verbatim>\<open>zipfile\<close> is modelled (theory Zip). \<^verbatim>\<open>secure_filename\<close> is also modelled
  on its own (POSIX only, and NFKD exact only on ASCII), and the claims that need it
  assume the parameter is that model. The listing order of \<^verbatim>\<open>os.scandir\<close> is
  the file system's; the model takes the order in which the paths were first written.
  The folders are maps from file paths to contents, and a directory exists only as a
  prefix of a path: empty directories (those of directory members) are not kept, and
  a path that is a file for one write and a directory for another, where the file
  system raises \<^verbatim>\<open>NotADirectoryError\<close>, \<^verbatim>\<open>IsADirectoryError\<close> or
  \<^verbatim>\<open>FileExistsError\<close>, is not modelled; with werkzeug's names an upload never
  holds a slash. Symbolic links are not modelled. Concurrent requests are not modelled: requests
  are handled one after another.

  What modelling showed, against the specification (\<^verbatim>\<open>spec.md\<close>):
  \<^item> a null series or number raises \<open>TypeError\<close> instead of degrading (C10);
  \<^item> the summary tax code is lost when the seller has no MST (C6);
  \<^item> bank fields are omitted, not null, and can vanish from the sheet (C8, C24);
  \<^item> a malformed side-list entry raises even when its name is unrecognised (C11);
  \<^item> the extraction folder is never cleared, so every table repeats all earlier
    uploads (C20), and processing the same XML file twice fails (C22);
  \<^item> the sheet is written into the upload folder, so \<^verbatim>\<open>/process/output.xlsx\<close>
    succeeds and moves the previous sheet into the extraction folder (C21);
  \<^item> an archive is never removed from the upload folder, unlike an XML upload,
    and its members can only land inside the extraction folder (C34);
  \<^item> upper-case \<^verbatim>\<open>.XML\<close>/\<^verbatim>\<open>.ZIP\<close> uploads are accepted but never
    read (C25);
  \<^item> one upload whose XML fails blocks all later processing, because the fail-fast
    aggregator reruns over the never-cleared folder (C32);
  \<^item> the extension is checked on the raw name but used on the secured one, so
    \<^verbatim>\<open>_.xml\<close> is accepted, stored as \<^verbatim>\<open>xml\<close> and never read (C25).
\<close>


text \<open>C24 (functional): when no invoice of the processed folder has a side list, the output sheet has no bank account and no bank name column at all, rather than empty ones.\<close>

theorem sheet_without_bank_columns:
  assumes "collect_walk parse walk [] = Inr data"
    and "\<forall>d\<in>set (xml_documents walk). \<forall>root. parse d = Some root \<longrightarrow>
           (\<forall>h\<in>set (elem_findall root ''DLHDon''). \<forall>t. elem_find h ''TTChung'' = Some t \<longrightarrow>
              elem_find t ''TTKhac'' = None)"
  shows "So_Tai_Khoan \<notin> set (fst (data_frame data)) \<and> Tai_Ngan_Hang \<notin> set (fst (data_frame data))"
proof -
  have "So_Tai_Khoan \<notin> set (dict_keys r) \<and> Tai_Ngan_Hang \<notin> set (dict_keys r)" if r: "r \<in> set data" for r
  proof -
    obtain d rs where d: "d \<in> set (xml_documents walk)" and rs: "extract_all_info_from_xml parse d = Inr rs"
      and rin: "r \<in> set rs"
      using collect_walk_row_origin [OF assms(1) r] by blast
    then obtain root h where root: "parse d = Some root" and h: "h \<in> set (elem_findall root ''DLHDon'')"
      and hr: "extract_hdon h = Inr r"
      using extract_all_row_origin [OF rs rin] by blast
    obtain t where t: "elem_find h ''TTChung'' = Some t"
      using hr by (rule extract_hdon_InrE) blast
    have "elem_find t ''TTKhac'' = None"
      using assms(2) d root h t by simp
    with t extract_hdon_keys [OF hr] show ?thesis by auto
  qed
  then show ?thesis
    by (auto simp: data_frame_def Let_def df_columns_keys)
qed

theorem sheet_without_bank_columns_witness:
  "fst (data_frame (projr (collect_walk Some [(''uploads/extracted'', [(''b.xml'', ex_doc_b)])] []))) =
   [Loai_Hoa_Don, So_Hoa_Don, Ngay_Hoa_Don, Ma_So_Thue, Nguoi_Thu_Huong, Gia_Tri_Hoa_Don,
    So_Tien_Giai_Ngan]"
proof -
  have run: "collect_walk Some [(''uploads/extracted'', [(''b.xml'', ex_doc_b)])] [] =
      Inr [projr (extract_hdon ex_plain_invoice)]"
    using ex_doc_b_rows by (simp add: py_endswith_def)
  have "\<forall>d\<in>set (xml_documents [(''uploads/extracted'', [(''b.xml'', ex_doc_b)])]). \<forall>root. Some d = Some root \<longrightarrow>
           (\<forall>h\<in>set (elem_findall root ''DLHDon''). \<forall>t. elem_find h ''TTChung'' = Some t \<longrightarrow>
              elem_find t ''TTKhac'' = None)"
    by (simp add: xml_documents_def py_endswith_def ex_doc_b_def ex_defs elem_find_def elem_findall_def)
  from sheet_without_bank_columns [OF run this] run show ?thesis
    by (simp add: extract_defs ex_defs data_frame_def df_columns_def dict_keys_def)
qed

text \<open>C25 (functional): the extension tests of process_file are case-sensitive and made on the stored name, so an upload whose name does not end in lower-case .xml or .zip (INV.XML and DATA.ZIP, which allowed_file accepts, or xml, which werkzeug makes of _.xml) is moved into the extraction folder and never read: a successful processing request serves the aggregate of exactly the XML documents the folder held before, each once.\<close>

theorem upload_without_lowercase_suffix_ignored:
  assumes "process_file env f s = (Inr (SendTable tbl), s')"
    and "\<not> py_endswith f ''.xml''" and "\<not> py_endswith f ''.zip''"
  shows "\<exists>docs data. mset docs = mset (map snd (filter (\<lambda>f. py_endswith (fst f) ''.xml'') (extracted s))) \<and>
           aggregate (et_parse env) docs = Inr data \<and> tbl = data_frame data"
  using assms(1)
proof (cases rule: process_file_cases)
  case (table s1 data)
  have "\<exists>content. s1 = rename_upload f content s"
    using table(1)
  proof (cases rule: unpack_upload_cases)
    case (rename content)
    then show ?thesis by blast
  qed (use assms(3) in simp_all)
  then obtain content where s1: "s1 = rename_upload f content s" by blast
  let ?docs = "xml_documents (os_walk ''uploads/extracted'' (extracted s1))"
  have "mset ?docs = mset (xml_documents [(''uploads/extracted'', extracted s1)])"
    by (rule os_walk_xml_documents)
  also have "\<dots> = mset (map snd (filter (\<lambda>f. py_endswith (fst f) ''.xml'') (extracted s)))"
    using s1 assms(2) by (simp add: xml_documents_def rename_upload_def filter_endswith_update)
  finally have m: "mset ?docs = mset (map snd (filter (\<lambda>f. py_endswith (fst f) ''.xml'') (extracted s)))" .
  have "aggregate (et_parse env) ?docs = Inr data" using table(2) by (simp add: collect_walk_aggregate)
  with m table(3) show ?thesis by auto
qed simp_all

theorem upload_without_lowercase_suffix_ignored_witness:
  "allowed_file ''INV.XML'' \<and> allowed_file ''DATA.ZIP'' \<and> werkzeug_secure_filename ''_.xml'' = ''xml'' \<and>
   (\<exists>docs data. mset docs = mset [ex_doc_a] \<and> aggregate Some docs = Inr data \<and>
      data_frame [projr (extract_hdon ex_invoice)] = data_frame data)"
proof -
  have a: "allowed_file ''INV.XML''" "allowed_file ''DATA.ZIP''" by code_simp+
  have w: "werkzeug_secure_filename ''_.xml'' = ''xml''" by code_simp
  have run: "process_file ex_env ''INV.XML''
      \<lparr>uploads = [(''INV.XML'', ex_doc_b)], extracted = [(''a.xml'', ex_doc_a)], output_file = None\<rparr> =
     (Inr (SendTable (data_frame [projr (extract_hdon ex_invoice)])),
      \<lparr>uploads = [(''output.xlsx'', ex_sheet)], extracted = [(''a.xml'', ex_doc_a), (''INV.XML'', ex_doc_b)],
       output_file = Some (data_frame [projr (extract_hdon ex_invoice)])\<rparr>)"
    using ex_doc_a_rows by (simp add: server_run_defs)
  have "\<not> py_endswith ''INV.XML'' ''.xml''" "\<not> py_endswith ''INV.XML'' ''.zip''"
    by (simp_all add: py_endswith_def)
  from upload_without_lowercase_suffix_ignored [OF run this] a w show ?thesis
    by (simp add: ex_env_def py_endswith_def)
qed

text \<open>C27 (refinement): every row of a table served by a successful processing request
  is the specification's row, row_spec (read_src h), of an invoice element h of a
  parsed XML document of the extraction folder: end to end, the served sheet consists
  of the specification's rows of the folder's own invoices.\<close>

theorem served_rows_refine_spec:
  assumes "process_file env f s = (Inr (SendTable tbl), s')"
  shows "\<exists>data. tbl = data_frame data \<and>
     (\<forall>r\<in>set data. \<exists>p c root h v. (p, c) \<in> set (extracted s') \<and> py_endswith p ''.xml'' \<and>
        et_parse env c = Some root \<and> h \<in> set (elem_findall root ''DLHDon'') \<and>
        read_src h = Some v \<and> map_of r = row_spec v)"
  using assms
proof (cases rule: process_file_cases)
  case (table s1 data)
  have "\<exists>p c root h v. (p, c) \<in> set (extracted s') \<and> py_endswith p ''.xml'' \<and>
        et_parse env c = Some root \<and> h \<in> set (elem_findall root ''DLHDon'') \<and>
        read_src h = Some v \<and> map_of r = row_spec v" if r: "r \<in> set data" for r
  proof -
    obtain d rs where d: "d \<in> set (xml_documents (os_walk ''uploads/extracted'' (extracted s1)))"
      and rs: "extract_all_info_from_xml (et_parse env) d = Inr rs" and rin: "r \<in> set rs"
      using collect_walk_row_origin [OF table(2) r] by blast
    have "d \<in> set (xml_documents [(''uploads/extracted'', extracted s1)])"
      using d by (simp only: set_xml_documents_os_walk)
    then obtain p where pc: "(p, d) \<in> set (extracted s1)" and px: "py_endswith p ''.xml''"
      by (auto simp: xml_documents_def)
    obtain root h where root: "et_parse env d = Some root" and h: "h \<in> set (elem_findall root ''DLHDon'')"
      and hr: "extract_hdon h = Inr r"
      using extract_all_row_origin [OF rs rin] by blast
    obtain v where "read_src h = Some v" and "map_of r = row_spec v"
      using extract_hdon_refines [OF hr] by blast
    moreover have "(p, d) \<in> set (extracted s')" using pc table(4) by (simp add: write_output_def)
    ultimately show ?thesis using px root h by blast
  qed
  with table(3) show ?thesis by auto
qed simp_all

theorem served_rows_refine_spec_witness:
  "\<exists>data. data_frame [projr (extract_hdon ex_invoice)] = data_frame data \<and>
     (\<forall>r\<in>set data. \<exists>p c root h v. (p, c) \<in> set [(''a.xml'', ex_doc_a)] \<and> py_endswith p ''.xml'' \<and>
        Some c = Some root \<and> h \<in> set (elem_findall root ''DLHDon'') \<and>
        read_src h = Some v \<and> map_of r = row_spec v)"
proof -
  have run: "process_file ex_env ''a.xml''
      \<lparr>uploads = [(''a.xml'', ex_doc_a)], extracted = [], output_file = None\<rparr> =
     (Inr (SendTable (data_frame [projr (extract_hdon ex_invoice)])),
      \<lparr>uploads = [(''output.xlsx'', ex_sheet)], extracted = [(''a.xml'', ex_doc_a)],
       output_file = Some (data_frame [projr (extract_hdon ex_invoice)])\<rparr>)"
    using ex_doc_a_rows by (simp add: server_run_defs)
  from served_rows_refine_spec [OF run] show ?thesis by (simp only: server.select_convs ex_env_def env.simps)
qed

end
